(* ===== verification/Prelude.thy ===== *)
theory Prelude
  imports Main
    "HOL-Library.Word"
    "HOL-Library.Signed_Division"
    "HOL-Library.Char_ord"
    "HOL-Library.List_Lexorder"
    "HOL-Library.Product_Lexorder"
begin

text \<open>
  Shared vocabulary of the development: Go's integers, durations and times, the string functions
  of Go's standard library the program calls, decimal and hexadecimal printing, the error and
  result plumbing, and generic facts on lists and association by key that the component theories
  use.

  Go's \<open>int\<close> and \<open>int64\<close> values are integers kept in the 64-bit range: wherever the source's
  arithmetic can leave it, the model applies \<open>wrap64\<close>, which is the two's complement reading of a
  64-bit word. Strings are lists of bytes (\<open>char\<close> has exactly 256 values), as Go's are.
\<close>

named_theorems op_defs \<open>definitions of the operations of the stores and services\<close>
named_theorems int64_simps \<open>facts about 64-bit arithmetic\<close>

section \<open>Integers\<close>

definition wrap64 :: "int \<Rightarrow> int" where
  "wrap64 x = sint (word_of_int x :: 64 word)"

definition min_int64 :: int where
  "min_int64 = - (2 ^ 63)"

definition max_int64 :: int where
  "max_int64 = 2 ^ 63 - 1"

definition int64 :: "int \<Rightarrow> bool" where
  "int64 x \<longleftrightarrow> min_int64 \<le> x \<and> x \<le> max_int64"

lemma wrap64_in_range: "int64 (wrap64 x)"
  using sint_range_size [of "word_of_int x :: 64 word"]
  by (simp add: int64_def wrap64_def min_int64_def max_int64_def word_size)

lemma wrap64_id [int64_simps]: "int64 x \<Longrightarrow> wrap64 x = x"
  by (simp add: int64_def wrap64_def min_int64_def max_int64_def sint_sbintrunc'
      signed_take_bit_int_eq_self)

lemma wrap64_mod: "wrap64 x mod 2 ^ 64 = x mod 2 ^ 64"
proof -
  have "(word_of_int (wrap64 x) :: 64 word) = word_of_int x"
    by (simp add: wrap64_def)
  then have "take_bit 64 (wrap64 x) = take_bit 64 x"
    by (simp add: word_of_int_eq_iff)
  then show ?thesis by (simp add: take_bit_eq_mod)
qed

section \<open>Time\<close>

text \<open>
  A \<open>time.Time\<close> is the number of nanoseconds since Go's zero time (1 January of year 1, UTC); a
  \<open>time.Duration\<close> is a signed 64-bit number of nanoseconds. \<open>Time.Sub\<close> saturates at the ends of
  the duration range, \<open>Time.Truncate\<close> rounds down to a multiple of the duration since the zero
  time.
\<close>

type_synonym go_time = int
type_synonym duration = int

definition Second :: duration where
  "Second = 1000000000"

definition Minute :: duration where
  "Minute = 60 * Second"

definition Hour :: duration where
  "Hour = 60 * Minute"

definition time_add :: "go_time \<Rightarrow> duration \<Rightarrow> go_time" where
  "time_add t d = t + d"

definition time_sub :: "go_time \<Rightarrow> go_time \<Rightarrow> duration" where
  "time_sub t u = max min_int64 (min max_int64 (t - u))"

definition time_truncate :: "go_time \<Rightarrow> duration \<Rightarrow> go_time" where
  "time_truncate t d = (if d \<le> 0 then t else t - t mod d)"

lemma time_truncate_le: "time_truncate t d \<le> t"
  by (simp add: time_truncate_def)

lemma time_truncate_gt: "0 < d \<Longrightarrow> t < time_truncate t d + d"
  using pos_mod_bound [of d t] by (simp add: time_truncate_def)

section \<open>Strings\<close>

text \<open>
  \<open>strings.TrimSpace\<close> removes leading and trailing Unicode white space. The list below holds the
  UTF-8 encodings of all of it. Decoding a string from either end yields a white space rune
  exactly where one of these byte sequences stands.
\<close>

definition utf8_spaces :: "string list" where
  "utf8_spaces =
     map (\<lambda>n. [char_of (n :: nat)]) [9, 10, 11, 12, 13, 32] @
     map (\<lambda>n. [char_of (194 :: nat), char_of (n :: nat)]) [133, 160] @
     [[char_of (225 :: nat), char_of (154 :: nat), char_of (128 :: nat)]] @
     map (\<lambda>n. [char_of (226 :: nat), char_of (128 :: nat), char_of (n :: nat)])
       [128, 129, 130, 131, 132, 133, 134, 135, 136, 137, 138, 168, 169, 175] @
     [[char_of (226 :: nat), char_of (129 :: nat), char_of (159 :: nat)],
      [char_of (227 :: nat), char_of (128 :: nat), char_of (128 :: nat)]]"

fun strip_prefix :: "'a list \<Rightarrow> 'a list \<Rightarrow> 'a list option" where
  "strip_prefix [] s = Some s"
| "strip_prefix (p # ps) [] = None"
| "strip_prefix (p # ps) (c # cs) = (if p = c then strip_prefix ps cs else None)"

fun strip_first :: "'a list list \<Rightarrow> 'a list \<Rightarrow> 'a list option" where
  "strip_first [] s = None"
| "strip_first (p # ps) s =
     (case strip_prefix p s of
        None \<Rightarrow> strip_first ps s
      | Some t \<Rightarrow> if length t < length s then Some t else strip_first ps s)"

lemma strip_first_shorter: "strip_first ps s = Some t \<Longrightarrow> length t < length s"
  by (induction ps) (auto split: option.splits if_splits)

function trim_left :: "'a list list \<Rightarrow> 'a list \<Rightarrow> 'a list" where
  "trim_left ps s = (case strip_first ps s of None \<Rightarrow> s | Some t \<Rightarrow> trim_left ps t)"
  by pat_completeness auto
termination
  by (relation "measure (\<lambda>(ps, s). length s)") (auto dest: strip_first_shorter)

declare trim_left.simps [simp del]

definition TrimSpace :: "string \<Rightarrow> string" where
  "TrimSpace s = rev (trim_left (map rev utf8_spaces) (rev (trim_left utf8_spaces s)))"

text \<open>
  \<open>strings.ToUpper\<close> maps ASCII strings bytewise and any other string rune by rune through the
  Unicode tables; those tables are the parameter \<open>uni\<close>.
\<close>

definition ascii_upper :: "char \<Rightarrow> char" where
  "ascii_upper c = (if CHR ''a'' \<le> c \<and> c \<le> CHR ''z'' then char_of (of_char c - 32 :: nat) else c)"

definition is_ascii :: "string \<Rightarrow> bool" where
  "is_ascii s = list_all (\<lambda>c. (of_char c :: nat) < 128) s"

definition ToUpper :: "(string \<Rightarrow> string) \<Rightarrow> string \<Rightarrow> string" where
  "ToUpper uni s = (if is_ascii s then map ascii_upper s else uni s)"

text \<open>The number of runes of a UTF-8 text, what PostgreSQL's \<open>length\<close> counts.\<close>

definition utf8_length :: "string \<Rightarrow> nat" where
  "utf8_length s = length (filter (\<lambda>c. \<not> (128 \<le> (of_char c :: nat) \<and> (of_char c :: nat) < 192)) s)"

lemma utf8_length_le: "utf8_length s \<le> length s"
  by (simp add: utf8_length_def)

subsection \<open>Trimming\<close>

lemma strip_prefix_Some: "strip_prefix p s = Some t \<longleftrightarrow> s = p @ t"
  by (induction p s rule: strip_prefix.induct) auto

lemma strip_prefix_append [simp]: "strip_prefix p (p @ t) = Some t"
  by (simp add: strip_prefix_Some)

lemma strip_first_None:
  "strip_first ps s = None \<longleftrightarrow> (\<forall>p \<in> set ps. p \<noteq> [] \<longrightarrow> \<not> (\<exists>t. s = p @ t))"
proof (induction ps)
  case Nil
  then show ?case by simp
next
  case (Cons p ps)
  show ?case
  proof (cases "strip_prefix p s")
    case None
    then have "\<not> (\<exists>t. s = p @ t)"
      by (metis option.distinct(1) strip_prefix_Some)
    with None Cons show ?thesis by auto
  next
    case (Some t)
    then have "s = p @ t" by (simp add: strip_prefix_Some)
    with Some Cons show ?thesis by auto
  qed
qed

lemma strip_first_Some_suffix: "strip_first ps s = Some t \<Longrightarrow> \<exists>u. s = u @ t"
  by (induction ps) (auto simp: strip_prefix_Some split: option.splits if_splits)

lemma trim_left_fixed: "strip_first ps (trim_left ps s) = None"
proof (induction ps s rule: trim_left.induct)
  case (1 ps s)
  then show ?case
    by (cases "strip_first ps s") (simp_all add: trim_left.simps [of ps s])
qed

lemma trim_left_suffix: "\<exists>u. s = u @ trim_left ps s"
proof (induction ps s rule: trim_left.induct)
  case (1 ps s)
  show ?case
  proof (cases "strip_first ps s")
    case None
    then show ?thesis by (simp add: trim_left.simps [of ps s])
  next
    case (Some t)
    with 1 obtain u where "t = u @ trim_left ps t" by blast
    moreover from Some obtain v where "s = v @ t" using strip_first_Some_suffix by blast
    ultimately have "s = (v @ u) @ trim_left ps t" by simp
    moreover have "trim_left ps s = trim_left ps t"
      using Some by (simp add: trim_left.simps [of ps s])
    ultimately show ?thesis by metis
  qed
qed

lemma trim_left_id: "strip_first ps s = None \<Longrightarrow> trim_left ps s = s"
  by (simp add: trim_left.simps [of ps s])

lemma strip_first_prefix: "strip_first ps (s @ t) = None \<Longrightarrow> strip_first ps s = None"
  by (fastforce simp: strip_first_None)

lemma TrimSpace_idem [simp]: "TrimSpace (TrimSpace s) = TrimSpace s"
proof -
  let ?l = "trim_left utf8_spaces s"
  let ?r = "trim_left (map rev utf8_spaces) (rev ?l)"
  obtain u where "rev ?l = u @ ?r" using trim_left_suffix by blast
  then have l: "?l = rev ?r @ rev u" by (metis rev_append rev_rev_ident)
  have "strip_first utf8_spaces (rev ?r @ rev u) = None"
    using trim_left_fixed [of utf8_spaces s] l by simp
  then have "trim_left utf8_spaces (rev ?r) = rev ?r"
    by (intro trim_left_id) (rule strip_first_prefix)
  moreover have "trim_left (map rev utf8_spaces) ?r = ?r"
    by (intro trim_left_id trim_left_fixed)
  ultimately show ?thesis by (simp add: TrimSpace_def)
qed

lemma TrimSpace_Nil [simp]: "TrimSpace [] = []"
  by (simp add: TrimSpace_def trim_left_id utf8_spaces_def)

subsection \<open>Splitting\<close>

text \<open>\<open>strings.Split\<close> at a separator of one character.\<close>

fun split_on :: "'a \<Rightarrow> 'a list \<Rightarrow> 'a list list" where
  "split_on x [] = [[]]"
| "split_on x (y # ys) = (if y = x then [] # split_on x ys else (y # hd (split_on x ys)) # tl (split_on x ys))"

lemma split_on_no: "x \<notin> set ys \<Longrightarrow> split_on x ys = [ys]"
  by (induction ys) auto

lemma split_on_append: "x \<notin> set ys \<Longrightarrow> split_on x (ys @ x # zs) = ys # split_on x zs"
  by (induction ys) auto

lemma split_on_nonempty [simp]: "split_on x ys \<noteq> []"
  by (cases ys) auto

lemma split_on_triple:
  assumes "split_on x ys = [a, b, c]"
  shows "ys = a @ x # b @ x # c \<and> x \<notin> set a \<and> x \<notin> set b \<and> x \<notin> set c"
proof -
  have join: "concat (map (\<lambda>p. p @ [x]) (split_on x zs)) = zs @ [x]" for zs
  proof (induction zs)
    case (Cons z zs)
    then show ?case by (cases "split_on x zs") auto
  qed simp
  have parts: "x \<notin> set p" if "p \<in> set (split_on x zs)" for p zs
    using that
  proof (induction zs arbitrary: p)
    case (Cons z zs)
    then show ?case by (cases "split_on x zs") (auto split: if_splits)
  qed simp
  have "ys @ [x] = (a @ x # b @ x # c) @ [x]" using join [of ys] assms by simp
  moreover have "x \<notin> set a" "x \<notin> set b" "x \<notin> set c" using parts [of _ ys] assms by auto
  ultimately show ?thesis by simp
qed

section \<open>Decimal and hexadecimal printing\<close>

definition digit :: "nat \<Rightarrow> char" where
  "digit n = char_of (48 + n)"

fun dec_nat :: "nat \<Rightarrow> string" where
  "dec_nat n = (if n < 10 then [digit n] else dec_nat (n div 10) @ [digit (n mod 10)])"

declare dec_nat.simps [simp del]

text \<open>The verb \<open>%d\<close> of \<open>fmt.Sprintf\<close>.\<close>

definition dec :: "int \<Rightarrow> string" where
  "dec i = (if i < 0 then CHR ''-'' # dec_nat (nat (- i)) else dec_nat (nat i))"

definition hex_digit :: "nat \<Rightarrow> char" where
  "hex_digit n = (if n < 10 then char_of (48 + n) else char_of (87 + n))"

text \<open>\<open>hex.EncodeToString\<close>: two lower-case digits per byte.\<close>

definition hex_encode :: "string \<Rightarrow> string" where
  "hex_encode bs = concat (map (\<lambda>b. [hex_digit (of_char b div 16), hex_digit (of_char b mod 16)]) bs)"

lemma of_char_digit [simp]: "n < 10 \<Longrightarrow> of_char (digit n) = 48 + n"
  by (simp add: digit_def)

lemma digit_inj: "m < 10 \<Longrightarrow> n < 10 \<Longrightarrow> digit m = digit n \<longleftrightarrow> m = n"
  by (metis add_left_cancel of_char_digit)

lemma dec_nat_nonempty [simp]: "dec_nat n \<noteq> []"
  by (subst dec_nat.simps) simp

lemma dec_nat_digits: "c \<in> set (dec_nat n) \<Longrightarrow> 48 \<le> (of_char c :: nat) \<and> (of_char c :: nat) < 58"
proof (induction n rule: dec_nat.induct)
  case (1 n)
  then show ?case
    by (cases "n < 10") (auto simp: dec_nat.simps [of n])
qed

lemma dec_nat_inj: "dec_nat m = dec_nat n \<Longrightarrow> m = n"
proof (induction m arbitrary: n rule: dec_nat.induct)
  case (1 m)
  show ?case
  proof (cases "m < 10"; cases "n < 10")
    assume "m < 10" "n < 10"
    with "1.prems" show ?thesis by (simp add: dec_nat.simps digit_inj)
  next
    assume "m < 10" "\<not> n < 10"
    with "1.prems" show ?thesis
      by (metis append_eq_Cons_conv append_is_Nil_conv dec_nat.simps dec_nat_nonempty
          list.distinct(1))
  next
    assume "\<not> m < 10" "n < 10"
    with "1.prems" show ?thesis by (simp add: dec_nat.simps [of m] dec_nat.simps [of n])
  next
    assume mn: "\<not> m < 10" "\<not> n < 10"
    with "1.prems" have "dec_nat (m div 10) = dec_nat (n div 10)" "m mod 10 = n mod 10"
      by (simp_all add: dec_nat.simps [of m] dec_nat.simps [of n] digit_inj)
    with "1.IH" mn have "m div 10 = n div 10" "m mod 10 = n mod 10" by blast+
    then show ?thesis by (metis div_mult_mod_eq)
  qed
qed

lemma dec_nat_no: "\<not> (48 \<le> (of_char c :: nat) \<and> (of_char c :: nat) < 58) \<Longrightarrow> c \<notin> set (dec_nat n)"
  using dec_nat_digits by blast

lemma dec_no_underscore: "CHR ''_'' \<notin> set (dec i)"
  by (simp add: dec_def dec_nat_no)

lemma dec_no_semicolon: "CHR '';'' \<notin> set (dec i)"
  by (simp add: dec_def dec_nat_no)

lemma dec_nonneg: "0 \<le> i \<Longrightarrow> dec i = dec_nat (nat i)"
  by (simp add: dec_def)

lemma dec_inj: "dec i = dec j \<Longrightarrow> i = j"
proof -
  assume eq: "dec i = dec j"
  have minus: "CHR ''-'' \<notin> set (dec_nat n)" for n by (simp add: dec_nat_no)
  show "i = j"
  proof (cases "i < 0"; cases "j < 0")
    assume "i < 0" "j < 0"
    with eq show ?thesis by (auto simp: dec_def dest: dec_nat_inj)
  next
    assume "i < 0" "\<not> j < 0"
    with eq minus show ?thesis by (metis dec_def list.set_intros(1))
  next
    assume "\<not> i < 0" "j < 0"
    with eq minus show ?thesis by (metis dec_def list.set_intros(1))
  next
    assume "\<not> i < 0" "\<not> j < 0"
    with eq show ?thesis by (auto simp: dec_def dest: dec_nat_inj)
  qed
qed

text \<open>A separator that occurs in neither head splits a string in one way only.\<close>

lemma split_unique:
  assumes "a @ c # b = a' @ c # b'" and "c \<notin> set a" and "c \<notin> set a'"
  shows "a = a' \<and> b = b'"
  using assms
proof (induction a arbitrary: a')
  case Nil
  then show ?case by (cases a') auto
next
  case (Cons x a)
  then show ?case by (cases a') auto
qed

lemma split_last_unique:
  assumes "b @ c # a = b' @ c # a'" and "c \<notin> set a" and "c \<notin> set a'"
  shows "a = a' \<and> b = b'"
proof -
  have "rev a @ c # rev b = rev a' @ c # rev b'"
    using arg_cong [OF assms(1), of rev] by simp
  then have "rev a = rev a' \<and> rev b = rev b'"
    by (rule split_unique) (use assms in simp_all)
  then show ?thesis by simp
qed

lemma hex_digit_range:
  "n < 16 \<Longrightarrow> (CHR ''a'' \<le> hex_digit n \<and> hex_digit n \<le> CHR ''z'') \<or> (CHR ''0'' \<le> hex_digit n \<and> hex_digit n \<le> CHR ''9'')"
  by (simp add: hex_digit_def less_eq_char_def)

section \<open>Reading decimals\<close>

text \<open>\<open>strconv.ParseInt(s, 10, 64)\<close> and \<open>strconv.Atoi\<close>: an optional sign and digits, in the 64-bit range.\<close>

definition is_digit :: "char \<Rightarrow> bool" where
  "is_digit c \<longleftrightarrow> 48 \<le> (of_char c :: nat) \<and> (of_char c :: nat) < 58"

definition digits_value :: "string \<Rightarrow> nat" where
  "digits_value s = foldl (\<lambda>n c. 10 * n + (of_char c - 48)) 0 s"

definition ParseInt :: "string \<Rightarrow> int option" where
  "ParseInt s =
     (let (neg, ds) = (case s of [] \<Rightarrow> (False, [])
                       | c # cs \<Rightarrow> if c = CHR ''-'' then (True, cs) else if c = CHR ''+'' then (False, cs) else (False, s));
          n = (if neg then - int (digits_value ds) else int (digits_value ds))
      in if ds = [] \<or> \<not> list_all is_digit ds \<or> \<not> int64 n then None else Some n)"

lemma digits_value_dec_nat [simp]: "digits_value (dec_nat n) = n"
proof (induction n rule: dec_nat.induct)
  case (1 n)
  then show ?case
    by (cases "n < 10") (simp_all add: dec_nat.simps [of n] digits_value_def)
qed

lemma dec_nat_is_digit: "list_all is_digit (dec_nat n)"
  using dec_nat_digits by (auto simp: list_all_iff is_digit_def)

lemma dec_nat_head: "dec_nat n = c # cs \<Longrightarrow> c \<noteq> CHR ''-'' \<and> c \<noteq> CHR ''+''"
  using dec_nat_digits [of c n] by auto

lemma ParseInt_dec: "int64 i \<Longrightarrow> ParseInt (dec i) = Some i"
proof (cases "i < 0")
  case True
  then show "int64 i \<Longrightarrow> ?thesis"
    using dec_nat_is_digit [of "nat (-i)"] by (simp add: ParseInt_def dec_def)
next
  case False
  obtain c cs where "dec_nat (nat i) = c # cs" by (cases "dec_nat (nat i)") auto
  then show "int64 i \<Longrightarrow> ?thesis"
    using False dec_nat_head dec_nat_is_digit [of "nat i"] digits_value_dec_nat [of "nat i"]
    by (simp add: ParseInt_def dec_def)
qed

lemma ParseInt_int64: "ParseInt s = Some n \<Longrightarrow> int64 n"
  by (auto simp: ParseInt_def Let_def split: prod.splits if_splits)

section \<open>Lists\<close>

lemma sort_key_head: "sort_key k xs = y # ys \<Longrightarrow> y \<in> set xs"
  by (metis list.set_intros(1) set_sort)

lemma sum_list_filter:
  "sum_list (map f (filter p xs)) = sum_list (map (\<lambda>x. if p x then f x else (0 :: int)) xs)"
  by (induction xs) auto

lemma sum_list_nonneg_map: "\<forall>x \<in> set xs. 0 \<le> f x \<Longrightarrow> 0 \<le> sum_list (map f xs :: int list)"
  by (induction xs) auto

lemma sum_list_mono_map:
  "\<forall>x \<in> set xs. f x \<le> g x \<Longrightarrow> sum_list (map f xs) \<le> (sum_list (map g xs) :: int)"
  by (induction xs) (auto intro: add_mono)

lemma find_append:
  "find p (xs @ ys) = (case find p xs of None \<Rightarrow> find p ys | Some x \<Rightarrow> Some x)"
  by (induction xs) auto

end
