(* ===== verification/Domain.thy ===== *)
theory Domain
  imports Prelude
begin

text \<open>
  The package \<open>internal/domain\<close>: the program's data types, its error values and the refund state
  machine. The string types of the source (\<open>RefundStatus\<close>, \<open>PaymentStatus\<close> and so on) are
  strings here too, with their constants as definitions, because values that are none of the
  constants do occur (query parameters, answers of the provider).

  Error values form one datatype. \<open>ErrWrap pre e post\<close> is \<open>fmt.Errorf\<close> with the verb \<open>%w\<close>: its
  text is \<open>pre\<close>, the text of \<open>e\<close>, then \<open>post\<close>. \<open>errors_is\<close> and \<open>errors_as_provider\<close> are \<open>errors.Is\<close>
  and \<open>errors.As\<close> on it.
\<close>

section \<open>Errors\<close>

text \<open>\<open>provider.Error\<close>, the error value of the provider client.\<close>

record ProviderError =
  peHTTPStatus :: int
  peRetryAfter :: duration
  pePermanent :: bool
  peConfiguration :: bool
  peMessage :: string

datatype go_error =
    ErrPaymentNotFound
  | ErrSubscriptionNotFound
  | ErrInvalidPaymentState
  | ErrInvalidStatusFilter
  | ErrInvalidPagination
  | ErrInvalidAmount
  | ErrInvalidCurrency
  | ErrInvalidWebhookURL
  | ErrIdempotencyConflict
  | ErrUserIDRequired
  | ErrRefundNotFound
  | ErrInvalidRefundState
  | ErrRefundAmountExceeded
  | ErrIdempotencyKeyRequired
  | ErrLeaseLost
  | ErrStorageUnavailable
  | ErrNoRows
  | ErrInvalidToken
  | ErrNew string
  | ErrExternal string
  | ErrPanic string
  | ErrProvider ProviderError
  | ErrWrap string go_error string

fun error_text :: "go_error \<Rightarrow> string" where
  "error_text ErrPaymentNotFound = ''payment not found''"
| "error_text ErrSubscriptionNotFound = ''subscription not found''"
| "error_text ErrInvalidPaymentState = ''invalid payment state''"
| "error_text ErrInvalidStatusFilter = ''invalid status filter''"
| "error_text ErrInvalidPagination = ''invalid pagination''"
| "error_text ErrInvalidAmount = ''invalid amount''"
| "error_text ErrInvalidCurrency = ''invalid currency''"
| "error_text ErrInvalidWebhookURL = ''invalid webhook url''"
| "error_text ErrIdempotencyConflict = ''idempotency key already used with different payload''"
| "error_text ErrUserIDRequired = ''authenticated user is required''"
| "error_text ErrRefundNotFound = ''refund not found''"
| "error_text ErrInvalidRefundState = ''invalid refund state''"
| "error_text ErrRefundAmountExceeded = ''refund amount exceeds available payment amount''"
| "error_text ErrIdempotencyKeyRequired = ''Idempotency-Key is required and must be at most 128 characters''"
| "error_text ErrLeaseLost = ''refund lease lost''"
| "error_text ErrStorageUnavailable = ''storage unavailable''"
| "error_text ErrNoRows = ''no rows in result set''"
| "error_text ErrInvalidToken = ''invalid or expired token''"
| "error_text (ErrNew msg) = msg"
| "error_text (ErrExternal msg) = msg"
| "error_text (ErrPanic msg) = msg"
| "error_text (ErrProvider pe) = peMessage pe"
| "error_text (ErrWrap pre e post) = pre @ error_text e @ post"

fun errors_is :: "go_error \<Rightarrow> go_error \<Rightarrow> bool" where
  "errors_is (ErrWrap pre e post) target \<longleftrightarrow> ErrWrap pre e post = target \<or> errors_is e target"
| "errors_is e target \<longleftrightarrow> e = target"

fun errors_as_provider :: "go_error \<Rightarrow> ProviderError option" where
  "errors_as_provider (ErrProvider pe) = Some pe"
| "errors_as_provider (ErrWrap pre e post) = errors_as_provider e"
| "errors_as_provider e = None"

lemma errors_is_refl [simp]: "errors_is e e"
  by (cases e) auto

text \<open>\<open>fmt.Errorf("msg: %w", err)\<close>, the form nearly every caller uses, and the plain return.\<close>

definition wrapf :: "string \<Rightarrow> go_error \<Rightarrow> go_error" where
  "wrapf msg e = ErrWrap (msg @ '': '') e ''''"

definition nowrap :: "string \<Rightarrow> go_error \<Rightarrow> go_error" where
  "nowrap msg e = e"

lemma errors_is_wrapf [simp]: "errors_is (wrapf msg e) t \<longleftrightarrow> wrapf msg e = t \<or> errors_is e t"
  by (simp add: wrapf_def)

lemma nowrap_simp [simp]: "nowrap msg e = e"
  by (simp add: nowrap_def)

section \<open>Payments\<close>

type_synonym payment_status = string

definition PaymentPending :: payment_status where "PaymentPending = ''PENDING''"
definition PaymentProcessing :: payment_status where "PaymentProcessing = ''PROCESSING''"
definition PaymentSucceeded :: payment_status where "PaymentSucceeded = ''SUCCEEDED''"
definition PaymentFailed :: payment_status where "PaymentFailed = ''FAILED''"
definition PaymentCancelled :: payment_status where "PaymentCancelled = ''CANCELLED''"

lemmas payment_status_defs = PaymentPending_def PaymentProcessing_def PaymentSucceeded_def
  PaymentFailed_def PaymentCancelled_def

lemma payment_status_distinct [simp]:
  "distinct [PaymentPending, PaymentProcessing, PaymentSucceeded, PaymentFailed, PaymentCancelled]"
  by (simp add: payment_status_defs)

lemma payment_status_neq [simp]:
  "PaymentPending \<noteq> PaymentCancelled" "PaymentCancelled \<noteq> PaymentPending"
  "PaymentPending \<noteq> PaymentSucceeded" "PaymentSucceeded \<noteq> PaymentPending"
  "PaymentCancelled \<noteq> PaymentSucceeded" "PaymentSucceeded \<noteq> PaymentCancelled"
  by (simp_all add: payment_status_defs)

record Payment =
  pID :: string
  pAmount :: int
  pCurrency :: string
  pStatus :: payment_status
  pIdempotencyKey :: string
  pCreatedAt :: go_time
  pUpdatedAt :: go_time

record PaymentCreatedPayload =
  pcID :: string
  pcAmount :: int
  pcCurrency :: string
  pcIdempotencyKey :: string
  pcStatus :: payment_status
  pcCreatedAt :: go_time

record PaymentCancelledPayload =
  pxID :: string
  pxCancelledAt :: go_time

section \<open>Webhook subscriptions\<close>

record WebhookSubscription =
  sID :: string
  sURL :: string
  sActive :: bool
  sCreateAt :: go_time
  sUpdatedAt :: go_time

definition SetActive :: "bool \<Rightarrow> WebhookSubscription \<Rightarrow> WebhookSubscription" where
  "SetActive flag s = s\<lparr>sActive := flag\<rparr>"

definition Activate :: "WebhookSubscription \<Rightarrow> WebhookSubscription" where
  "Activate s = s\<lparr>sActive := True\<rparr>"

definition Deactivate :: "WebhookSubscription \<Rightarrow> WebhookSubscription" where
  "Deactivate s = s\<lparr>sActive := False\<rparr>"

definition Deactivete :: "WebhookSubscription \<Rightarrow> WebhookSubscription" where
  "Deactivete s = Deactivate s"

section \<open>Refunds\<close>

type_synonym refund_status = string

definition RefundPending :: refund_status where "RefundPending = ''PENDING''"
definition RefundProcessing :: refund_status where "RefundProcessing = ''PROCESSING''"
definition RefundSucceeded :: refund_status where "RefundSucceeded = ''SUCCEEDED''"
definition RefundFailed :: refund_status where "RefundFailed = ''FAILED''"

lemmas refund_status_defs = RefundPending_def RefundProcessing_def RefundSucceeded_def
  RefundFailed_def

lemma refund_status_neq [simp]:
  "RefundPending \<noteq> RefundProcessing" "RefundProcessing \<noteq> RefundPending"
  "RefundPending \<noteq> RefundSucceeded" "RefundSucceeded \<noteq> RefundPending"
  "RefundPending \<noteq> RefundFailed" "RefundFailed \<noteq> RefundPending"
  "RefundProcessing \<noteq> RefundSucceeded" "RefundSucceeded \<noteq> RefundProcessing"
  "RefundProcessing \<noteq> RefundFailed" "RefundFailed \<noteq> RefundProcessing"
  "RefundSucceeded \<noteq> RefundFailed" "RefundFailed \<noteq> RefundSucceeded"
  by (simp_all add: refund_status_defs)

definition ValidateRefundTransition :: "refund_status \<Rightarrow> refund_status \<Rightarrow> go_error option" where
  "ValidateRefundTransition from to =
     (if from = RefundPending \<and> to = RefundProcessing \<or>
         from = RefundProcessing \<and> (to = RefundSucceeded \<or> to = RefundFailed) \<or>
         from = RefundFailed \<and> to = RefundProcessing
      then None
      else Some (ErrWrap '''' ErrInvalidRefundState ('': '' @ from @ '' -> '' @ to)))"

definition IsRefundStatus :: "refund_status \<Rightarrow> bool" where
  "IsRefundStatus status \<longleftrightarrow>
     status = RefundPending \<or> status = RefundProcessing \<or> status = RefundSucceeded \<or>
     status = RefundFailed"

record Refund =
  rID :: string
  rUserID :: string
  rPaymentID :: string
  rAmount :: int
  rCurrency :: string
  rStatus :: refund_status
  rIdempotencyKey :: string
  rRequestHash :: string
  rAttempts :: int
  rCheckFailures :: int
  rRetryable :: bool
  rManualReview :: bool
  rLastError :: string
  rNextActionAt :: go_time
  rProcessingStartedAt :: "go_time option"
  rLeaseToken :: string
  rLeaseUntil :: "go_time option"
  rVersion :: int
  rCreatedAt :: go_time
  rUpdatedAt :: go_time

record ReconciliationResult =
  recID :: string
  recOperationID :: string
  recLocalStatus :: refund_status
  recExternalStatus :: string
  recResult :: string
  recDetail :: string
  recCheckedAt :: go_time

lemma ValidateRefundTransition_None:
  "ValidateRefundTransition from to = None \<longleftrightarrow>
     (from, to) \<in> {(RefundPending, RefundProcessing), (RefundProcessing, RefundSucceeded),
                   (RefundProcessing, RefundFailed), (RefundFailed, RefundProcessing)}"
  by (auto simp: ValidateRefundTransition_def)

lemma ValidateRefundTransition_error:
  "ValidateRefundTransition from to = Some e \<Longrightarrow> errors_is e ErrInvalidRefundState"
  by (auto simp: ValidateRefundTransition_def split: if_splits)

section \<open>Events and the outbox\<close>

type_synonym event_type = string

definition EventPaymentCreated :: event_type where "EventPaymentCreated = ''PaymentCreated''"
definition EventPaymentCancelled :: event_type where "EventPaymentCancelled = ''PaymentCancelled''"
definition EventWebhookSubscriptionCreated :: event_type where
  "EventWebhookSubscriptionCreated = ''WebhookSubscriptionCreated''"
definition EventWebhookSubscriptionActivated :: event_type where
  "EventWebhookSubscriptionActivated = ''WebhookSubscriptionActivated''"
definition EventWebhookSubscriptionDeactivated :: event_type where
  "EventWebhookSubscriptionDeactivated = ''WebhookSubscriptionDeactivated''"

definition AggregateTypePayment :: string where "AggregateTypePayment = ''payment''"

type_synonym outbox_status = string

definition OutboxPending :: outbox_status where "OutboxPending = ''pending''"
definition OutboxDelivered :: outbox_status where "OutboxDelivered = ''delivered''"
definition OutboxDeadLetter :: outbox_status where "OutboxDeadLetter = ''dead_letter''"

lemma outbox_status_neq [simp]:
  "OutboxPending \<noteq> OutboxDelivered" "OutboxDelivered \<noteq> OutboxPending"
  "OutboxPending \<noteq> OutboxDeadLetter" "OutboxDeadLetter \<noteq> OutboxPending"
  "OutboxDelivered \<noteq> OutboxDeadLetter" "OutboxDeadLetter \<noteq> OutboxDelivered"
  by (simp_all add: OutboxPending_def OutboxDelivered_def OutboxDeadLetter_def)

text \<open>
  The JSON payload of an outbox event, by the structure it encodes: the two payment payloads of
  \<open>payment_events.go\<close> and the refund row that the database trigger writes.
\<close>

datatype event_payload =
    PaymentCreatedJSON PaymentCreatedPayload
  | PaymentCancelledJSON PaymentCancelledPayload
  | RefundRowJSON Refund

record OutboxEvent =
  eID :: string
  eUserID :: string
  eEventType :: event_type
  eAggregateType :: string
  eAggregateID :: string
  ePayload :: event_payload
  eStatus :: outbox_status
  eAttempts :: int
  eNextAttemptAt :: go_time
  eLockedUntil :: "go_time option"
  eLastError :: string
  eCreatedAt :: go_time
  eUpdatedAt :: go_time

type_synonym delivery_status = string

definition WebhookDeliverySucceeded :: delivery_status where
  "WebhookDeliverySucceeded = ''succeeded''"
definition WebhookDeliveryFailed :: delivery_status where
  "WebhookDeliveryFailed = ''failed''"

lemma delivery_status_neq [simp]:
  "WebhookDeliverySucceeded \<noteq> WebhookDeliveryFailed"
  "WebhookDeliveryFailed \<noteq> WebhookDeliverySucceeded"
  by (simp_all add: WebhookDeliverySucceeded_def WebhookDeliveryFailed_def)

record WebhookDelivery =
  dID :: string
  dEventID :: string
  dSubscriptionID :: string
  dTargetURL :: string
  dStatus :: delivery_status
  dHTTPStatus :: int
  dError :: string
  dAttempt :: int
  dDurationMS :: int
  dCreatedAt :: go_time

record WebhookEnvelope =
  weEventID :: string
  weEventType :: event_type
  weAggregateType :: string
  weAggregateID :: string
  weUserID :: string
  weAttempt :: int
  weOccurredAt :: go_time
  wePayload :: event_payload

end
