(* ===== verification/Database.thy ===== *)
theory Database
  imports Domain
begin

text \<open>
  The PostgreSQL schema (\<open>migrations/*.sql\<close> and the per-user tables that
  \<open>ensureUserTablesTx\<close> creates) and what the stores use of SQL.

  A table is the list of its rows. The clauses of the program's statements have their SQL meaning
  on such lists: a \<open>WHERE\<close> is a filter, an \<open>UPDATE\<close> maps the matching rows, \<open>ORDER BY\<close> sorts,
  \<open>LIMIT\<close> and \<open>OFFSET\<close> take and drop, a violated key, check or foreign key makes the statement
  fail, and the two row triggers of \<open>003_refunds.sql\<close> run on every insert and update of a refund.
  A nullable text column that is always read through \<open>COALESCE\<close> holds the empty string for NULL.

  Everything outside the program is in the record \<open>env\<close>: which driver call fails with which error,
  what a failed commit left behind, the clock, the values of the process-wide atomic counters, the
  random bytes, and the rows other transactions hold locks on (\<open>SKIP LOCKED\<close> passes over them).
\<close>

section \<open>Tables\<close>

record app_user =
  auUser :: string
  auPayments :: string
  auWebhooks :: string
  auCreatedAt :: go_time

record idem_key =
  ikUser :: string
  ikKey :: string
  ikHash :: string
  ikPayment :: string
  ikCreatedAt :: go_time

record rate_window =
  rwScope :: string
  rwStart :: go_time
  rwHits :: int
  rwCreatedAt :: go_time
  rwUpdatedAt :: go_time

record db =
  app_users :: "app_user list"
  idempotency_keys :: "idem_key list"
  payments_tables :: "string \<rightharpoonup> Payment list"
  webhooks_tables :: "string \<rightharpoonup> WebhookSubscription list"
  outbox_events :: "OutboxEvent list"
  webhook_deliveries :: "WebhookDelivery list"
  refunds :: "Refund list"
  reconciliation_results :: "ReconciliationResult list"
  rate_limit_windows :: "rate_window list"

definition empty_db :: db where
  "empty_db =
     \<lparr>app_users = [], idempotency_keys = [], payments_tables = Map.empty,
      webhooks_tables = Map.empty, outbox_events = [], webhook_deliveries = [], refunds = [],
      reconciliation_results = [], rate_limit_windows = []\<rparr>"

section \<open>The environment of a call\<close>

record env =
  flt :: "string \<Rightarrow> go_error option"
  cmt :: "string \<Rightarrow> (go_error \<times> bool) option"
  env_now :: go_time
  env_nano :: int
  env_seq :: "64 word"
  env_rand :: "go_error + string"
  env_locked :: "string \<Rightarrow> bool"

text \<open>No call fails, nothing is locked.\<close>

definition calm :: "go_time \<Rightarrow> 64 word \<Rightarrow> string \<Rightarrow> env" where
  "calm now seq rnd =
     \<lparr>flt = (\<lambda>_. None), cmt = (\<lambda>_. None), env_now = now, env_nano = now, env_seq = seq,
      env_rand = Inr rnd, env_locked = (\<lambda>_. False)\<rparr>"

definition unique_violation :: go_error where "unique_violation = ErrExternal ''23505''"
definition check_violation :: go_error where "check_violation = ErrExternal ''23514''"
definition foreign_key_violation :: go_error where "foreign_key_violation = ErrExternal ''23503''"
definition undefined_table :: go_error where "undefined_table = ErrExternal ''42P01''"

definition bindE :: "'e + 'a \<Rightarrow> ('a \<Rightarrow> 'e + 'b) \<Rightarrow> 'e + 'b" where
  "bindE m k = (case m of Inl e \<Rightarrow> Inl e | Inr x \<Rightarrow> k x)"

lemma bindE_simps [simp]:
  "bindE (Inl e) k = Inl e"
  "bindE (Inr x) k = k x"
  by (simp_all add: bindE_def)

lemma bindE_Inr: "bindE m k = Inr y \<longleftrightarrow> (\<exists>x. m = Inr x \<and> k x = Inr y)"
  by (cases m) simp_all

lemma bindE_Inl: "bindE m k = Inl e \<longleftrightarrow> m = Inl e \<or> (\<exists>x. m = Inr x \<and> k x = Inl e)"
  by (cases m) simp_all

text \<open>A statement that may fail in the driver before it has an effect; \<open>Scan\<close> of one row.\<close>

definition call :: "env \<Rightarrow> string \<Rightarrow> go_error + unit" where
  "call e l = (case flt e l of None \<Rightarrow> Inr () | Some err \<Rightarrow> Inl err)"

definition query_row :: "env \<Rightarrow> string \<Rightarrow> 'a option \<Rightarrow> go_error + 'a" where
  "query_row e l row =
     bindE (call e l) (\<lambda>_. case row of None \<Rightarrow> Inl ErrNoRows | Some x \<Rightarrow> Inr x)"

definition mapErr :: "('e \<Rightarrow> 'f) \<Rightarrow> 'e + 'a \<Rightarrow> 'f + 'a" where
  "mapErr f m = (case m of Inl e \<Rightarrow> Inl (f e) | Inr x \<Rightarrow> Inr x)"

lemma mapErr_simps [simp]:
  "mapErr f (Inl e) = Inl (f e)"
  "mapErr f (Inr x) = Inr x"
  by (simp_all add: mapErr_def)

lemma mapErr_Inr [simp]: "mapErr f m = Inr x \<longleftrightarrow> m = Inr x"
  by (cases m) simp_all

lemma call_Inr [simp]: "call e l = Inr u \<longleftrightarrow> flt e l = None"
  by (simp add: call_def split: option.splits)

lemma query_row_Inr: "query_row e l row = Inr x \<longleftrightarrow> flt e l = None \<and> row = Some x"
  by (auto simp: query_row_def bindE_Inr split: option.splits)

lemma call_calm [simp]: "call (calm now seq rnd) l = Inr ()"
  by (simp add: calm_def)

lemma calm_simps [simp]:
  "flt (calm now seq rnd) = (\<lambda>_. None)" "cmt (calm now seq rnd) = (\<lambda>_. None)"
  "env_now (calm now seq rnd) = now" "env_nano (calm now seq rnd) = now"
  "env_seq (calm now seq rnd) = seq" "env_rand (calm now seq rnd) = Inr rnd"
  "env_locked (calm now seq rnd) = (\<lambda>_. False)"
  by (simp_all add: calm_def)

text \<open>No driver call and no commit fails.\<close>

definition fault_free :: "env \<Rightarrow> bool" where
  "fault_free e \<longleftrightarrow> flt e = (\<lambda>_. None) \<and> cmt e = (\<lambda>_. None)"

lemma fault_free_simps [simp]:
  assumes "fault_free e"
  shows "flt e l = None" "cmt e l = None" "call e l = Inr ()"
  using assms by (simp_all add: fault_free_def call_def)

lemma fault_free_calm [simp]: "fault_free (calm now seq rnd)"
  by (simp add: fault_free_def)

section \<open>Transactions\<close>

text \<open>
  The shape of every transaction of the stores: \<open>Begin\<close>, \<open>defer tx.Rollback\<close>, statements, and
  \<open>Commit\<close> on some of the paths. The body gives the transaction's view of the database:
  \<open>Inr (x, Some d')\<close> asks for a commit, \<open>Inr (x, None)\<close> returns without one and so rolls back. A
  commit that reports an error may or may not have been applied by the server.
\<close>

definition run_tx ::
  "(string \<Rightarrow> go_error \<Rightarrow> go_error) \<Rightarrow> env \<Rightarrow> string \<Rightarrow> string \<Rightarrow> db \<Rightarrow>
   (db \<Rightarrow> go_error + 'a \<times> db option) \<Rightarrow> (go_error + 'a) \<times> db" where
  "run_tx wr e lbegin lcommit d body =
     (case flt e lbegin of
        Some err \<Rightarrow> (Inl (wr lbegin err), d)
      | None \<Rightarrow>
        (case body d of
           Inl err \<Rightarrow> (Inl err, d)
         | Inr (x, None) \<Rightarrow> (Inr x, d)
         | Inr (x, Some d') \<Rightarrow>
           (case cmt e lcommit of
              None \<Rightarrow> (Inr x, d')
            | Some (err, applied) \<Rightarrow> (Inl (wr lcommit err), if applied then d' else d))))"

text \<open>A statement outside a transaction commits by itself.\<close>

definition autocommit :: "env \<Rightarrow> string \<Rightarrow> db \<Rightarrow> (go_error + 'a \<times> db) \<Rightarrow> (go_error + 'a) \<times> db" where
  "autocommit e l d st =
     (case flt e l of
        Some err \<Rightarrow> (Inl err, d)
      | None \<Rightarrow>
        (case st of
           Inl err \<Rightarrow> (Inl err, d)
         | Inr (x, d') \<Rightarrow>
           (case cmt e l of
              None \<Rightarrow> (Inr x, d')
            | Some (err, applied) \<Rightarrow> (Inl err, if applied then d' else d))))"

lemma run_tx_atomic:
  assumes "run_tx wr e lb lc d body = (res, d')"
  shows "d' = d \<or> (\<exists>x. body d = Inr (x, Some d'))"
  using assms by (auto simp: run_tx_def split: option.splits sum.splits prod.splits if_splits)

lemma run_tx_Inr:
  "run_tx wr e lb lc d body = (Inr x, d') \<longleftrightarrow>
     flt e lb = None \<and>
     (body d = Inr (x, None) \<and> d' = d \<or> body d = Inr (x, Some d') \<and> cmt e lc = None)"
  by (auto simp: run_tx_def split: option.splits sum.splits prod.splits if_splits)

lemma run_tx_cases:
  assumes "run_tx wr e lb lc d body = (res, d')"
  obtains (unchanged) "d' = d"
    | (applied) x where "body d = Inr (x, Some d')" "flt e lb = None"
        "res = Inr x \<or> (\<exists>err. res = Inl err \<and> cmt e lc = Some (err, True)) \<or> (\<exists>err. res = Inl err)"
  using assms by (auto simp: run_tx_def split: option.splits sum.splits prod.splits if_splits)

section \<open>Rows by key\<close>

definition update_where :: "('a \<Rightarrow> bool) \<Rightarrow> ('a \<Rightarrow> 'a) \<Rightarrow> 'a list \<Rightarrow> 'a list" where
  "update_where p f rows = map (\<lambda>x. if p x then f x else x) rows"

definition count_where :: "('a \<Rightarrow> bool) \<Rightarrow> 'a list \<Rightarrow> nat" where
  "count_where p rows = length (filter p rows)"

lemma find_Some_set: "find p xs = Some x \<Longrightarrow> x \<in> set xs \<and> p x"
  by (auto simp: find_Some_iff)

lemma find_None_set: "find p xs = None \<longleftrightarrow> (\<forall>x \<in> set xs. \<not> p x)"
  by (auto simp: find_None_iff)

lemma find_key_unique:
  "distinct (map k xs) \<Longrightarrow> x \<in> set xs \<Longrightarrow> find (\<lambda>y. k y = k x) xs = Some x"
  by (induction xs) (auto simp: image_iff)

lemma distinct_key_eq:
  "distinct (map k xs) \<Longrightarrow> x \<in> set xs \<Longrightarrow> y \<in> set xs \<Longrightarrow> k x = k y \<Longrightarrow> x = y"
  by (metis find_key_unique option.inject)

lemma set_update_where:
  "set (update_where p f rows) = {x \<in> set rows. \<not> p x} \<union> f ` {x \<in> set rows. p x}"
  by (auto simp: update_where_def)

lemma map_key_update_where:
  "(\<And>x. p x \<Longrightarrow> k (f x) = k x) \<Longrightarrow> map k (update_where p f rows) = map k rows"
  by (auto simp: update_where_def)

lemma length_update_where [simp]: "length (update_where p f rows) = length rows"
  by (simp add: update_where_def)

lemma update_where_none: "\<forall>x \<in> set rows. \<not> p x \<Longrightarrow> update_where p f rows = rows"
  by (induction rows) (auto simp: update_where_def)

lemma find_update_where_other:
  assumes "\<And>x. p x \<Longrightarrow> q (f x) \<longleftrightarrow> q x" and "\<And>x. p x \<Longrightarrow> \<not> q x"
  shows "find q (update_where p f rows) = find q rows"
  using assms by (induction rows) (auto simp: update_where_def)

lemma find_update_where_same:
  assumes "\<And>x. p x \<Longrightarrow> p (f x)"
  shows "find p (update_where p f rows) = map_option f (find p rows)"
  using assms by (induction rows) (auto simp: update_where_def)

section \<open>The outbox table\<close>

definition insert_outbox_row :: "OutboxEvent \<Rightarrow> db \<Rightarrow> go_error + db" where
  "insert_outbox_row ev d =
     (if \<exists>x \<in> set (outbox_events d). eID x = eID ev then Inl unique_violation
      else Inr (d\<lparr>outbox_events := outbox_events d @ [ev]\<rparr>))"

lemma insert_outbox_row_Inr:
  "insert_outbox_row ev d = Inr d' \<longleftrightarrow>
     (\<forall>x \<in> set (outbox_events d). eID x \<noteq> eID ev) \<and>
     d' = d\<lparr>outbox_events := outbox_events d @ [ev]\<rparr>"
  by (auto simp: insert_outbox_row_def)

section \<open>The refunds table: constraints and triggers\<close>

definition max_int32 :: int where
  "max_int32 = 2 ^ 31 - 1"

definition refund_checks :: "Refund \<Rightarrow> bool" where
  "refund_checks r \<longleftrightarrow>
     0 < rAmount r \<and> rAmount r \<le> max_int64 \<and>
     utf8_length (rCurrency r) = 3 \<and>
     (rStatus r = RefundPending \<or> rStatus r = RefundProcessing \<or> rStatus r = RefundSucceeded \<or>
      rStatus r = RefundFailed) \<and>
     1 \<le> utf8_length (rIdempotencyKey r) \<and> utf8_length (rIdempotencyKey r) \<le> 128 \<and>
     0 \<le> rAttempts r \<and> rAttempts r \<le> max_int32 \<and>
     0 \<le> rCheckFailures r \<and> rCheckFailures r \<le> max_int32 \<and>
     rVersion r \<le> max_int64 \<and>
     (\<not> rRetryable r \<or> rStatus r = RefundFailed) \<and>
     (\<not> rManualReview r \<or> rStatus r = RefundProcessing)"

definition guard_refund_insert :: "Refund \<Rightarrow> go_error + Refund" where
  "guard_refund_insert new =
     (if rStatus new \<noteq> RefundPending then Inl check_violation else Inr (new\<lparr>rVersion := 1\<rparr>))"

definition guard_refund_update :: "Refund \<Rightarrow> Refund \<Rightarrow> go_error + Refund" where
  "guard_refund_update old new =
     (if (rID new, rUserID new, rPaymentID new, rAmount new, rCurrency new, rIdempotencyKey new,
          rRequestHash new, rCreatedAt new) \<noteq>
         (rID old, rUserID old, rPaymentID old, rAmount old, rCurrency old, rIdempotencyKey old,
          rRequestHash old, rCreatedAt old)
      then Inl check_violation
      else if rStatus old \<noteq> rStatus new \<and>
        \<not> (rStatus old = RefundPending \<and> rStatus new = RefundProcessing \<or>
           rStatus old = RefundProcessing \<and> rStatus new \<in> {RefundSucceeded, RefundFailed} \<or>
           rStatus old = RefundFailed \<and> rStatus new = RefundProcessing \<and> rRetryable old)
      then Inl check_violation
      else if rStatus old = RefundFailed \<and> \<not> rRetryable old \<and> rRetryable new
      then Inl check_violation
      else Inr (new\<lparr>rVersion := rVersion old + 1\<rparr>))"

definition lower_status :: "refund_status \<Rightarrow> string" where
  "lower_status s =
     map (\<lambda>c. if CHR ''A'' \<le> c \<and> c \<le> CHR ''Z'' then char_of (of_char c + 32 :: nat) else c) s"

definition refund_event :: "string \<Rightarrow> Refund \<Rightarrow> OutboxEvent" where
  "refund_event kind new =
     \<lparr>eID = ''evt_'' @ rID new @ ''_'' @ dec (rVersion new), eUserID = rUserID new,
      eEventType = kind, eAggregateType = ''refund'', eAggregateID = rID new,
      ePayload = RefundRowJSON (new\<lparr>rLeaseToken := '''', rLeaseUntil := None, rRequestHash := ''''\<rparr>),
      eStatus = OutboxPending, eAttempts = 0, eNextAttemptAt = rUpdatedAt new,
      eLockedUntil = None, eLastError = '''', eCreatedAt = rUpdatedAt new,
      eUpdatedAt = rUpdatedAt new\<rparr>"

definition emit_refund_outbox :: "Refund option \<Rightarrow> Refund \<Rightarrow> db \<Rightarrow> go_error + db" where
  "emit_refund_outbox old new d =
     (case old of
        None \<Rightarrow> insert_outbox_row (refund_event ''refund.created'' new) d
      | Some prev \<Rightarrow>
        if rStatus prev \<noteq> rStatus new
        then insert_outbox_row (refund_event (''refund.'' @ lower_status (rStatus new)) new) d
        else if \<not> rManualReview prev \<and> rManualReview new
        then insert_outbox_row (refund_event ''refund.manual_review'' new) d
        else if rManualReview prev \<and> \<not> rManualReview new
        then insert_outbox_row (refund_event ''refund.recheck_requested'' new) d
        else Inr d)"

definition insert_refund :: "Refund \<Rightarrow> db \<Rightarrow> go_error + Refund \<times> db" where
  "insert_refund r d =
     bindE (guard_refund_insert r) (\<lambda>new.
       if \<not> refund_checks new then Inl check_violation
       else if \<exists>x \<in> set (refunds d). rID x = rID new \<or>
                 rUserID x = rUserID new \<and> rIdempotencyKey x = rIdempotencyKey new
       then Inl unique_violation
       else if \<not> (\<exists>u \<in> set (app_users d). auUser u = rUserID new)
       then Inl foreign_key_violation
       else bindE (emit_refund_outbox None new (d\<lparr>refunds := refunds d @ [new]\<rparr>))
              (\<lambda>d'. Inr (new, d')))"

text \<open>\<open>UPDATE refunds SET ... WHERE id = old.id RETURNING\<close>: \<open>f\<close> is the \<open>SET\<close> clause.\<close>

definition update_refund :: "(Refund \<Rightarrow> Refund) \<Rightarrow> Refund \<Rightarrow> db \<Rightarrow> go_error + Refund \<times> db" where
  "update_refund f old d =
     bindE (guard_refund_update old (f old)) (\<lambda>new.
       if \<not> refund_checks new then Inl check_violation
       else bindE (emit_refund_outbox (Some old) new
              (d\<lparr>refunds := update_where (\<lambda>x. rID x = rID old) (\<lambda>_. new) (refunds d)\<rparr>))
              (\<lambda>d'. Inr (new, d')))"

end
