(* ===== verification/TenantStore.thy ===== *)
theory TenantStore
  imports Database
begin

text \<open>
  The per-user tables of \<open>internal/storage/store.go\<close>: table names derived from a hash of the user,
  identifier quoting, and \<open>ensureUserSchema\<close>, which registers the user and creates the tables in
  one transaction and remembers the user in the process. \<open>sha\<close> stands for \<open>sha256.Sum256\<close>.

  The lemmas show the tenant invariant: registered users own pairwise different tables, all of which
  exist, and a user the process remembers is registered. Nothing about the hash is assumed: two
  users whose truncated hashes collide cannot both register, because the table names are unique
  columns of \<open>app_users\<close>.
\<close>

record userTables =
  utPayments :: string
  utWebhooks :: string
  utSuffix :: string

record Store =
  pool :: db
  ensuredUsers :: "string set"

text \<open>An operation on the database as a method of the store.\<close>

definition on_pool :: "Store \<Rightarrow> 'a \<times> db \<Rightarrow> 'a \<times> Store" where
  "on_pool st r = (fst r, st\<lparr>pool := snd r\<rparr>)"

definition deriveUserTables :: "(string \<Rightarrow> string) \<Rightarrow> string \<Rightarrow> userTables" where
  "deriveUserTables sha userID =
     (let suffix = take 16 (hex_encode (sha (TrimSpace userID))) in
      \<lparr>utPayments = ''payments_u_'' @ suffix, utWebhooks = ''webhook_subscriptions_u_'' @ suffix,
       utSuffix = suffix\<rparr>)"

definition identifier_char :: "char \<Rightarrow> bool" where
  "identifier_char r \<longleftrightarrow>
     (CHR ''a'' \<le> r \<and> r \<le> CHR ''z'') \<or> (CHR ''0'' \<le> r \<and> r \<le> CHR ''9'') \<or> r = CHR ''_''"

definition quoteIdentifier :: "string \<Rightarrow> go_error + string" where
  "quoteIdentifier name =
     (if name = '''' then Inl (ErrPanic ''empty sql identifier'')
      else if list_all identifier_char name then Inr ([CHR 0x22] @ name @ [CHR 0x22])
      else Inl (ErrPanic (''unsafe sql identifier '' @ name)))"

definition insert_app_user :: "app_user \<Rightarrow> db \<Rightarrow> go_error + db" where
  "insert_app_user a d =
     (if \<exists>x \<in> set (app_users d). auUser x = auUser a then Inr d
      else if \<exists>x \<in> set (app_users d). auPayments x = auPayments a \<or> auWebhooks x = auWebhooks a
      then Inl unique_violation
      else Inr (d\<lparr>app_users := app_users d @ [a]\<rparr>))"

definition create_table :: "string \<Rightarrow> (string \<rightharpoonup> 'a list) \<Rightarrow> (string \<rightharpoonup> 'a list)" where
  "create_table name m = (case m name of None \<Rightarrow> m(name \<mapsto> []) | Some _ \<Rightarrow> m)"

definition create_index :: "env \<Rightarrow> string \<Rightarrow> string \<Rightarrow> string \<Rightarrow> go_error + unit" where
  "create_index e msg idx tbl =
     bindE (quoteIdentifier idx) (\<lambda>_. bindE (quoteIdentifier tbl) (\<lambda>_.
       mapErr (wrapf msg) (call e msg)))"

definition ensureUserTablesTx :: "env \<Rightarrow> string \<Rightarrow> userTables \<Rightarrow> db \<Rightarrow> go_error + db" where
  "ensureUserTablesTx e userID tables d =
     bindE (mapErr (wrapf ''register user tables'')
       (bindE (call e ''register user tables'') (\<lambda>_.
          insert_app_user \<lparr>auUser = userID, auPayments = utPayments tables,
            auWebhooks = utWebhooks tables, auCreatedAt = env_now e\<rparr> d))) (\<lambda>d1.
     bindE (mapErr (wrapf ''load registered user tables'')
       (query_row e ''load registered user tables''
          (find (\<lambda>u. auUser u = userID) (app_users d1)))) (\<lambda>row.
     if auPayments row \<noteq> utPayments tables \<or> auWebhooks row \<noteq> utWebhooks tables
     then Inl (ErrNew (''user '' @ userID @ '' is registered with unexpected table names''))
     else
     bindE (quoteIdentifier (utPayments tables)) (\<lambda>_.
     bindE (mapErr (wrapf (''create payments table for '' @ userID))
       (call e ''create payments table'')) (\<lambda>_.
     let d2 = d1\<lparr>payments_tables := create_table (utPayments tables) (payments_tables d1)\<rparr> in
     bindE (create_index e ''create payments created_at index''
       (''idx_'' @ utSuffix tables @ ''_payments_created_at'') (utPayments tables)) (\<lambda>_.
     bindE (create_index e ''create payments status index''
       (''idx_'' @ utSuffix tables @ ''_payments_status_created_at'') (utPayments tables)) (\<lambda>_.
     bindE (quoteIdentifier (utWebhooks tables)) (\<lambda>_.
     bindE (mapErr (wrapf (''create webhook subscriptions table for '' @ userID))
       (call e ''create webhook subscriptions table'')) (\<lambda>_.
     let d3 = d2\<lparr>webhooks_tables := create_table (utWebhooks tables) (webhooks_tables d2)\<rparr> in
     bindE (create_index e ''create webhook created_at index''
       (''idx_'' @ utSuffix tables @ ''_webhooks_created_at'') (utWebhooks tables)) (\<lambda>_.
     Inr d3)))))))))"

definition ensureUserSchema ::
  "(string \<Rightarrow> string) \<Rightarrow> env \<Rightarrow> Store \<Rightarrow> string \<Rightarrow> (go_error + userTables) \<times> Store" where
  "ensureUserSchema sha e s user =
     (let userID = TrimSpace user in
      if userID = '''' then (Inl ErrUserIDRequired, s)
      else
        let tables = deriveUserTables sha userID in
        if userID \<in> ensuredUsers s then (Inr tables, s)
        else
          (case run_tx wrapf e ''begin ensure user schema tx'' ''commit ensure user schema tx''
                  (pool s)
                  (\<lambda>d. bindE (ensureUserTablesTx e userID tables d) (\<lambda>d'. Inr ((), Some d'))) of
             (Inl err, d) \<Rightarrow> (Inl err, s\<lparr>pool := d\<rparr>)
           | (Inr _, d) \<Rightarrow>
             (Inr tables, s\<lparr>pool := d, ensuredUsers := insert userID (ensuredUsers s)\<rparr>)))"

declare quoteIdentifier_def [op_defs] insert_app_user_def [op_defs] create_index_def [op_defs]
  ensureUserTablesTx_def [op_defs] ensureUserSchema_def [op_defs]

section \<open>Derived names\<close>

lemma derive_trim [simp]: "deriveUserTables sha (TrimSpace u) = deriveUserTables sha u"
  by (simp add: deriveUserTables_def)

lemma hex_encode_identifier: "list_all identifier_char (hex_encode bs)"
proof (induction bs)
  case Nil
  show ?case by (simp add: hex_encode_def)
next
  case (Cons b bs)
  have "of_char b div 16 < (16 :: nat)"
    by (rule less_mult_imp_div_less) (use nat_of_char_less_256 [of b] in linarith)
  then have "identifier_char (hex_digit (of_char b div 16))"
    and "identifier_char (hex_digit (of_char b mod 16))"
    using hex_digit_range [of "of_char b div 16"] hex_digit_range [of "of_char b mod 16"]
    by (auto simp: identifier_char_def)
  with Cons show ?case by (simp add: hex_encode_def)
qed

lemma suffix_identifier: "list_all identifier_char (utSuffix (deriveUserTables sha u))"
  using hex_encode_identifier [of "sha (TrimSpace u)"]
  by (auto simp: deriveUserTables_def Let_def list_all_iff dest: in_set_takeD)

lemma quote_derived:
  "\<exists>q. quoteIdentifier (utPayments (deriveUserTables sha u)) = Inr q"
  "\<exists>q. quoteIdentifier (utWebhooks (deriveUserTables sha u)) = Inr q"
  using suffix_identifier [of sha u]
  by (auto simp: quoteIdentifier_def deriveUserTables_def Let_def identifier_char_def
      less_eq_char_def)

lemma bind_quote_derived [simp]:
  "bindE (quoteIdentifier (utPayments (deriveUserTables sha u))) (\<lambda>_. k) = k"
  "bindE (quoteIdentifier (utWebhooks (deriveUserTables sha u))) (\<lambda>_. k) = k"
  using quote_derived [of sha u] by auto

section \<open>The tenant invariant\<close>

definition registered :: "db \<Rightarrow> string \<Rightarrow> bool" where
  "registered d user \<longleftrightarrow> user \<in> auUser ` set (app_users d)"

definition tenant_row_ok :: "(string \<Rightarrow> string) \<Rightarrow> db \<Rightarrow> app_user \<Rightarrow> bool" where
  "tenant_row_ok sha d a \<longleftrightarrow>
     TrimSpace (auUser a) = auUser a \<and> auUser a \<noteq> '''' \<and>
     auPayments a = utPayments (deriveUserTables sha (auUser a)) \<and>
     auWebhooks a = utWebhooks (deriveUserTables sha (auUser a)) \<and>
     payments_tables d (auPayments a) \<noteq> None \<and> webhooks_tables d (auWebhooks a) \<noteq> None"

definition tenant_inv :: "(string \<Rightarrow> string) \<Rightarrow> db \<Rightarrow> bool" where
  "tenant_inv sha d \<longleftrightarrow>
     distinct (map auUser (app_users d)) \<and> distinct (map auPayments (app_users d)) \<and>
     distinct (map auWebhooks (app_users d)) \<and> (\<forall>a \<in> set (app_users d). tenant_row_ok sha d a)"

definition store_inv :: "(string \<Rightarrow> string) \<Rightarrow> Store \<Rightarrow> bool" where
  "store_inv sha s \<longleftrightarrow> tenant_inv sha (pool s) \<and> (\<forall>u \<in> ensuredUsers s. registered (pool s) u)"

text \<open>How the schema grows: users are added, tables are created empty, nothing else changes.\<close>

definition schema_ext :: "db \<Rightarrow> db \<Rightarrow> bool" where
  "schema_ext d d' \<longleftrightarrow>
     (\<exists>us pt wt. d' = d\<lparr>app_users := app_users d @ us, payments_tables := pt, webhooks_tables := wt\<rparr> \<and>
        payments_tables d \<subseteq>\<^sub>m pt \<and> webhooks_tables d \<subseteq>\<^sub>m wt \<and>
        (\<forall>t. payments_tables d t = None \<longrightarrow> pt t = None \<or> pt t = Some []) \<and>
        (\<forall>t. webhooks_tables d t = None \<longrightarrow> wt t = None \<or> wt t = Some []))"

lemma schema_ext_refl [simp]: "schema_ext d d"
  unfolding schema_ext_def
  by (intro exI [of _ "[]"] exI [of _ "payments_tables d"] exI [of _ "webhooks_tables d"]) simp

lemma schema_ext_frame:
  "schema_ext d d' \<Longrightarrow> refunds d' = refunds d \<and> outbox_events d' = outbox_events d \<and>
     idempotency_keys d' = idempotency_keys d \<and> webhook_deliveries d' = webhook_deliveries d \<and>
     reconciliation_results d' = reconciliation_results d \<and>
     rate_limit_windows d' = rate_limit_windows d"
  by (auto simp: schema_ext_def)

lemma schema_ext_tables:
  assumes "schema_ext d d'"
  shows "payments_tables d t = Some rows \<Longrightarrow> payments_tables d' t = Some rows"
    and "payments_tables d t = None \<Longrightarrow> payments_tables d' t = None \<or> payments_tables d' t = Some []"
  using assms by (fastforce simp: schema_ext_def map_le_def dom_def)+

lemma schema_ext_registered: "schema_ext d d' \<Longrightarrow> registered d u \<Longrightarrow> registered d' u"
  by (auto simp: schema_ext_def registered_def)

lemma create_table_props:
  "m \<subseteq>\<^sub>m create_table t m" "create_table t m t \<noteq> None"
  "m x = None \<Longrightarrow> create_table t m x = None \<or> create_table t m x = Some []"
  "m x \<noteq> None \<Longrightarrow> create_table t m x \<noteq> None"
  by (auto simp: create_table_def map_le_def split: option.splits)

lemma create_table_keep: "m x = Some y \<Longrightarrow> create_table t m x = Some y"
  by (auto simp: create_table_def split: option.splits)

lemma insert_app_user_cases:
  assumes "insert_app_user a d = Inr d'"
  obtains (old) "d' = d" "auUser a \<in> auUser ` set (app_users d)"
    | (new) "d' = d\<lparr>app_users := app_users d @ [a]\<rparr>" "auUser a \<notin> auUser ` set (app_users d)"
        "auPayments a \<notin> auPayments ` set (app_users d)"
        "auWebhooks a \<notin> auWebhooks ` set (app_users d)"
proof (cases "auUser a \<in> auUser ` set (app_users d)")
  case True
  with assms show thesis by (intro old) (auto simp: insert_app_user_def split: if_splits)
next
  case False
  with assms show thesis by (intro new) (auto simp: insert_app_user_def image_iff split: if_splits)
qed

lemma ensureUserTablesTx_Inr:
  assumes run: "ensureUserTablesTx e u (deriveUserTables sha u) d = Inr d'"
    and inv: "tenant_inv sha d" and u: "TrimSpace u = u" "u \<noteq> ''''"
  shows "tenant_inv sha d'" and "schema_ext d d'" and "registered d' u"
proof -
  let ?t = "deriveUserTables sha u"
  let ?a = "\<lparr>auUser = u, auPayments = utPayments ?t, auWebhooks = utWebhooks ?t, auCreatedAt = env_now e\<rparr>"
  from run obtain d1 row where ins: "insert_app_user ?a d = Inr d1"
    and row: "find (\<lambda>x. auUser x = u) (app_users d1) = Some row"
    and eq: "auPayments row = utPayments ?t" "auWebhooks row = utWebhooks ?t"
    and d': "d' = d1\<lparr>payments_tables := create_table (utPayments ?t) (payments_tables d1),
                    webhooks_tables := create_table (utWebhooks ?t) (webhooks_tables d1)\<rparr>"
    by (auto simp: ensureUserTablesTx_def bindE_Inr query_row_Inr Let_def split: if_splits)
  have d1: "payments_tables d1 = payments_tables d" "webhooks_tables d1 = webhooks_tables d"
    using ins by (auto elim: insert_app_user_cases)
  from row have "row \<in> set (app_users d1)" "auUser row = u" by (auto dest: find_Some_set)
  then show "registered d' u" by (auto simp: registered_def d')
  have grow: "tenant_row_ok sha d a \<Longrightarrow> tenant_row_ok sha d' a" for a
    by (auto simp: tenant_row_ok_def d' d1 create_table_keep)
  have new: "tenant_row_ok sha d' ?a"
    using u by (auto simp: tenant_row_ok_def d' d1 create_table_props)
  show "tenant_inv sha d'"
    using ins
  proof (cases rule: insert_app_user_cases)
    case old
    with inv grow show ?thesis by (auto simp: tenant_inv_def d')
  next
    case new': new
    with inv grow new show ?thesis by (auto simp: tenant_inv_def d' image_iff)
  qed
  show "schema_ext d d'"
    using ins
  proof (cases rule: insert_app_user_cases)
    case old
    then show ?thesis
      unfolding schema_ext_def d'
      by (intro exI [of _ "[]"] exI [of _ "create_table (utPayments ?t) (payments_tables d)"]
          exI [of _ "create_table (utWebhooks ?t) (webhooks_tables d)"]) (simp add: create_table_props)
  next
    case new
    then show ?thesis
      unfolding schema_ext_def d'
      by (intro exI [of _ "[?a]"] exI [of _ "create_table (utPayments ?t) (payments_tables d)"]
          exI [of _ "create_table (utWebhooks ?t) (webhooks_tables d)"]) (simp add: create_table_props)
  qed
qed

lemma ensureUserSchema_effect:
  assumes run: "ensureUserSchema sha e s user = (res, s')" and inv: "store_inv sha s"
  shows "store_inv sha s'" and "schema_ext (pool s) (pool s')"
    and "res = Inr t \<Longrightarrow> t = deriveUserTables sha user \<and> TrimSpace user \<noteq> '''' \<and>
           registered (pool s') (TrimSpace user)"
proof -
  let ?u = "TrimSpace user"
  let ?body = "\<lambda>d. bindE (ensureUserTablesTx e ?u (deriveUserTables sha ?u) d) (\<lambda>d'. Inr ((), Some d'))"
  let ?tx = "run_tx wrapf e ''begin ensure user schema tx'' ''commit ensure user schema tx'' (pool s) ?body"
  consider (empty) "?u = ''''" | (cached) "?u \<noteq> ''''" "?u \<in> ensuredUsers s"
    | (tx) "?u \<noteq> ''''" "?u \<notin> ensuredUsers s" by blast
  then have "store_inv sha s' \<and> schema_ext (pool s) (pool s') \<and>
    (res = Inr t \<longrightarrow> t = deriveUserTables sha user \<and> ?u \<noteq> '''' \<and> registered (pool s') ?u)"
  proof cases
    case empty
    with run inv show ?thesis by (auto simp: ensureUserSchema_def)
  next
    case cached
    with run inv show ?thesis by (auto simp: ensureUserSchema_def store_inv_def)
  next
    case tx
    obtain r d where rd: "?tx = (r, d)" by fastforce
    have keep: "tenant_inv sha d \<and> schema_ext (pool s) d \<and> (\<forall>x. r = Inr x \<longrightarrow> registered d ?u)"
    proof -
      have ok: "ensureUserTablesTx e ?u (deriveUserTables sha ?u) (pool s) = Inr d \<Longrightarrow> ?thesis"
        using ensureUserTablesTx_Inr [of e ?u sha "pool s" d] inv tx by (simp add: store_inv_def)
      have "d = pool s \<or> (\<exists>x. ?body (pool s) = Inr (x, Some d))"
        using rd by (rule run_tx_atomic)
      then show ?thesis
      proof
        assume same: "d = pool s"
        have "ensureUserTablesTx e ?u (deriveUserTables sha ?u) (pool s) = Inr d" if "r = Inr x" for x
          using rd that same by (auto simp: run_tx_Inr bindE_Inr)
        with ok same inv show ?thesis by (auto simp: store_inv_def)
      next
        assume "\<exists>x. ?body (pool s) = Inr (x, Some d)"
        then show ?thesis using ok by (auto simp: bindE_Inr)
      qed
    qed
    with run rd tx inv schema_ext_registered [of "pool s" d] show ?thesis
      by (auto simp: ensureUserSchema_def Let_def store_inv_def split: sum.splits)
  qed
  then show "store_inv sha s'" and "schema_ext (pool s) (pool s')"
    and "res = Inr t \<Longrightarrow> t = deriveUserTables sha user \<and> ?u \<noteq> '''' \<and> registered (pool s') ?u"
    by blast+
qed

text \<open>Different registered users own different tables.\<close>

lemma tenant_tables_differ:
  assumes "tenant_inv sha d" and "registered d u" and "registered d v" and "u \<noteq> v"
  shows "utPayments (deriveUserTables sha u) \<noteq> utPayments (deriveUserTables sha v)"
    and "utWebhooks (deriveUserTables sha u) \<noteq> utWebhooks (deriveUserTables sha v)"
proof -
  obtain a b where ab: "a \<in> set (app_users d)" "b \<in> set (app_users d)" "auUser a = u" "auUser b = v"
    using assms(2,3) by (auto simp: registered_def)
  have "auPayments a = auPayments b \<Longrightarrow> a = b" and "auWebhooks a = auWebhooks b \<Longrightarrow> a = b"
    using assms(1) ab distinct_key_eq by (fastforce simp: tenant_inv_def)+
  then show "utPayments (deriveUserTables sha u) \<noteq> utPayments (deriveUserTables sha v)"
    and "utWebhooks (deriveUserTables sha u) \<noteq> utWebhooks (deriveUserTables sha v)"
    using assms(1,4) ab by (auto simp: tenant_inv_def tenant_row_ok_def)
qed

end
