(* ===== verification/RefundPorts.thy ===== *)
theory RefundPorts
  imports Database
begin

text \<open>
  The types the refund package shares with the store that implements its repository interfaces:
  claim kinds and outcomes of \<open>internal/refunds/repository.go\<close>, the list filter and the identifier
  generator of \<open>internal/refunds/service.go\<close>.
\<close>

type_synonym claim_kind = string

definition ClaimSubmit :: claim_kind where "ClaimSubmit = ''submit''"
definition ClaimReconcile :: claim_kind where "ClaimReconcile = ''reconcile''"

lemma claim_kind_neq [simp]: "ClaimSubmit \<noteq> ClaimReconcile" "ClaimReconcile \<noteq> ClaimSubmit"
  by (simp_all add: ClaimSubmit_def ClaimReconcile_def)

record Outcome =
  oStatus :: refund_status
  oRetryable :: bool
  oManualReview :: bool
  oLastError :: string
  oCheckFailures :: int
  oNextActionAt :: go_time
  oReconciliation :: "ReconciliationResult option"

record ListFilter =
  lfPaymentID :: string
  lfStatus :: refund_status
  lfManualReview :: bool
  lfLimit :: int
  lfOffset :: int

text \<open>\<open>rand.Read\<close> delivers 16 random bytes or an error: \<open>env_rand\<close>.\<close>

definition NewID :: "env \<Rightarrow> string \<Rightarrow> go_error + string" where
  "NewID e prefix =
     (case env_rand e of Inl err \<Rightarrow> Inl err | Inr buf \<Rightarrow> Inr (prefix @ ''_'' @ hex_encode buf))"

lemma NewID_calm [simp]: "NewID (calm now seq rnd) prefix = Inr (prefix @ ''_'' @ hex_encode rnd)"
  by (simp add: NewID_def)

lemma NewID_nonempty: "NewID e prefix = Inr i \<Longrightarrow> i \<noteq> ''''"
  by (auto simp: NewID_def split: sum.splits)

end
