(* ===== verification/RefundStore.thy ===== *)
theory RefundStore
  imports TenantStore RefundPorts
begin

text \<open>
  \<open>internal/storage/refunds.go\<close>: creating a refund against the unreserved part of a payment,
  reading and listing, claiming a refund under a lease, applying an outcome under that lease, and
  the operator's recheck. Each operation is the whole Go function: every driver call can fail, every
  early return is a branch, and what is not committed is rolled back.
\<close>

definition scanRefund :: "go_error + 'a \<Rightarrow> go_error + 'a" where
  "scanRefund row = mapErr (\<lambda>err. if errors_is err ErrNoRows then ErrRefundNotFound else err) row"

section \<open>Creating\<close>

definition refund_lock_key :: "string \<Rightarrow> string \<Rightarrow> string" where
  "refund_lock_key user key = ''refund:'' @ dec (int (length user)) @ '':'' @ user @ '':'' @ key"

text \<open>A refund holds part of its payment unless it has failed for good.\<close>

definition reserves :: "Refund \<Rightarrow> bool" where
  "reserves r \<longleftrightarrow> rStatus r \<noteq> RefundFailed \<or> rRetryable r"

definition reserved_sum :: "db \<Rightarrow> string \<Rightarrow> string \<Rightarrow> int" where
  "reserved_sum d user payment =
     sum_list (map rAmount
       (filter (\<lambda>r. rUserID r = user \<and> rPaymentID r = payment \<and> reserves r) (refunds d)))"

definition new_refund_row :: "Refund \<Rightarrow> Refund" where
  "new_refund_row r =
     \<lparr>rID = rID r, rUserID = rUserID r, rPaymentID = rPaymentID r, rAmount = rAmount r,
      rCurrency = rCurrency r, rStatus = RefundPending, rIdempotencyKey = rIdempotencyKey r,
      rRequestHash = rRequestHash r, rAttempts = 0, rCheckFailures = 0, rRetryable = False,
      rManualReview = False, rLastError = '''', rNextActionAt = rCreatedAt r,
      rProcessingStartedAt = None, rLeaseToken = '''', rLeaseUntil = None, rVersion = 1,
      rCreatedAt = rCreatedAt r, rUpdatedAt = rCreatedAt r\<rparr>"

definition select_payment :: "env \<Rightarrow> string \<Rightarrow> db \<Rightarrow> string \<Rightarrow> string \<Rightarrow> go_error + Payment" where
  "select_payment e l d tbl i =
     (case payments_tables d tbl of
        None \<Rightarrow> bindE (call e l) (\<lambda>_. Inl undefined_table)
      | Some rows \<Rightarrow> query_row e l (find (\<lambda>p. pID p = i) rows))"

definition create_refund_new :: "env \<Rightarrow> string \<Rightarrow> Refund \<Rightarrow> db \<Rightarrow> go_error + (Refund \<times> bool) \<times> db option" where
  "create_refund_new e tbl r d =
     bindE (quoteIdentifier tbl) (\<lambda>_.
     bindE (mapErr (\<lambda>err. if errors_is err ErrNoRows then ErrPaymentNotFound else err)
       (select_payment e ''select payment for update'' d tbl (rPaymentID r))) (\<lambda>p.
     if pStatus p \<noteq> PaymentSucceeded then Inl ErrInvalidPaymentState
     else
       let reserved = reserved_sum d (rUserID r) (rPaymentID r) in
       bindE (call e ''sum reserved refunds'') (\<lambda>_.
       if \<not> int64 reserved then Inl (ErrExternal ''reserved amount is greater than maximum value for int8'')
       else if rAmount r \<le> 0 \<or> rAmount r > wrap64 (pAmount p - reserved)
       then Inl ErrRefundAmountExceeded
       else
         bindE (scanRefund (bindE (call e ''insert refund'') (\<lambda>_.
             insert_refund (new_refund_row (r\<lparr>rCurrency := pCurrency p\<rparr>)) d))) (\<lambda>(created, d').
         Inr ((created, True), Some d')))))"

definition create_refund_tx :: "env \<Rightarrow> string \<Rightarrow> Refund \<Rightarrow> db \<Rightarrow> go_error + (Refund \<times> bool) \<times> db option" where
  "create_refund_tx e tbl r d =
     bindE (call e ''pg_advisory_xact_lock'') (\<lambda>_.
     (case scanRefund (query_row e ''select refund by idempotency key''
             (find (\<lambda>x. rUserID x = rUserID r \<and> rIdempotencyKey x = rIdempotencyKey r) (refunds d))) of
        Inr existing \<Rightarrow>
          if rRequestHash existing \<noteq> rRequestHash r then Inl ErrIdempotencyConflict
          else Inr ((existing, False), None)
      | Inl err \<Rightarrow>
          if \<not> errors_is err ErrRefundNotFound then Inl err
          else create_refund_new e tbl r d))"

definition CreateRefund ::
  "(string \<Rightarrow> string) \<Rightarrow> env \<Rightarrow> Store \<Rightarrow> Refund \<Rightarrow> (go_error + Refund \<times> bool) \<times> Store" where
  "CreateRefund sha e s r =
     (case ensureUserSchema sha e s (rUserID r) of
        (Inl err, s1) \<Rightarrow> (Inl err, s1)
      | (Inr tables, s1) \<Rightarrow>
        (case run_tx nowrap e ''begin create refund'' ''commit create refund'' (pool s1)
                (create_refund_tx e (utPayments tables) r) of
           (res, d) \<Rightarrow> (res, s1\<lparr>pool := d\<rparr>)))"

section \<open>Reading\<close>

definition GetRefund :: "env \<Rightarrow> db \<Rightarrow> string \<Rightarrow> string \<Rightarrow> go_error + Refund" where
  "GetRefund e d user i =
     scanRefund (query_row e ''get refund''
       (find (\<lambda>r. rUserID r = user \<and> rID r = i) (refunds d)))"

definition refund_matches :: "string \<Rightarrow> ListFilter \<Rightarrow> Refund \<Rightarrow> bool" where
  "refund_matches user f r \<longleftrightarrow>
     rUserID r = user \<and> (lfPaymentID f = '''' \<or> rPaymentID r = lfPaymentID f) \<and>
     (lfStatus f = '''' \<or> rStatus r = lfStatus f) \<and> (\<not> lfManualReview f \<or> rManualReview r)"

definition ListRefunds :: "env \<Rightarrow> db \<Rightarrow> string \<Rightarrow> ListFilter \<Rightarrow> go_error + Refund list" where
  "ListRefunds e d user f =
     bindE (call e ''list refunds'') (\<lambda>_.
     if lfLimit f < 0 \<or> lfOffset f < 0 then Inl (ErrExternal ''LIMIT and OFFSET must not be negative'')
     else
       bindE (call e ''iterate refunds'') (\<lambda>_.
       Inr (take (nat (lfLimit f)) (drop (nat (lfOffset f))
         (sort_key (\<lambda>r. (- rCreatedAt r, rID r)) (filter (refund_matches user f) (refunds d)))))))"

definition ListReconciliations ::
  "env \<Rightarrow> db \<Rightarrow> string \<Rightarrow> string \<Rightarrow> int \<Rightarrow> int \<Rightarrow> go_error + ReconciliationResult list" where
  "ListReconciliations e d user i limit offset =
     bindE (GetRefund e d user i) (\<lambda>_.
     bindE (call e ''list reconciliations'') (\<lambda>_.
     if limit < 0 \<or> offset < 0 then Inl (ErrExternal ''LIMIT and OFFSET must not be negative'')
     else
       bindE (call e ''iterate reconciliations'') (\<lambda>_.
       Inr (take (nat limit) (drop (nat offset)
         (sort_key (\<lambda>x. (- recCheckedAt x, recID x))
           (filter (\<lambda>x. recOperationID x = i) (reconciliation_results d))))))))"

section \<open>Recheck\<close>

definition lease_live :: "Refund \<Rightarrow> go_time \<Rightarrow> bool" where
  "lease_live r now \<longleftrightarrow> (case rLeaseUntil r of None \<Rightarrow> False | Some t \<Rightarrow> now < t)"

definition recheck_set :: "go_time \<Rightarrow> Refund \<Rightarrow> Refund" where
  "recheck_set now r =
     r\<lparr>rManualReview := False, rCheckFailures := 0, rNextActionAt := now, rUpdatedAt := now,
       rLastError := ''''\<rparr>"

definition recheck_tx :: "env \<Rightarrow> string \<Rightarrow> string \<Rightarrow> go_time \<Rightarrow> db \<Rightarrow> go_error + Refund \<times> db option" where
  "recheck_tx e user i now d =
     bindE (scanRefund (query_row e ''select refund for update''
       (find (\<lambda>r. rUserID r = user \<and> rID r = i) (refunds d)))) (\<lambda>r.
     if rStatus r \<noteq> RefundProcessing \<or> \<not> rManualReview r \<or> lease_live r now
     then Inl ErrInvalidRefundState
     else
       bindE (scanRefund (bindE (call e ''update refund'') (\<lambda>_.
           update_refund (recheck_set now) r d))) (\<lambda>(new, d'). Inr (new, Some d')))"

definition RequestRefundRecheck ::
  "env \<Rightarrow> db \<Rightarrow> string \<Rightarrow> string \<Rightarrow> go_time \<Rightarrow> (go_error + Refund) \<times> db" where
  "RequestRefundRecheck e d user i now =
     run_tx nowrap e ''begin recheck'' ''commit recheck'' d (recheck_tx e user i now)"

section \<open>Claiming\<close>

definition claim_condition :: "claim_kind \<Rightarrow> int \<Rightarrow> Refund \<Rightarrow> bool" where
  "claim_condition kind maxAttempts r \<longleftrightarrow>
     (if kind = ClaimSubmit
      then (rStatus r = RefundPending \<or> (rStatus r = RefundFailed \<and> rRetryable r)) \<and>
           rAttempts r < maxAttempts
      else rStatus r = RefundProcessing \<and> \<not> rManualReview r)"

definition claim_due :: "go_time \<Rightarrow> Refund \<Rightarrow> bool" where
  "claim_due now r \<longleftrightarrow>
     rNextActionAt r \<le> now \<and> (case rLeaseUntil r of None \<Rightarrow> True | Some t \<Rightarrow> t \<le> now)"

definition claim_pick :: "env \<Rightarrow> claim_kind \<Rightarrow> go_time \<Rightarrow> int \<Rightarrow> db \<Rightarrow> Refund option" where
  "claim_pick e kind now maxAttempts d =
     (case sort_key (\<lambda>r. (rNextActionAt r, rCreatedAt r, rID r))
             (filter (\<lambda>r. claim_condition kind maxAttempts r \<and> claim_due now r \<and>
                          \<not> env_locked e (rID r)) (refunds d)) of
        [] \<Rightarrow> None
      | r # _ \<Rightarrow> Some r)"

definition claim_submit_set :: "go_time \<Rightarrow> string \<Rightarrow> go_time \<Rightarrow> Refund \<Rightarrow> Refund" where
  "claim_submit_set now token until r =
     r\<lparr>rStatus := RefundProcessing, rRetryable := False, rAttempts := rAttempts r + 1,
       rCheckFailures := 0, rProcessingStartedAt := Some now, rLeaseToken := token,
       rLeaseUntil := Some until, rNextActionAt := now, rUpdatedAt := now\<rparr>"

definition claim_reconcile_set :: "go_time \<Rightarrow> string \<Rightarrow> go_time \<Rightarrow> Refund \<Rightarrow> Refund" where
  "claim_reconcile_set now token until r =
     r\<lparr>rLeaseToken := token, rLeaseUntil := Some until, rUpdatedAt := now\<rparr>"

definition claim_tx ::
  "env \<Rightarrow> claim_kind \<Rightarrow> go_time \<Rightarrow> duration \<Rightarrow> int \<Rightarrow> db \<Rightarrow> go_error + Refund option \<times> db option" where
  "claim_tx e kind now lease maxAttempts d =
     (case scanRefund (query_row e ''select refund skip locked'' (claim_pick e kind now maxAttempts d)) of
        Inl err \<Rightarrow> if errors_is err ErrRefundNotFound then Inr (None, None) else Inl err
      | Inr r \<Rightarrow>
        bindE (NewID e ''lease'') (\<lambda>token.
        if kind = ClaimSubmit then
          (case ValidateRefundTransition (rStatus r) RefundProcessing of
             Some err \<Rightarrow> Inl err
           | None \<Rightarrow>
             bindE (scanRefund (bindE (call e ''update refund'') (\<lambda>_.
                 update_refund (claim_submit_set now token (time_add now lease)) r d)))
               (\<lambda>(new, d'). Inr (Some new, Some d')))
        else
          bindE (scanRefund (bindE (call e ''update refund'') (\<lambda>_.
              update_refund (claim_reconcile_set now token (time_add now lease)) r d)))
            (\<lambda>(new, d'). Inr (Some new, Some d'))))"

definition ClaimRefund ::
  "env \<Rightarrow> db \<Rightarrow> claim_kind \<Rightarrow> go_time \<Rightarrow> duration \<Rightarrow> int \<Rightarrow> (go_error + Refund option) \<times> db" where
  "ClaimRefund e d kind now lease maxAttempts =
     (if kind \<noteq> ClaimSubmit \<and> kind \<noteq> ClaimReconcile then (Inl (ErrNew ''unknown claim kind''), d)
      else run_tx nowrap e ''begin claim'' ''commit claim'' d (claim_tx e kind now lease maxAttempts))"

section \<open>Applying an outcome\<close>

definition outcome_set :: "Outcome \<Rightarrow> go_time \<Rightarrow> Refund \<Rightarrow> Refund" where
  "outcome_set out now r =
     r\<lparr>rStatus := oStatus out, rRetryable := oRetryable out, rManualReview := oManualReview out,
       rLastError := oLastError out, rCheckFailures := oCheckFailures out,
       rNextActionAt := oNextActionAt out, rLeaseToken := '''', rLeaseUntil := None,
       rUpdatedAt := now\<rparr>"

definition insert_reconciliation :: "ReconciliationResult \<Rightarrow> db \<Rightarrow> go_error + db" where
  "insert_reconciliation x d =
     (if \<exists>y \<in> set (reconciliation_results d). recID y = recID x then Inl unique_violation
      else if \<not> (\<exists>r \<in> set (refunds d). rID r = recOperationID x) then Inl foreign_key_violation
      else Inr (d\<lparr>reconciliation_results := reconciliation_results d @ [x]\<rparr>))"

definition lease_valid :: "Refund \<Rightarrow> Refund \<Rightarrow> go_time \<Rightarrow> bool" where
  "lease_valid current claimed now \<longleftrightarrow>
     rLeaseToken current \<noteq> '''' \<and> rLeaseToken current = rLeaseToken claimed \<and>
     rVersion current = rVersion claimed \<and> lease_live current now"

definition apply_outcome_tx ::
  "env \<Rightarrow> Refund \<Rightarrow> Outcome \<Rightarrow> go_time \<Rightarrow> db \<Rightarrow> go_error + unit \<times> db option" where
  "apply_outcome_tx e claimed out now d =
     bindE (scanRefund (query_row e ''select refund for update''
       (find (\<lambda>r. rID r = rID claimed) (refunds d)))) (\<lambda>current.
     if \<not> lease_valid current claimed now then Inl ErrLeaseLost
     else if rStatus current \<noteq> RefundProcessing then Inl ErrInvalidRefundState
     else
       (case (if oStatus out \<noteq> rStatus current
              then ValidateRefundTransition (rStatus current) (oStatus out) else None) of
          Some err \<Rightarrow> Inl err
        | None \<Rightarrow>
          bindE (call e ''update refund'') (\<lambda>_.
          bindE (update_refund (outcome_set out now) current d) (\<lambda>(new, d1).
          (case oReconciliation out of
             None \<Rightarrow> Inr ((), Some d1)
           | Some res \<Rightarrow>
             bindE (NewID e ''rec'') (\<lambda>i.
             bindE (call e ''insert reconciliation'') (\<lambda>_.
             bindE (insert_reconciliation
               \<lparr>recID = i, recOperationID = rID claimed, recLocalStatus = rStatus current,
                recExternalStatus = recExternalStatus res, recResult = recResult res,
                recDetail = recDetail res, recCheckedAt = now\<rparr> d1) (\<lambda>d2.
             Inr ((), Some d2)))))))))"

definition ApplyRefundOutcome ::
  "env \<Rightarrow> db \<Rightarrow> Refund \<Rightarrow> Outcome \<Rightarrow> go_time \<Rightarrow> (go_error + unit) \<times> db" where
  "ApplyRefundOutcome e d claimed out now =
     run_tx nowrap e ''begin outcome'' ''commit outcome'' d (apply_outcome_tx e claimed out now)"

section \<open>What an update of a refund does\<close>

text \<open>The event kind the trigger chooses, if any.\<close>

definition refund_event_kind :: "Refund option \<Rightarrow> Refund \<Rightarrow> string option" where
  "refund_event_kind old new =
     (case old of
        None \<Rightarrow> Some ''refund.created''
      | Some prev \<Rightarrow>
        if rStatus prev \<noteq> rStatus new then Some (''refund.'' @ lower_status (rStatus new))
        else if rManualReview prev \<noteq> rManualReview new
        then Some (if rManualReview new then ''refund.manual_review'' else ''refund.recheck_requested'')
        else None)"

definition refund_events :: "Refund option \<Rightarrow> Refund \<Rightarrow> OutboxEvent list" where
  "refund_events old new =
     (case refund_event_kind old new of None \<Rightarrow> [] | Some k \<Rightarrow> [refund_event k new])"

lemma emit_refund_outbox_Inr:
  "emit_refund_outbox old new d = Inr d' \<Longrightarrow>
     d' = d\<lparr>outbox_events := outbox_events d @ refund_events old new\<rparr>"
  by (auto simp: emit_refund_outbox_def insert_outbox_row_def refund_events_def
      refund_event_kind_def split: option.splits if_splits)

lemma guard_refund_update_Inr:
  "guard_refund_update old new' = Inr new \<Longrightarrow> new = new'\<lparr>rVersion := rVersion old + 1\<rparr>"
  by (auto simp: guard_refund_update_def split: if_splits)

text \<open>The database after one refund row changed from \<open>old\<close> to \<open>new\<close>.\<close>

definition put_refund :: "Refund \<Rightarrow> Refund \<Rightarrow> db \<Rightarrow> db" where
  "put_refund old new d =
     d\<lparr>refunds := update_where (\<lambda>x. rID x = rID old) (\<lambda>_. new) (refunds d),
       outbox_events := outbox_events d @ refund_events (Some old) new\<rparr>"

lemma update_refund_Inr:
  assumes "update_refund f old d = Inr (new, d')"
  shows "new = (f old)\<lparr>rVersion := rVersion old + 1\<rparr>" and "refund_checks new"
    and "guard_refund_update old (f old) = Inr new" and "d' = put_refund old new d"
  using assms
  by (auto simp: update_refund_def bindE_Inr put_refund_def split: if_splits
      dest!: guard_refund_update_Inr emit_refund_outbox_Inr)

lemma insert_refund_Inr:
  assumes "insert_refund r d = Inr (new, d')"
  shows "new = r\<lparr>rVersion := 1\<rparr>" and "rStatus r = RefundPending" and "refund_checks new"
    and "\<forall>x \<in> set (refunds d). rID x \<noteq> rID new"
    and "\<forall>x \<in> set (refunds d). rUserID x = rUserID new \<longrightarrow> rIdempotencyKey x \<noteq> rIdempotencyKey new"
    and "\<exists>u \<in> set (app_users d). auUser u = rUserID new"
    and "d' = d\<lparr>refunds := refunds d @ [new],
                outbox_events := outbox_events d @ refund_events None new\<rparr>"
  using assms
  by (auto simp: insert_refund_def guard_refund_insert_def bindE_Inr split: if_splits
      dest!: emit_refund_outbox_Inr)

lemma scanRefund_Inr [simp]: "scanRefund m = Inr x \<longleftrightarrow> m = Inr x"
  by (simp add: scanRefund_def)

section \<open>The row machine\<close>

text \<open>
  Every change the store makes to an existing row, as a relation between the row before and after:
  the \<open>SET\<close> clause with its guard, and the version the trigger counts up. \<open>M\<close> bounds the attempt
  limit the callers pass.
\<close>

definition bump :: "Refund \<Rightarrow> Refund \<Rightarrow> Refund" where
  "bump old new = new\<lparr>rVersion := rVersion old + 1\<rparr>"

inductive refund_row_step :: "int \<Rightarrow> Refund \<Rightarrow> Refund \<Rightarrow> bool" for M where
  submit: "\<lbrakk>claim_condition ClaimSubmit m r; m \<le> M; claim_due now r; token \<noteq> '''';
            new = bump r (claim_submit_set now token until r); refund_checks new\<rbrakk>
           \<Longrightarrow> refund_row_step M r new"
| reconcile: "\<lbrakk>claim_condition ClaimReconcile m r; claim_due now r; token \<noteq> '''';
            new = bump r (claim_reconcile_set now token until r); refund_checks new\<rbrakk>
           \<Longrightarrow> refund_row_step M r new"
| outcome: "\<lbrakk>lease_valid r claimed now; rStatus r = RefundProcessing;
             oStatus out \<in> {RefundProcessing, RefundSucceeded, RefundFailed};
             new = bump r (outcome_set out now r); refund_checks new\<rbrakk>
           \<Longrightarrow> refund_row_step M r new"
| recheck: "\<lbrakk>rStatus r = RefundProcessing; rManualReview r; \<not> lease_live r now;
             new = bump r (recheck_set now r); refund_checks new\<rbrakk>
           \<Longrightarrow> refund_row_step M r new"

inductive_cases refund_row_stepE: "refund_row_step M r new"

lemma update_refund_bump:
  "update_refund f old d = Inr (new, d') \<Longrightarrow> new = bump old (f old) \<and> refund_checks new \<and> d' = put_refund old new d"
  using update_refund_Inr by (auto simp: bump_def)

lemma claim_pick_Some:
  assumes "claim_pick e kind now m d = Some r"
  shows "r \<in> set (refunds d)" and "claim_condition kind m r" and "claim_due now r"
    and "\<not> env_locked e (rID r)"
proof -
  let ?p = "\<lambda>r. claim_condition kind m r \<and> claim_due now r \<and> \<not> env_locked e (rID r)"
  have "r \<in> set (filter ?p (refunds d))"
    using assms unfolding claim_pick_def
    by (auto split: list.splits dest!: sort_key_head simp del: set_filter)
  then show "r \<in> set (refunds d)" and "claim_condition kind m r" and "claim_due now r"
    and "\<not> env_locked e (rID r)" by simp_all
qed

lemma claim_tx_effect:
  assumes "claim_tx e kind now lease m d = Inr (res, Some d')" and "m \<le> M"
    and "kind = ClaimSubmit \<or> kind = ClaimReconcile"
  obtains old new where "old \<in> set (refunds d)" "refund_row_step M old new"
    "d' = put_refund old new d" "res = Some new"
    "claim_pick e kind now m d = Some old"
    "rLeaseToken new \<noteq> ''''" "rLeaseUntil new = Some (time_add now lease)" "rStatus new = RefundProcessing"
proof -
  from assms(1) obtain old token where pick: "claim_pick e kind now m d = Some old"
    and tok: "NewID e ''lease'' = Inr token"
    by (auto simp: claim_tx_def bindE_Inr query_row_Inr split: sum.splits if_splits)
  note p = claim_pick_Some [OF pick] and t = NewID_nonempty [OF tok]
  show thesis
  proof (cases "kind = ClaimSubmit")
    case True
    with assms(1) pick tok obtain new where
      "update_refund (claim_submit_set now token (time_add now lease)) old d = Inr (new, d')" "res = Some new"
      by (auto simp: claim_tx_def bindE_Inr query_row_Inr split: sum.splits if_splits option.splits)
    moreover from this(1) have "new = bump old (claim_submit_set now token (time_add now lease) old)"
      "refund_checks new" "d' = put_refund old new d"
      using update_refund_bump by blast+
    ultimately show thesis
      using p t True assms(2) pick
      by (intro that [of old new] refund_row_step.submit [of m old M now token new "time_add now lease"])
        (auto simp: bump_def claim_submit_set_def)
  next
    case False
    with assms(1) pick tok obtain new where
      "update_refund (claim_reconcile_set now token (time_add now lease)) old d = Inr (new, d')" "res = Some new"
      by (auto simp: claim_tx_def bindE_Inr query_row_Inr split: sum.splits if_splits option.splits)
    moreover from this(1) have "new = bump old (claim_reconcile_set now token (time_add now lease) old)"
      "refund_checks new" "d' = put_refund old new d"
      using update_refund_bump by blast+
    ultimately show thesis
      using p t False assms(2,3) pick
      by (intro that [of old new] refund_row_step.reconcile [of m old now token new "time_add now lease"])
        (auto simp: bump_def claim_reconcile_set_def claim_condition_def)
  qed
qed

lemma lease_valid_status: "lease_valid r c now \<Longrightarrow> rLeaseToken r \<noteq> ''''"
  by (auto simp: lease_valid_def)

lemma apply_outcome_tx_effect:
  assumes "apply_outcome_tx e claimed out now d = Inr (u, Some d')"
  obtains old new recs where "find (\<lambda>r. rID r = rID claimed) (refunds d) = Some old"
    "refund_row_step M old new" "lease_valid old claimed now" "new = bump old (outcome_set out now old)"
    "d' = (put_refund old new d)\<lparr>reconciliation_results := reconciliation_results d @ recs\<rparr>"
    "length recs = (case oReconciliation out of None \<Rightarrow> 0 | Some _ \<Rightarrow> 1)"
proof -
  from assms obtain old new d1 where
      f: "find (\<lambda>r. rID r = rID claimed) (refunds d) = Some old"
    and l: "lease_valid old claimed now" "rStatus old = RefundProcessing"
    and v: "(if oStatus out \<noteq> rStatus old then ValidateRefundTransition (rStatus old) (oStatus out) else None) = None"
    and u: "update_refund (outcome_set out now) old d = Inr (new, d1)"
    by (auto simp: apply_outcome_tx_def bindE_Inr query_row_Inr split: if_splits option.splits)
  from u have n: "new = bump old (outcome_set out now old)" "refund_checks new" "d1 = put_refund old new d"
    using update_refund_bump by blast+
  from v l have "oStatus out \<in> {RefundProcessing, RefundSucceeded, RefundFailed}"
    by (auto simp: ValidateRefundTransition_None split: if_splits)
  with l n have step: "refund_row_step M old new"
    by (intro refund_row_step.outcome [of old claimed now out]) auto
  from assms f l v u n(3) obtain recs where
    "d' = (put_refund old new d)\<lparr>reconciliation_results := reconciliation_results d @ recs\<rparr>"
    "length recs = (case oReconciliation out of None \<Rightarrow> 0 | Some _ \<Rightarrow> 1)"
    by (auto simp: apply_outcome_tx_def bindE_Inr query_row_Inr insert_reconciliation_def put_refund_def
        split: if_splits option.splits)
  with f step l(1) n(1) show thesis by (intro that)
qed

lemma recheck_tx_effect:
  assumes "recheck_tx e user i now d = Inr (new, Some d')"
  obtains old where "find (\<lambda>r. rUserID r = user \<and> rID r = i) (refunds d) = Some old"
    "refund_row_step M old new" "d' = put_refund old new d"
proof -
  from assms obtain old where
      f: "find (\<lambda>r. rUserID r = user \<and> rID r = i) (refunds d) = Some old"
    and g: "rStatus old = RefundProcessing" "rManualReview old" "\<not> lease_live old now"
    and u: "update_refund (recheck_set now) old d = Inr (new, d')"
    by (auto simp: recheck_tx_def bindE_Inr query_row_Inr split: if_splits)
  from u have "new = bump old (recheck_set now old)" "refund_checks new" "d' = put_refund old new d"
    using update_refund_bump by blast+
  with g f show thesis by (intro that [of old] refund_row_step.recheck [of old now])
qed

section \<open>The row invariant\<close>

definition refund_row_inv :: "int \<Rightarrow> Refund \<Rightarrow> bool" where
  "refund_row_inv M r \<longleftrightarrow>
     refund_checks r \<and>
     (rLeaseToken r = '''' \<longleftrightarrow> rLeaseUntil r = None) \<and>
     (rStatus r \<noteq> RefundProcessing \<or> rManualReview r \<longrightarrow> rLeaseToken r = '''') \<and>
     (rStatus r = RefundProcessing \<longrightarrow> rProcessingStartedAt r \<noteq> None) \<and>
     (rStatus r = RefundPending \<longleftrightarrow> rAttempts r = 0) \<and>
     rAttempts r \<le> M"

definition terminal :: "Refund \<Rightarrow> bool" where
  "terminal r \<longleftrightarrow> rStatus r = RefundSucceeded \<or> rStatus r = RefundFailed \<and> \<not> rRetryable r"

text \<open>What identifies a refund never changes.\<close>

definition same_identity :: "Refund \<Rightarrow> Refund \<Rightarrow> bool" where
  "same_identity r s \<longleftrightarrow>
     rID s = rID r \<and> rUserID s = rUserID r \<and> rPaymentID s = rPaymentID r \<and> rAmount s = rAmount r \<and>
     rCurrency s = rCurrency r \<and> rIdempotencyKey s = rIdempotencyKey r \<and>
     rRequestHash s = rRequestHash r \<and> rCreatedAt s = rCreatedAt r"

lemmas set_clause_defs = claim_submit_set_def claim_reconcile_set_def outcome_set_def recheck_set_def
  bump_def

lemma refund_row_step_identity:
  "refund_row_step M r s \<Longrightarrow> same_identity r s \<and> rVersion s = rVersion r + 1"
  by (erule refund_row_stepE) (auto simp: same_identity_def set_clause_defs)

lemma refund_row_step_checks: "refund_row_step M r s \<Longrightarrow> refund_checks s"
  by (erule refund_row_stepE) auto

lemma refund_row_step_inv:
  assumes "refund_row_step M r s" and "refund_row_inv M r"
  shows "refund_row_inv M s"
  using assms
proof cases
  case (submit m now token until)
  with assms(2) show ?thesis
    by (auto simp: refund_row_inv_def claim_condition_def set_clause_defs refund_checks_def)
next
  case (reconcile m now token until)
  with assms(2) show ?thesis
    by (auto simp: refund_row_inv_def claim_condition_def set_clause_defs)
next
  case (outcome claimed now out)
  with assms(2) show ?thesis
    by (auto simp: refund_row_inv_def set_clause_defs)
next
  case (recheck now)
  with assms(2) show ?thesis
    by (auto simp: refund_row_inv_def set_clause_defs)
qed

lemma terminal_no_step: "terminal r \<Longrightarrow> refund_row_inv M r \<Longrightarrow> \<not> refund_row_step M r s"
  by (auto simp: terminal_def claim_condition_def elim!: refund_row_stepE)

lemma reserves_back: "refund_row_step M r s \<Longrightarrow> reserves r"
  by (auto simp: reserves_def claim_condition_def elim!: refund_row_stepE)

lemma new_refund_row_inv:
  "refund_checks (new_refund_row r) \<Longrightarrow> 0 \<le> M \<Longrightarrow> refund_row_inv M (new_refund_row r)"
  by (simp add: refund_row_inv_def new_refund_row_def)

section \<open>The abstract refund machine\<close>

datatype phase = Waiting | InFlight | Review | Retry | Refunded | Dead

definition phase_of :: "Refund \<Rightarrow> phase" where
  "phase_of r =
     (if rStatus r = RefundPending then Waiting
      else if rStatus r = RefundProcessing then (if rManualReview r then Review else InFlight)
      else if rStatus r = RefundSucceeded then Refunded
      else if rRetryable r then Retry else Dead)"

inductive phase_step :: "phase \<Rightarrow> phase \<Rightarrow> bool" where
  "phase_step Waiting InFlight"
| "phase_step Retry InFlight"
| "phase_step InFlight InFlight"
| "phase_step InFlight Review"
| "phase_step InFlight Retry"
| "phase_step InFlight Refunded"
| "phase_step InFlight Dead"
| "phase_step Review InFlight"

inductive_simps phase_step_simps: "phase_step a b"

lemma refund_row_step_phase:
  assumes "refund_row_step M r s" and "refund_row_inv M r"
  shows "phase_step (phase_of r) (phase_of s)"
  using assms
proof cases
  case (submit m now token until)
  with assms(2) show ?thesis
    by (auto simp: phase_of_def claim_condition_def set_clause_defs phase_step_simps
        refund_row_inv_def refund_checks_def)
next
  case (reconcile m now token until)
  with assms(2) show ?thesis
    by (auto simp: phase_of_def claim_condition_def set_clause_defs phase_step_simps)
next
  case (outcome claimed now out)
  then have "\<not> rManualReview r"
    using assms(2) lease_valid_status by (auto simp: refund_row_inv_def)
  with outcome assms(2) show ?thesis
    by (auto simp: phase_of_def set_clause_defs phase_step_simps refund_checks_def)
next
  case (recheck now)
  then show ?thesis
    by (auto simp: phase_of_def set_clause_defs phase_step_simps)
qed

section \<open>The refunds table\<close>

definition refunds_inv :: "int \<Rightarrow> db \<Rightarrow> bool" where
  "refunds_inv M d \<longleftrightarrow>
     distinct (map rID (refunds d)) \<and>
     distinct (map (\<lambda>r. (rUserID r, rIdempotencyKey r)) (refunds d)) \<and>
     (\<forall>r \<in> set (refunds d). refund_row_inv M r)"

lemma refunds_put_refund [simp]:
  "refunds (put_refund old new d) = update_where (\<lambda>x. rID x = rID old) (\<lambda>_. new) (refunds d)"
  by (simp add: put_refund_def)

lemma put_refund_rows:
  assumes "refunds_inv M d" and "old \<in> set (refunds d)"
  shows "set (refunds (put_refund old new d)) = insert new (set (refunds d) - {old})"
  using assms distinct_key_eq [of rID "refunds d"]
  by (auto simp: refunds_inv_def set_update_where)

lemma update_by_id_eq:
  assumes "distinct (map rID rows)" and "old \<in> set rows"
  shows "update_where (\<lambda>x. rID x = rID old) (\<lambda>_. new) rows = map (\<lambda>x. if x = old then new else x) rows"
  unfolding update_where_def using assms distinct_key_eq [of rID rows] by (intro map_cong) auto

lemma put_refund_inv:
  assumes inv: "refunds_inv M d" and old: "old \<in> set (refunds d)" and step: "refund_row_step M old new"
  shows "refunds_inv M (put_refund old new d)"
proof -
  note same = refund_row_step_identity [OF step]
  have upd: "refunds (put_refund old new d) = map (\<lambda>x. if x = old then new else x) (refunds d)"
    using inv old by (simp add: update_by_id_eq refunds_inv_def)
  have "map rID (refunds (put_refund old new d)) = map rID (refunds d)"
    and "map (\<lambda>r. (rUserID r, rIdempotencyKey r)) (refunds (put_refund old new d)) =
         map (\<lambda>r. (rUserID r, rIdempotencyKey r)) (refunds d)"
    unfolding upd using same by (auto simp: same_identity_def)
  moreover have "\<forall>r \<in> set (refunds (put_refund old new d)). refund_row_inv M r"
    unfolding upd using inv old refund_row_step_inv [OF step] by (auto simp: refunds_inv_def)
  ultimately show ?thesis using inv by (simp add: refunds_inv_def)
qed

lemma insert_refund_inv:
  assumes inv: "refunds_inv M d" and "insert_refund (new_refund_row r) d = Inr (new, d')" and "0 \<le> M"
  shows "refunds_inv M d'"
proof -
  note ins = insert_refund_Inr [OF assms(2)]
  have "new = new_refund_row r" using ins(1) by (simp add: new_refund_row_def)
  then show ?thesis
    using inv ins(3-5,7) new_refund_row_inv [of r M] assms(3)
    by (auto simp: refunds_inv_def)
qed

lemma find_refund: "refunds_inv M d \<Longrightarrow> r \<in> set (refunds d) \<Longrightarrow> find (\<lambda>x. rID x = rID r) (refunds d) = Some r"
  by (auto simp: refunds_inv_def intro: find_key_unique)

section \<open>What a claim returns\<close>

lemma claim_Some:
  assumes "ClaimRefund e d kind now lease m = (Inr (Some c), d')"
  shows "\<exists>old \<in> set (refunds d). rID old = rID c \<and> claim_due now old \<and> claim_condition kind m old \<and>
    c \<in> set (refunds d') \<and> rLeaseToken c \<noteq> '''' \<and> rLeaseUntil c = Some (time_add now lease) \<and>
    rStatus c = RefundProcessing \<and> \<not> env_locked e (rID c)"
proof -
  from assms have kind: "kind = ClaimSubmit \<or> kind = ClaimReconcile"
    by (auto simp: ClaimRefund_def split: if_splits)
  with assms have "claim_tx e kind now lease m d = Inr (Some c, Some d') \<or> claim_tx e kind now lease m d = Inr (Some c, None)"
    by (auto simp: ClaimRefund_def run_tx_Inr)
  moreover have "claim_tx e kind now lease m d \<noteq> Inr (Some c, None)"
    by (auto simp: claim_tx_def bindE_Inr split: sum.splits if_splits option.splits)
  ultimately have tx: "claim_tx e kind now lease m d = Inr (Some c, Some d')" by blast
  show ?thesis
  proof (rule claim_tx_effect [OF tx order_refl kind])
    fix old new
    assume "claim_pick e kind now m d = Some old" and step: "refund_row_step m old new"
      and "d' = put_refund old new d" "Some c = Some new" "rLeaseToken new \<noteq> ''''"
      "rLeaseUntil new = Some (time_add now lease)" "rStatus new = RefundProcessing"
    then show ?thesis
      using claim_pick_Some [of e kind now m d old] refund_row_step_identity [OF step]
      by (intro bexI [of _ old]) (auto simp: same_identity_def set_update_where)
  qed
qed

section \<open>When an outcome is accepted\<close>

definition fresh_event :: "Refund \<Rightarrow> db \<Rightarrow> bool" where
  "fresh_event r d \<longleftrightarrow> (\<forall>x \<in> set (outbox_events d). eID x \<noteq> ''evt_'' @ rID r @ ''_'' @ dec (rVersion r + 1))"

definition fresh_reconciliation :: "env \<Rightarrow> db \<Rightarrow> bool" where
  "fresh_reconciliation e d \<longleftrightarrow>
     (case NewID e ''rec'' of Inl _ \<Rightarrow> False | Inr i \<Rightarrow> \<forall>y \<in> set (reconciliation_results d). recID y \<noteq> i)"

lemma emit_refund_outbox_fresh:
  assumes "\<forall>x \<in> set (outbox_events d). eID x \<noteq> ''evt_'' @ rID new @ ''_'' @ dec (rVersion new)"
  shows "emit_refund_outbox old new d = Inr (d\<lparr>outbox_events := outbox_events d @ refund_events old new\<rparr>)"
  using assms
  by (auto simp: emit_refund_outbox_def insert_outbox_row_def refund_events_def refund_event_kind_def
      refund_event_def split: option.splits)

lemma update_refund_ok:
  assumes "guard_refund_update old (f old) = Inr (bump old (f old))" and "refund_checks (bump old (f old))"
    and "rID (f old) = rID old" and "fresh_event old d"
  shows "update_refund f old d = Inr (bump old (f old), put_refund old (bump old (f old)) d)"
  using assms
  by (simp add: update_refund_def emit_refund_outbox_fresh fresh_event_def put_refund_def bump_def)

lemma apply_outcome_ok:
  assumes inv: "refunds_inv M d" "c \<in> set (refunds d)"
    and lease: "rLeaseToken c \<noteq> ''''" "lease_live c now" "rStatus c = RefundProcessing"
    and out: "oStatus out \<in> {RefundProcessing, RefundSucceeded, RefundFailed}"
      "refund_checks (bump c (outcome_set out now c))"
    and fresh: "fresh_event c d" "oReconciliation out \<noteq> None \<Longrightarrow> fresh_reconciliation e d"
    and e: "fault_free e"
  shows "\<exists>recs. ApplyRefundOutcome e d c out now =
      (Inr (), (put_refund c (bump c (outcome_set out now c)) d)\<lparr>reconciliation_results := reconciliation_results d @ recs\<rparr>) \<and>
    length recs = (case oReconciliation out of None \<Rightarrow> 0 | Some _ \<Rightarrow> 1)"
proof -
  have guard: "guard_refund_update c (outcome_set out now c) = Inr (bump c (outcome_set out now c))"
    using lease(3) out(1) by (auto simp: guard_refund_update_def outcome_set_def bump_def)
  have upd: "update_refund (outcome_set out now) c d = Inr (bump c (outcome_set out now c), put_refund c (bump c (outcome_set out now c)) d)"
    using guard out(2) fresh(1) by (intro update_refund_ok) (simp_all add: outcome_set_def)
  have valid: "(if oStatus out \<noteq> rStatus c then ValidateRefundTransition (rStatus c) (oStatus out) else None) = None"
    using lease(3) out(1) by (auto simp: ValidateRefundTransition_None)
  have ref: "\<exists>r \<in> set (refunds (put_refund c (bump c (outcome_set out now c)) d)). rID r = rID c"
    using inv(2) by (intro bexI [of _ "bump c (outcome_set out now c)"]) (auto simp: set_update_where outcome_set_def bump_def)
  note defs = ApplyRefundOutcome_def run_tx_def apply_outcome_tx_def query_row_def scanRefund_def e lease_valid_def
  show ?thesis
  proof (cases "oReconciliation out")
    case None
    then show ?thesis
      using lease valid e by (intro exI [of _ "[]"]) (simp add: defs find_refund [OF inv] upd put_refund_def)
  next
    case (Some x)
    with fresh(2) obtain i where i: "NewID e ''rec'' = Inr i" "\<forall>y \<in> set (reconciliation_results d). recID y \<noteq> i"
      by (auto simp: fresh_reconciliation_def split: sum.splits)
    show ?thesis
      using lease valid e i ref Some
      by (intro exI [of _ "[\<lparr>recID = i, recOperationID = rID c, recLocalStatus = rStatus c,
          recExternalStatus = recExternalStatus x, recResult = recResult x, recDetail = recDetail x, recCheckedAt = now\<rparr>]"])
        (auto simp: defs find_refund [OF inv] upd insert_reconciliation_def put_refund_def)
  qed
qed

end
