(* ===== verification/PaymentStore.thy ===== *)
theory PaymentStore
  imports TenantStore
begin

text \<open>
  The payment and subscription part of \<open>internal/storage/store.go\<close>: the transactional creation of a
  payment with its idempotency key and its outbox event, reading and listing, cancelling, and the
  webhook subscriptions.
\<close>

record PaymentListFilter =
  plStatus :: string
  plPage :: int
  plSize :: int

section \<open>The outbox insert\<close>

definition nextStorageID :: "env \<Rightarrow> string \<Rightarrow> string" where
  "nextStorageID e prefix = prefix @ ''_'' @ dec (env_nano e) @ ''_'' @ dec (uint (env_seq e))"

record outboxEventInsert =
  oiID :: string
  oiUserID :: string
  oiEventType :: event_type
  oiAggregateType :: string
  oiAggregateID :: string
  oiPayload :: event_payload
  oiNow :: go_time

definition insertOutboxEvent :: "env \<Rightarrow> outboxEventInsert \<Rightarrow> db \<Rightarrow> go_error + db" where
  "insertOutboxEvent e ev d =
     mapErr (wrapf ''insert outbox event'')
       (bindE (call e ''insert outbox event'') (\<lambda>_.
        insert_outbox_row
          \<lparr>eID = oiID ev, eUserID = oiUserID ev, eEventType = oiEventType ev,
           eAggregateType = oiAggregateType ev, eAggregateID = oiAggregateID ev,
           ePayload = oiPayload ev, eStatus = OutboxPending, eAttempts = 0,
           eNextAttemptAt = oiNow ev, eLockedUntil = None, eLastError = '''',
           eCreatedAt = oiNow ev, eUpdatedAt = oiNow ev\<rparr> d))"

definition insertPaymentCreatedOutboxEvent ::
  "env \<Rightarrow> string \<Rightarrow> Payment \<Rightarrow> go_time \<Rightarrow> db \<Rightarrow> go_error + db" where
  "insertPaymentCreatedOutboxEvent e userID p now d =
     bindE (mapErr (wrapf ''marshal payment created outbox payload'')
       (call e ''marshal payment created outbox payload'')) (\<lambda>_.
     insertOutboxEvent e
       \<lparr>oiID = nextStorageID e ''evt'', oiUserID = userID, oiEventType = EventPaymentCreated,
        oiAggregateType = AggregateTypePayment, oiAggregateID = pID p,
        oiPayload = PaymentCreatedJSON
          \<lparr>pcID = pID p, pcAmount = pAmount p, pcCurrency = pCurrency p,
           pcIdempotencyKey = pIdempotencyKey p, pcStatus = pStatus p, pcCreatedAt = pCreatedAt p\<rparr>,
        oiNow = now\<rparr> d)"

definition insertPaymentCancelledOutboxEvent ::
  "env \<Rightarrow> string \<Rightarrow> Payment \<Rightarrow> go_time \<Rightarrow> db \<Rightarrow> go_error + db" where
  "insertPaymentCancelledOutboxEvent e userID p cancelledAt d =
     bindE (mapErr (wrapf ''marshal payment cancelled outbox payload'')
       (call e ''marshal payment cancelled outbox payload'')) (\<lambda>_.
     insertOutboxEvent e
       \<lparr>oiID = nextStorageID e ''evt'', oiUserID = userID, oiEventType = EventPaymentCancelled,
        oiAggregateType = AggregateTypePayment, oiAggregateID = pID p,
        oiPayload = PaymentCancelledJSON \<lparr>pxID = pID p, pxCancelledAt = cancelledAt\<rparr>,
        oiNow = cancelledAt\<rparr> d)"

section \<open>Payments\<close>

definition getPayment :: "env \<Rightarrow> db \<Rightarrow> string \<Rightarrow> string \<Rightarrow> go_error + Payment" where
  "getPayment e d tbl i =
     bindE (quoteIdentifier tbl) (\<lambda>_.
     mapErr (\<lambda>err. if errors_is err ErrNoRows then ErrPaymentNotFound else wrapf ''get payment'' err)
       (case payments_tables d tbl of
          None \<Rightarrow> bindE (call e ''get payment'') (\<lambda>_. Inl undefined_table)
        | Some rows \<Rightarrow> query_row e ''get payment'' (find (\<lambda>p. pID p = i) rows)))"

definition insert_payment_row :: "string \<Rightarrow> Payment \<Rightarrow> db \<Rightarrow> go_error + db" where
  "insert_payment_row tbl p d =
     (case payments_tables d tbl of
        None \<Rightarrow> Inl undefined_table
      | Some rows \<Rightarrow>
        if \<not> int64 (pAmount p) then Inl (ErrExternal ''22003'')
        else if \<exists>x \<in> set rows. pID x = pID p then Inl unique_violation
        else Inr (d\<lparr>payments_tables := (payments_tables d)(tbl \<mapsto> rows @ [p])\<rparr>))"

definition create_payment_insert ::
  "env \<Rightarrow> string \<Rightarrow> string \<Rightarrow> Payment \<Rightarrow> db \<Rightarrow> go_error + (Payment \<times> bool) \<times> db option" where
  "create_payment_insert e tbl userID p d =
     bindE (quoteIdentifier tbl) (\<lambda>_.
     bindE (mapErr (wrapf ''insert payment'')
       (bindE (call e ''insert payment'') (\<lambda>_. insert_payment_row tbl p d))) (\<lambda>d1.
     bindE (insertPaymentCreatedOutboxEvent e userID p (pCreatedAt p) d1) (\<lambda>d2.
     Inr ((p, True), Some d2))))"

definition find_idem_key :: "string \<Rightarrow> string \<Rightarrow> db \<Rightarrow> idem_key option" where
  "find_idem_key user key d = find (\<lambda>k. ikUser k = user \<and> ikKey k = key) (idempotency_keys d)"

definition create_payment_tx ::
  "env \<Rightarrow> string \<Rightarrow> string \<Rightarrow> Payment \<Rightarrow> string \<Rightarrow> db \<Rightarrow> go_error + (Payment \<times> bool) \<times> db option" where
  "create_payment_tx e tbl userID p requestHash d =
     (if pIdempotencyKey p = '''' then create_payment_insert e tbl userID p d
      else
        bindE (mapErr (wrapf ''insert idempotency key'') (call e ''insert idempotency key'')) (\<lambda>_.
        case find_idem_key userID (pIdempotencyKey p) d of
          None \<Rightarrow>
            create_payment_insert e tbl userID p
              (d\<lparr>idempotency_keys := idempotency_keys d @
                  [\<lparr>ikUser = userID, ikKey = pIdempotencyKey p, ikHash = requestHash,
                    ikPayment = pID p, ikCreatedAt = pCreatedAt p\<rparr>]\<rparr>)
        | Some _ \<Rightarrow>
            bindE (mapErr (wrapf ''load existing idempotency key'')
              (query_row e ''load existing idempotency key''
                 (find_idem_key userID (pIdempotencyKey p) d))) (\<lambda>k.
            if ikHash k \<noteq> requestHash then Inl ErrIdempotencyConflict
            else
              bindE (getPayment e d tbl (ikPayment k)) (\<lambda>existing.
              Inr ((existing, False), None)))))"

definition CreatePayment ::
  "(string \<Rightarrow> string) \<Rightarrow> env \<Rightarrow> Store \<Rightarrow> string \<Rightarrow> Payment \<Rightarrow> string \<Rightarrow>
   (go_error + Payment \<times> bool) \<times> Store" where
  "CreatePayment sha e s userID p requestHash =
     (case ensureUserSchema sha e s userID of
        (Inl err, s1) \<Rightarrow> (Inl err, s1)
      | (Inr tables, s1) \<Rightarrow>
        (case run_tx wrapf e ''begin create payment tx'' ''commit create payment tx'' (pool s1)
                (create_payment_tx e (utPayments tables) userID p requestHash) of
           (res, d) \<Rightarrow> (res, s1\<lparr>pool := d\<rparr>)))"

definition GetPayment ::
  "(string \<Rightarrow> string) \<Rightarrow> env \<Rightarrow> Store \<Rightarrow> string \<Rightarrow> string \<Rightarrow> (go_error + Payment) \<times> Store" where
  "GetPayment sha e s userID i =
     (case ensureUserSchema sha e s userID of
        (Inl err, s1) \<Rightarrow> (Inl err, s1)
      | (Inr tables, s1) \<Rightarrow> (getPayment e (pool s1) (utPayments tables) i, s1))"

definition payment_matches :: "PaymentListFilter \<Rightarrow> Payment \<Rightarrow> bool" where
  "payment_matches f p \<longleftrightarrow> plStatus f = '''' \<or> pStatus p = plStatus f"

definition list_payments_query :: "PaymentListFilter \<Rightarrow> Payment list \<Rightarrow> go_error + Payment list" where
  "list_payments_query f rows =
     (let offset = wrap64 (wrap64 (plPage f - 1) * plSize f) in
      if plSize f < 0 \<or> offset < 0 then Inl (ErrExternal ''LIMIT and OFFSET must not be negative'')
      else Inr (take (nat (plSize f)) (drop (nat offset)
             (sort_key (\<lambda>p. - pCreatedAt p) (filter (payment_matches f) rows)))))"

definition list_payments_rows ::
  "env \<Rightarrow> db \<Rightarrow> string \<Rightarrow> PaymentListFilter \<Rightarrow> go_error + Payment list \<times> int" where
  "list_payments_rows e d tbl f =
     bindE (quoteIdentifier tbl) (\<lambda>_.
     bindE (mapErr (wrapf ''count payments'') (bindE (call e ''count payments'') (\<lambda>_.
       case payments_tables d tbl of None \<Rightarrow> Inl undefined_table | Some rows \<Rightarrow> Inr rows))) (\<lambda>rows.
     bindE (mapErr (wrapf ''list payments'') (bindE (call e ''list payments'') (\<lambda>_.
       list_payments_query f rows))) (\<lambda>page.
     bindE (mapErr (wrapf ''scan payment'') (call e ''scan payment'')) (\<lambda>_.
     bindE (mapErr (wrapf ''iterate payments'') (call e ''iterate payments'')) (\<lambda>_.
     Inr (page, int (count_where (payment_matches f) rows)))))))"

definition ListPayments ::
  "(string \<Rightarrow> string) \<Rightarrow> env \<Rightarrow> Store \<Rightarrow> string \<Rightarrow> PaymentListFilter \<Rightarrow>
   (go_error + Payment list \<times> int) \<times> Store" where
  "ListPayments sha e s userID f =
     (case ensureUserSchema sha e s userID of
        (Inl err, s1) \<Rightarrow> (Inl err, s1)
      | (Inr tables, s1) \<Rightarrow> (list_payments_rows e (pool s1) (utPayments tables) f, s1))"

text \<open>
  The two halves of a cancellation: the read that checks the status and the write, which does not
  check it again. Under READ COMMITTED another transaction can commit between them.
\<close>

definition cancel_payment_check :: "env \<Rightarrow> string \<Rightarrow> string \<Rightarrow> db \<Rightarrow> go_error + Payment" where
  "cancel_payment_check e tbl i d =
     bindE (getPayment e d tbl i) (\<lambda>p.
     if pStatus p \<noteq> PaymentPending then Inl ErrInvalidPaymentState else Inr p)"

definition cancel_payment_write ::
  "env \<Rightarrow> string \<Rightarrow> string \<Rightarrow> string \<Rightarrow> Payment \<Rightarrow> go_time \<Rightarrow> db \<Rightarrow> go_error + db" where
  "cancel_payment_write e tbl userID i p cancelledAt d =
     bindE (quoteIdentifier tbl) (\<lambda>_.
     bindE (mapErr (wrapf ''cancel payment'') (bindE (call e ''cancel payment'') (\<lambda>_.
       case payments_tables d tbl of
         None \<Rightarrow> Inl undefined_table
       | Some rows \<Rightarrow>
         Inr (d\<lparr>payments_tables := (payments_tables d)(tbl \<mapsto>
           update_where (\<lambda>x. pID x = i)
             (\<lambda>x. x\<lparr>pStatus := PaymentCancelled, pUpdatedAt := cancelledAt\<rparr>) rows)\<rparr>)))) (\<lambda>d1.
     insertPaymentCancelledOutboxEvent e userID
       (p\<lparr>pStatus := PaymentCancelled, pUpdatedAt := cancelledAt\<rparr>) cancelledAt d1))"

definition cancel_payment_tx ::
  "env \<Rightarrow> string \<Rightarrow> string \<Rightarrow> string \<Rightarrow> go_time \<Rightarrow> db \<Rightarrow> go_error + unit \<times> db option" where
  "cancel_payment_tx e tbl userID i cancelledAt d =
     bindE (cancel_payment_check e tbl i d) (\<lambda>p.
     bindE (cancel_payment_write e tbl userID i p cancelledAt d) (\<lambda>d'.
     Inr ((), Some d')))"

definition CancelPayment ::
  "(string \<Rightarrow> string) \<Rightarrow> env \<Rightarrow> Store \<Rightarrow> string \<Rightarrow> string \<Rightarrow> go_time \<Rightarrow> (go_error + unit) \<times> Store" where
  "CancelPayment sha e s userID i cancelledAt =
     (case ensureUserSchema sha e s userID of
        (Inl err, s1) \<Rightarrow> (Inl err, s1)
      | (Inr tables, s1) \<Rightarrow>
        (case run_tx wrapf e ''begin cancel payment tx'' ''commit cancel payment tx'' (pool s1)
                (cancel_payment_tx e (utPayments tables) userID i cancelledAt) of
           (res, d) \<Rightarrow> (res, s1\<lparr>pool := d\<rparr>)))"

section \<open>Webhook subscriptions\<close>

definition getSubscription :: "env \<Rightarrow> db \<Rightarrow> string \<Rightarrow> string \<Rightarrow> go_error + WebhookSubscription" where
  "getSubscription e d tbl i =
     bindE (quoteIdentifier tbl) (\<lambda>_.
     mapErr (\<lambda>err. if errors_is err ErrNoRows then ErrSubscriptionNotFound
                   else wrapf ''get webhook subscription'' err)
       (case webhooks_tables d tbl of
          None \<Rightarrow> bindE (call e ''get webhook subscription'') (\<lambda>_. Inl undefined_table)
        | Some rows \<Rightarrow> query_row e ''get webhook subscription'' (find (\<lambda>s. sID s = i) rows)))"

definition create_subscription_tx ::
  "env \<Rightarrow> string \<Rightarrow> WebhookSubscription \<Rightarrow> db \<Rightarrow> go_error + WebhookSubscription \<times> db option" where
  "create_subscription_tx e tbl sub d =
     bindE (quoteIdentifier tbl) (\<lambda>_.
     bindE (mapErr (wrapf ''insert webhook subscription'')
       (bindE (call e ''insert webhook subscription'') (\<lambda>_.
        case webhooks_tables d tbl of
          None \<Rightarrow> Inl undefined_table
        | Some rows \<Rightarrow>
          if \<exists>x \<in> set rows. sID x = sID sub then Inl unique_violation
          else Inr (d\<lparr>webhooks_tables := (webhooks_tables d)(tbl \<mapsto> rows @ [sub])\<rparr>)))) (\<lambda>d'.
     Inr (sub, Some d')))"

definition CreateSubscription ::
  "(string \<Rightarrow> string) \<Rightarrow> env \<Rightarrow> Store \<Rightarrow> string \<Rightarrow> WebhookSubscription \<Rightarrow>
   (go_error + WebhookSubscription) \<times> Store" where
  "CreateSubscription sha e s userID sub =
     (case ensureUserSchema sha e s userID of
        (Inl err, s1) \<Rightarrow> (Inl err, s1)
      | (Inr tables, s1) \<Rightarrow>
        (case run_tx wrapf e ''begin create subscription tx'' ''commit create subscription tx'' (pool s1)
                (create_subscription_tx e (utWebhooks tables) sub) of
           (res, d) \<Rightarrow> (res, s1\<lparr>pool := d\<rparr>)))"

definition ListSubscriptions ::
  "(string \<Rightarrow> string) \<Rightarrow> env \<Rightarrow> Store \<Rightarrow> string \<Rightarrow> (go_error + WebhookSubscription list) \<times> Store" where
  "ListSubscriptions sha e s userID =
     (case ensureUserSchema sha e s userID of
        (Inl err, s1) \<Rightarrow> (Inl err, s1)
      | (Inr tables, s1) \<Rightarrow>
        (bindE (quoteIdentifier (utWebhooks tables)) (\<lambda>_.
         bindE (mapErr (wrapf ''list webhook subscriptions'')
           (bindE (call e ''list webhook subscriptions'') (\<lambda>_.
            case webhooks_tables (pool s1) (utWebhooks tables) of
              None \<Rightarrow> Inl undefined_table | Some rows \<Rightarrow> Inr rows))) (\<lambda>rows.
         bindE (mapErr (wrapf ''scan webhook subscription'') (call e ''scan webhook subscription'')) (\<lambda>_.
         bindE (mapErr (wrapf ''iterate webhook subscriptions'')
           (call e ''iterate webhook subscriptions'')) (\<lambda>_.
         Inr (sort_key (\<lambda>x. - sCreateAt x) rows))))), s1))"

definition GetSubscription ::
  "(string \<Rightarrow> string) \<Rightarrow> env \<Rightarrow> Store \<Rightarrow> string \<Rightarrow> string \<Rightarrow> (go_error + WebhookSubscription) \<times> Store" where
  "GetSubscription sha e s userID i =
     (case ensureUserSchema sha e s userID of
        (Inl err, s1) \<Rightarrow> (Inl err, s1)
      | (Inr tables, s1) \<Rightarrow> (getSubscription e (pool s1) (utWebhooks tables) i, s1))"

definition set_subscription_tx ::
  "env \<Rightarrow> string \<Rightarrow> string \<Rightarrow> bool \<Rightarrow> go_time \<Rightarrow> db \<Rightarrow> go_error + unit \<times> db option" where
  "set_subscription_tx e tbl i active updatedAt d =
     bindE (getSubscription e d tbl i) (\<lambda>sub.
     if sActive sub = active then Inr ((), None)
     else
       bindE (mapErr (wrapf ''update webhook subscription'')
         (bindE (call e ''update webhook subscription'') (\<lambda>_.
          case webhooks_tables d tbl of
            None \<Rightarrow> Inl undefined_table
          | Some rows \<Rightarrow>
            Inr (d\<lparr>webhooks_tables := (webhooks_tables d)(tbl \<mapsto>
              update_where (\<lambda>x. sID x = i)
                (\<lambda>x. x\<lparr>sActive := active, sUpdatedAt := updatedAt\<rparr>) rows)\<rparr>)))) (\<lambda>d'.
       Inr ((), Some d')))"

definition SetSubscriptionActive ::
  "(string \<Rightarrow> string) \<Rightarrow> env \<Rightarrow> Store \<Rightarrow> string \<Rightarrow> string \<Rightarrow> bool \<Rightarrow> go_time \<Rightarrow>
   (go_error + unit) \<times> Store" where
  "SetSubscriptionActive sha e s userID i active updatedAt =
     (case ensureUserSchema sha e s userID of
        (Inl err, s1) \<Rightarrow> (Inl err, s1)
      | (Inr tables, s1) \<Rightarrow>
        (case run_tx wrapf e ''begin update subscription tx'' ''commit update subscription tx'' (pool s1)
                (set_subscription_tx e (utWebhooks tables) i active updatedAt) of
           (res, d) \<Rightarrow> (res, s1\<lparr>pool := d\<rparr>)))"

section \<open>What the payment operations do to the tables\<close>

definition find_payment :: "db \<Rightarrow> string \<Rightarrow> string \<Rightarrow> Payment option" where
  "find_payment d tbl i =
     (case payments_tables d tbl of None \<Rightarrow> None | Some rows \<Rightarrow> find (\<lambda>p. pID p = i) rows)"

definition payments_inv :: "db \<Rightarrow> bool" where
  "payments_inv d \<longleftrightarrow>
     (\<forall>t rows. payments_tables d t = Some rows \<longrightarrow>
        distinct (map pID rows) \<and> (\<forall>p \<in> set rows. int64 (pAmount p)))"

text \<open>The one change a payment can undergo.\<close>

definition cancelled_at :: "go_time \<Rightarrow> Payment \<Rightarrow> Payment" where
  "cancelled_at t p = p\<lparr>pStatus := PaymentCancelled, pUpdatedAt := t\<rparr>"

definition payments_step :: "db \<Rightarrow> db \<Rightarrow> bool" where
  "payments_step d d' \<longleftrightarrow>
     (\<forall>t i p. find_payment d t i = Some p \<longrightarrow>
        find_payment d' t i = Some p \<or>
        pStatus p = PaymentPending \<and> (\<exists>c. find_payment d' t i = Some (cancelled_at c p)))"

lemma payments_step_refl [simp]: "payments_step d d"
  by (simp add: payments_step_def)

lemma payments_step_trans: "payments_step a b \<Longrightarrow> payments_step b c \<Longrightarrow> payments_step a c"
  unfolding payments_step_def by (metis cancelled_at_def Payment.select_convs(4) Payment.surjective Payment.update_convs(4) Payment.update_convs(7) payment_status_neq(2))

lemma find_payment_cong: "payments_tables d' = payments_tables d \<Longrightarrow> find_payment d' = find_payment d"
  by (simp add: find_payment_def fun_eq_iff)

lemma payments_step_frame: "payments_tables d' = payments_tables d \<Longrightarrow> payments_step d d'"
  by (simp add: payments_step_def find_payment_def)

lemma payments_inv_frame: "payments_tables d' = payments_tables d \<Longrightarrow> payments_inv d' \<longleftrightarrow> payments_inv d"
  by (simp add: payments_inv_def)

lemma schema_ext_payments:
  assumes "schema_ext d d'"
  shows "payments_step d d'" and "payments_inv d \<Longrightarrow> payments_inv d'"
proof -
  have "find_payment d t i = Some p \<Longrightarrow> find_payment d' t i = Some p" for t i p
    using schema_ext_tables(1) [OF assms] by (auto simp: find_payment_def split: option.splits)
  then show "payments_step d d'" by (simp add: payments_step_def)
  show "payments_inv d'" if inv: "payments_inv d"
  proof (unfold payments_inv_def, intro allI impI)
    fix t rows
    assume rows: "payments_tables d' t = Some rows"
    show "distinct (map pID rows) \<and> (\<forall>p \<in> set rows. int64 (pAmount p))"
    proof (cases "payments_tables d t")
      case None
      with rows schema_ext_tables(2) [OF assms None] have "rows = []" by simp
      then show ?thesis by simp
    next
      case (Some rows')
      with rows schema_ext_tables(1) [OF assms Some] have "rows' = rows" by simp
      with Some inv show ?thesis by (auto simp: payments_inv_def)
    qed
  qed
qed

definition payment_event :: "env \<Rightarrow> string \<Rightarrow> event_type \<Rightarrow> string \<Rightarrow> event_payload \<Rightarrow> go_time \<Rightarrow> OutboxEvent" where
  "payment_event e userID kind i payload now =
     \<lparr>eID = nextStorageID e ''evt'', eUserID = userID, eEventType = kind,
      eAggregateType = AggregateTypePayment, eAggregateID = i, ePayload = payload,
      eStatus = OutboxPending, eAttempts = 0, eNextAttemptAt = now, eLockedUntil = None,
      eLastError = '''', eCreatedAt = now, eUpdatedAt = now\<rparr>"

definition created_payload :: "Payment \<Rightarrow> event_payload" where
  "created_payload p =
     PaymentCreatedJSON
       \<lparr>pcID = pID p, pcAmount = pAmount p, pcCurrency = pCurrency p,
        pcIdempotencyKey = pIdempotencyKey p, pcStatus = pStatus p, pcCreatedAt = pCreatedAt p\<rparr>"

lemma insertPaymentCreatedOutboxEvent_Inr:
  "insertPaymentCreatedOutboxEvent e u p now d = Inr d' \<Longrightarrow>
     d' = d\<lparr>outbox_events := outbox_events d @ [payment_event e u EventPaymentCreated (pID p) (created_payload p) now]\<rparr>"
  by (auto simp: insertPaymentCreatedOutboxEvent_def insertOutboxEvent_def bindE_Inr
      insert_outbox_row_Inr payment_event_def created_payload_def)

lemma insertPaymentCancelledOutboxEvent_Inr:
  "insertPaymentCancelledOutboxEvent e u p c d = Inr d' \<Longrightarrow>
     d' = d\<lparr>outbox_events := outbox_events d @
        [payment_event e u EventPaymentCancelled (pID p) (PaymentCancelledJSON \<lparr>pxID = pID p, pxCancelledAt = c\<rparr>) c]\<rparr>"
  by (auto simp: insertPaymentCancelledOutboxEvent_def insertOutboxEvent_def bindE_Inr
      insert_outbox_row_Inr payment_event_def)

text \<open>A committed creation: the payment row, its key if it has one, and one outbox event.\<close>

definition key_rows :: "string \<Rightarrow> Payment \<Rightarrow> string \<Rightarrow> idem_key list" where
  "key_rows userID p hash =
     (if pIdempotencyKey p = '''' then []
      else [\<lparr>ikUser = userID, ikKey = pIdempotencyKey p, ikHash = hash, ikPayment = pID p,
             ikCreatedAt = pCreatedAt p\<rparr>])"

lemma create_payment_insert_Inr:
  assumes "create_payment_insert e tbl userID p d = Inr (res, Some d')"
  obtains rows where "payments_tables d tbl = Some rows" "res = (p, True)" "int64 (pAmount p)"
    "\<forall>x \<in> set rows. pID x \<noteq> pID p"
    "d' = d\<lparr>payments_tables := (payments_tables d)(tbl \<mapsto> rows @ [p]),
            outbox_events := outbox_events d @
              [payment_event e userID EventPaymentCreated (pID p) (created_payload p) (pCreatedAt p)]\<rparr>"
  using assms
  by (auto simp: create_payment_insert_def bindE_Inr insert_payment_row_def
      split: option.splits if_splits dest!: insertPaymentCreatedOutboxEvent_Inr)

lemma create_payment_insert_commits: "create_payment_insert e tbl userID p d \<noteq> Inr (res, None)"
  by (auto simp: create_payment_insert_def bindE_Inr)

lemma create_payment_tx_effect:
  assumes "create_payment_tx e tbl userID p hash d = Inr (res, Some d')"
  obtains rows where "payments_tables d tbl = Some rows" "res = (p, True)" "int64 (pAmount p)"
    "\<forall>x \<in> set rows. pID x \<noteq> pID p"
    "pIdempotencyKey p \<noteq> '''' \<Longrightarrow> find_idem_key userID (pIdempotencyKey p) d = None"
    "d' = d\<lparr>payments_tables := (payments_tables d)(tbl \<mapsto> rows @ [p]),
            idempotency_keys := idempotency_keys d @ key_rows userID p hash,
            outbox_events := outbox_events d @
              [payment_event e userID EventPaymentCreated (pID p) (created_payload p) (pCreatedAt p)]\<rparr>"
proof (cases "pIdempotencyKey p = ''''")
  case True
  with assms show thesis
    by (auto simp: create_payment_tx_def key_rows_def intro!: that elim!: create_payment_insert_Inr)
next
  case False
  with assms have "find_idem_key userID (pIdempotencyKey p) d = None"
    by (auto simp: create_payment_tx_def bindE_Inr split: option.splits if_splits)
  with False assms show thesis
    by (auto simp: create_payment_tx_def key_rows_def bindE_Inr intro!: that elim!: create_payment_insert_Inr)
qed

lemma cancel_payment_tx_effect:
  assumes "cancel_payment_tx e tbl userID i c d = Inr (u, Some d')"
  obtains rows p where "payments_tables d tbl = Some rows" "find (\<lambda>x. pID x = i) rows = Some p"
    "pStatus p = PaymentPending"
    "d' = d\<lparr>payments_tables := (payments_tables d)(tbl \<mapsto> update_where (\<lambda>x. pID x = i) (cancelled_at c) rows),
            outbox_events := outbox_events d @
              [payment_event e userID EventPaymentCancelled i (PaymentCancelledJSON \<lparr>pxID = i, pxCancelledAt = c\<rparr>) c]\<rparr>"
proof -
  from assms obtain rows p where "payments_tables d tbl = Some rows" "find (\<lambda>x. pID x = i) rows = Some p"
    "pStatus p = PaymentPending" and w: "cancel_payment_write e tbl userID i p c d = Inr d'"
    by (auto simp: cancel_payment_tx_def cancel_payment_check_def getPayment_def bindE_Inr query_row_Inr
        split: option.splits if_splits)
  moreover from this(2) have "pID p = i" by (auto dest: find_Some_set)
  ultimately show thesis
    by (intro that [of rows p])
      (auto simp: cancel_payment_write_def bindE_Inr cancelled_at_def [abs_def]
        dest!: insertPaymentCancelledOutboxEvent_Inr)
qed

lemma webhook_tx_effects:
  "create_subscription_tx e tbl sub d = Inr (x, Some d') \<Longrightarrow> d' = d\<lparr>webhooks_tables := webhooks_tables d'\<rparr> \<and>
     (\<forall>t. webhooks_tables d' t = None \<longleftrightarrow> webhooks_tables d t = None)"
  "set_subscription_tx e tbl i active c d = Inr (u, Some d') \<Longrightarrow> d' = d\<lparr>webhooks_tables := webhooks_tables d'\<rparr> \<and>
     (\<forall>t. webhooks_tables d' t = None \<longleftrightarrow> webhooks_tables d t = None)"
  by (auto simp: create_subscription_tx_def set_subscription_tx_def bindE_Inr
      split: option.splits if_splits)

lemma insert_payment_step:
  assumes "payments_tables d tbl = Some rows" and "payments_inv d" and "int64 (pAmount p)"
    and "\<forall>x \<in> set rows. pID x \<noteq> pID p" and "payments_tables d' = (payments_tables d)(tbl \<mapsto> rows @ [p])"
  shows "payments_step d d'" and "payments_inv d'"
    and "find_payment d' tbl (pID p) = Some p"
    and "\<And>t i. (t, i) \<noteq> (tbl, pID p) \<Longrightarrow> find_payment d' t i = find_payment d t i"
proof -
  have app: "find q (rows @ [p]) = (case find q rows of None \<Rightarrow> (if q p then Some p else None) | Some x \<Rightarrow> Some x)" for q
    by (induction rows) auto
  have none: "find (\<lambda>x. pID x = pID p) rows = None"
    using assms(4) by (simp add: find_None_set)
  show find_new: "find_payment d' tbl (pID p) = Some p"
    using assms(5) none by (simp add: find_payment_def app)
  show other: "\<And>t i. (t, i) \<noteq> (tbl, pID p) \<Longrightarrow> find_payment d' t i = find_payment d t i"
    using assms(1,5) by (auto simp: find_payment_def app split: option.splits)
  show "payments_step d d'"
    unfolding payments_step_def
  proof (intro allI impI disjI1)
    fix t i q
    assume q: "find_payment d t i = Some q"
    with none assms(1) have "(t, i) \<noteq> (tbl, pID p)" by (auto simp: find_payment_def)
    with q other show "find_payment d' t i = Some q" by simp
  qed
  show "payments_inv d'"
    using assms by (auto simp: payments_inv_def image_iff)
qed

lemma cancel_payment_step:
  assumes "payments_tables d tbl = Some rows" and "find (\<lambda>x. pID x = i) rows = Some p"
    and "pStatus p = PaymentPending" and "payments_inv d"
    and "payments_tables d' = (payments_tables d)(tbl \<mapsto> update_where (\<lambda>x. pID x = i) (cancelled_at c) rows)"
  shows "payments_step d d'" and "payments_inv d'"
    and "find_payment d' tbl i = Some (cancelled_at c p)"
    and "\<And>t j. (t, j) \<noteq> (tbl, i) \<Longrightarrow> find_payment d' t j = find_payment d t j"
proof -
  show hit: "find_payment d' tbl i = Some (cancelled_at c p)"
    using assms(2,5) by (simp add: find_payment_def find_update_where_same cancelled_at_def)
  show other: "\<And>t j. (t, j) \<noteq> (tbl, i) \<Longrightarrow> find_payment d' t j = find_payment d t j"
    using assms(1,5)
    by (auto simp: find_payment_def cancelled_at_def find_update_where_other split: option.splits)
  show "payments_step d d'"
    unfolding payments_step_def
  proof (intro allI impI)
    fix t j q
    assume q: "find_payment d t j = Some q"
    show "find_payment d' t j = Some q \<or> pStatus q = PaymentPending \<and> (\<exists>c. find_payment d' t j = Some (cancelled_at c q))"
      using q other [of t j] hit assms(1-3) by (cases "(t, j) = (tbl, i)") (auto simp: find_payment_def)
  qed
  have "map pID (update_where (\<lambda>x. pID x = i) (cancelled_at c) rows) = map pID rows"
    by (rule map_key_update_where) (simp add: cancelled_at_def)
  then show "payments_inv d'"
    using assms(1,4,5) by (auto simp: payments_inv_def set_update_where cancelled_at_def)
qed

end
