(* ===== verification/Ledger.thy ===== *)
theory Ledger
  imports RefundStore PaymentStore
begin

text \<open>
  The ledger: no payment is refunded beyond its amount. The invariant ties every refund to a
  succeeded payment of its user in the same currency and bounds the reserved part of the payment
  (all refunds that have not failed for good) by the payment's amount. It is kept by the creation of
  a refund, by every change of a refund row and by every payment operation.
\<close>

section \<open>The ledger invariant\<close>

abbreviation table_of :: "(string \<Rightarrow> string) \<Rightarrow> string \<Rightarrow> string" where
  "table_of sha user \<equiv> utPayments (deriveUserTables sha user)"

definition covered :: "(string \<Rightarrow> string) \<Rightarrow> db \<Rightarrow> Refund \<Rightarrow> bool" where
  "covered sha d r \<longleftrightarrow>
     (\<exists>p. find_payment d (table_of sha (rUserID r)) (rPaymentID r) = Some p \<and>
          pStatus p = PaymentSucceeded \<and> pCurrency p = rCurrency r \<and>
          reserved_sum d (rUserID r) (rPaymentID r) \<le> pAmount p)"

definition ledger_inv :: "(string \<Rightarrow> string) \<Rightarrow> db \<Rightarrow> bool" where
  "ledger_inv sha d \<longleftrightarrow> (\<forall>r \<in> set (refunds d). covered sha d r)"

definition share :: "string \<Rightarrow> string \<Rightarrow> Refund \<Rightarrow> int" where
  "share user payment r =
     (if rUserID r = user \<and> rPaymentID r = payment \<and> reserves r then rAmount r else 0)"

lemma reserved_sum_share: "reserved_sum d user payment = sum_list (map (share user payment) (refunds d))"
  by (simp add: reserved_sum_def sum_list_filter share_def [abs_def])

lemma share_nonneg: "refund_checks r \<Longrightarrow> 0 \<le> share user payment r"
  by (simp add: share_def refund_checks_def)

lemma reserved_sum_nonneg: "refunds_inv M d \<Longrightarrow> 0 \<le> reserved_sum d user payment"
  unfolding reserved_sum_share
  by (rule sum_list_nonneg_map) (auto simp: refunds_inv_def refund_row_inv_def intro: share_nonneg)

lemma reserved_sum_none:
  "\<forall>r \<in> set (refunds d). \<not> (rUserID r = user \<and> rPaymentID r = payment) \<Longrightarrow> reserved_sum d user payment = 0"
proof -
  assume "\<forall>r \<in> set (refunds d). \<not> (rUserID r = user \<and> rPaymentID r = payment)"
  then have "filter (\<lambda>r. rUserID r = user \<and> rPaymentID r = payment \<and> reserves r) (refunds d) = []"
    by (auto simp: filter_empty_conv)
  then show ?thesis by (simp add: reserved_sum_def)
qed

lemma share_step:
  assumes "refund_row_step M old new"
  shows "share user payment new \<le> share user payment old"
  using refund_row_step_identity [OF assms] refund_row_step_checks [OF assms] reserves_back [OF assms]
  by (auto simp: share_def same_identity_def refund_checks_def)

lemma reserved_sum_put:
  assumes inv: "refunds_inv M d" and old: "old \<in> set (refunds d)" and step: "refund_row_step M old new"
  shows "reserved_sum (put_refund old new d) user payment \<le> reserved_sum d user payment"
proof -
  have "refunds (put_refund old new d) = map (\<lambda>x. if x = old then new else x) (refunds d)"
    using inv old by (simp add: update_by_id_eq refunds_inv_def)
  then have "reserved_sum (put_refund old new d) user payment =
    sum_list (map (\<lambda>x. share user payment (if x = old then new else x)) (refunds d))"
    by (simp add: reserved_sum_share comp_def)
  also have "\<dots> \<le> sum_list (map (share user payment) (refunds d))"
    by (rule sum_list_mono_map) (use share_step [OF step] in auto)
  finally show ?thesis by (simp add: reserved_sum_share)
qed

lemma ledger_put_refund:
  assumes "refunds_inv M d" and "old \<in> set (refunds d)" and "refund_row_step M old new"
    and "ledger_inv sha d"
  shows "ledger_inv sha (put_refund old new d)"
proof -
  have pay: "find_payment (put_refund old new d) = find_payment d"
    by (rule find_payment_cong) (simp add: put_refund_def)
  have keep: "covered sha (put_refund old new d) r" if "covered sha d r'"
    "rUserID r = rUserID r'" "rPaymentID r = rPaymentID r'" "rCurrency r = rCurrency r'" for r r'
    using that reserved_sum_put [OF assms(1-3), of "rUserID r" "rPaymentID r"]
    by (fastforce simp: covered_def pay)
  show ?thesis
    unfolding ledger_inv_def put_refund_rows [OF assms(1,2)]
    using assms(2,4) refund_row_step_identity [OF assms(3)] keep
    by (auto simp: ledger_inv_def same_identity_def)
qed

lemma ledger_payments:
  assumes "ledger_inv sha d" and "payments_step d d'" and "refunds d' = refunds d"
  shows "ledger_inv sha d'"
proof -
  have "covered sha d' r" if "covered sha d r" for r
    using that assms(2,3) unfolding covered_def payments_step_def reserved_sum_def by fastforce
  with assms(1,3) show ?thesis by (simp add: ledger_inv_def)
qed

section \<open>Creating a refund\<close>

lemma create_refund_tx_effect:
  assumes "create_refund_tx e tbl r d = Inr (res, Some d')"
  obtains p new where "find_payment d tbl (rPaymentID r) = Some p" "pStatus p = PaymentSucceeded"
    "0 < rAmount r" "rAmount r \<le> wrap64 (pAmount p - reserved_sum d (rUserID r) (rPaymentID r))"
    "insert_refund (new_refund_row (r\<lparr>rCurrency := pCurrency p\<rparr>)) d = Inr (new, d')" "res = (new, True)"
    "\<forall>x \<in> set (refunds d). \<not> (rUserID x = rUserID r \<and> rIdempotencyKey x = rIdempotencyKey r)"
proof -
  from assms have new: "create_refund_new e tbl r d = Inr (res, Some d')"
    by (auto simp: create_refund_tx_def bindE_Inr split: sum.splits if_splits)
  from new obtain p x where "find_payment d tbl (rPaymentID r) = Some p" "pStatus p = PaymentSucceeded"
    "0 < rAmount r" "rAmount r \<le> wrap64 (pAmount p - reserved_sum d (rUserID r) (rPaymentID r))"
    and ins: "insert_refund (new_refund_row (r\<lparr>rCurrency := pCurrency p\<rparr>)) d = Inr (x, d')" "res = (x, True)"
    by (auto simp: create_refund_new_def bindE_Inr select_payment_def query_row_Inr find_payment_def Let_def
        split: option.splits if_splits)
  moreover have "\<forall>y \<in> set (refunds d). \<not> (rUserID y = rUserID r \<and> rIdempotencyKey y = rIdempotencyKey r)"
    using insert_refund_Inr(1,5) [OF ins(1)] by (auto simp: new_refund_row_def)
  ultimately show thesis by (intro that)
qed

lemma wrap64_available:
  assumes "refunds_inv M d" and "ledger_inv sha d" and "payments_inv d"
    and "find_payment d (table_of sha user) payment = Some p"
  shows "wrap64 (pAmount p - reserved_sum d user payment) = pAmount p - reserved_sum d user payment"
proof (rule wrap64_id)
  have amount: "int64 (pAmount p)"
    using assms(3,4) by (auto simp: find_payment_def payments_inv_def split: option.splits dest: find_Some_set)
  show "int64 (pAmount p - reserved_sum d user payment)"
  proof (cases "\<exists>r \<in> set (refunds d). rUserID r = user \<and> rPaymentID r = payment")
    case True
    then have "reserved_sum d user payment \<le> pAmount p"
      using assms(2,4) by (auto simp: ledger_inv_def covered_def)
    with amount reserved_sum_nonneg [OF assms(1), of user payment] show ?thesis
      by (simp add: int64_def min_int64_def max_int64_def)
  next
    case False
    with amount show ?thesis by (simp add: reserved_sum_none)
  qed
qed

lemma create_refund_ledger:
  assumes inv: "refunds_inv M d" "ledger_inv sha d" "payments_inv d"
    and run: "create_refund_tx e (table_of sha (rUserID r)) r d = Inr (res, Some d')"
  shows "ledger_inv sha d'"
proof -
  let ?u = "rUserID r" and ?i = "rPaymentID r"
  from run obtain p new where p: "find_payment d (table_of sha ?u) ?i = Some p" "pStatus p = PaymentSucceeded"
    and le: "rAmount r \<le> wrap64 (pAmount p - reserved_sum d ?u ?i)"
    and ins: "insert_refund (new_refund_row (r\<lparr>rCurrency := pCurrency p\<rparr>)) d = Inr (new, d')"
    by (rule create_refund_tx_effect) blast
  note i = insert_refund_Inr [OF ins]
  have new: "rUserID new = ?u" "rPaymentID new = ?i" "rAmount new = rAmount r" "rCurrency new = pCurrency p"
    using i(1) by (simp_all add: new_refund_row_def)
  have pay: "find_payment d' = find_payment d"
    by (rule find_payment_cong) (simp add: i(7))
  have sum: "reserved_sum d' u v = reserved_sum d u v + share u v new" for u v
    by (simp add: reserved_sum_share i(7))
  have bound: "reserved_sum d' ?u ?i \<le> pAmount p"
    using le wrap64_available [OF inv p(1)] new sum [of ?u ?i] refund_checks_def i(3)
    by (auto simp: share_def)
  have "covered sha d' x" if x: "covered sha d x" for x
  proof (cases "rUserID x = ?u \<and> rPaymentID x = ?i")
    case True
    with x p bound show ?thesis by (auto simp: covered_def pay)
  next
    case False
    then have "share (rUserID x) (rPaymentID x) new = 0" using new by (auto simp: share_def)
    with x show ?thesis by (auto simp: covered_def pay sum)
  qed
  moreover have "covered sha d' new" using p bound new by (auto simp: covered_def pay)
  ultimately show ?thesis using inv(2) i(7) by (auto simp: ledger_inv_def)
qed

section \<open>The bound\<close>

definition refunded_sum :: "db \<Rightarrow> string \<Rightarrow> string \<Rightarrow> int" where
  "refunded_sum d user payment =
     sum_list (map rAmount
       (filter (\<lambda>r. rUserID r = user \<and> rPaymentID r = payment \<and> rStatus r = RefundSucceeded) (refunds d)))"

lemma refunded_le_reserved:
  assumes "refunds_inv M d"
  shows "refunded_sum d user payment \<le> reserved_sum d user payment"
  unfolding refunded_sum_def reserved_sum_def sum_list_filter
  by (rule sum_list_mono_map)
    (use assms in \<open>auto simp: refunds_inv_def refund_row_inv_def refund_checks_def reserves_def\<close>)

lemma reserved_le_amount:
  assumes "refunds_inv M d" and "ledger_inv sha d"
    and "find_payment d (table_of sha user) payment = Some p" and "0 \<le> pAmount p"
  shows "reserved_sum d user payment \<le> pAmount p"
proof (cases "\<exists>r \<in> set (refunds d). rUserID r = user \<and> rPaymentID r = payment")
  case True
  with assms(2,3) show ?thesis by (auto simp: ledger_inv_def covered_def)
next
  case False
  with assms(4) show ?thesis by (simp add: reserved_sum_none)
qed

end
