(* ===== verification/OutboxStore.thy ===== *)
theory OutboxStore
  imports PaymentStore
begin

text \<open>
  The outbox part of \<open>internal/storage/store.go\<close>: locking a batch of due events, the delivery log,
  and the three ways an event leaves a worker's hands. The lemmas describe what each operation does
  to the outbox table and that none of them touches any other table.
\<close>

section \<open>Operations\<close>

definition outbox_due :: "env \<Rightarrow> go_time \<Rightarrow> OutboxEvent \<Rightarrow> bool" where
  "outbox_due e now x \<longleftrightarrow>
     eStatus x = OutboxPending \<and> eNextAttemptAt x \<le> now \<and>
     (case eLockedUntil x of None \<Rightarrow> True | Some t \<Rightarrow> t \<le> now) \<and> \<not> env_locked e (eID x)"

definition outbox_picked :: "env \<Rightarrow> int \<Rightarrow> go_time \<Rightarrow> db \<Rightarrow> string list" where
  "outbox_picked e limit now d =
     map eID (take (nat limit)
       (sort_key (\<lambda>x. (eNextAttemptAt x, eCreatedAt x)) (filter (outbox_due e now) (outbox_events d))))"

definition outbox_lock_set :: "go_time \<Rightarrow> go_time \<Rightarrow> OutboxEvent \<Rightarrow> OutboxEvent" where
  "outbox_lock_set now lockedUntil x =
     x\<lparr>eLockedUntil := Some lockedUntil, eAttempts := eAttempts x + 1, eUpdatedAt := now\<rparr>"

definition outbox_lock_batch ::
  "env \<Rightarrow> int \<Rightarrow> go_time \<Rightarrow> go_time \<Rightarrow> db \<Rightarrow> go_error + OutboxEvent list \<times> db" where
  "outbox_lock_batch e limit now lockedUntil d =
     (let ids = outbox_picked e limit now d;
          rows = update_where (\<lambda>x. eID x \<in> set ids) (outbox_lock_set now lockedUntil) (outbox_events d);
          returned = filter (\<lambda>x. eID x \<in> set ids) rows in
      if \<exists>x \<in> set returned. eAttempts x > max_int32 then Inl (ErrExternal ''22003'')
      else Inr (returned, d\<lparr>outbox_events := rows\<rparr>))"

definition FetchDueOutboxEvents ::
  "env \<Rightarrow> db \<Rightarrow> int \<Rightarrow> go_time \<Rightarrow> duration \<Rightarrow> (go_error + OutboxEvent list) \<times> db" where
  "FetchDueOutboxEvents e d limit now lockFor =
     (let limit' = (if limit < 1 then 1 else limit);
          lockFor' = (if lockFor \<le> 0 then 30 * Second else lockFor) in
      case autocommit e ''fetch due outbox events'' d
             (outbox_lock_batch e limit' now (time_add now lockFor') d) of
        (Inl err, d') \<Rightarrow> (Inl (wrapf ''fetch due outbox events'' err), d')
      | (Inr events, d') \<Rightarrow>
        (bindE (mapErr (wrapf ''scan outbox event'') (call e ''scan outbox event'')) (\<lambda>_.
         bindE (mapErr (wrapf ''iterate outbox events'') (call e ''iterate outbox events'')) (\<lambda>_.
         Inr events)), d'))"

definition ListDeliveredSubscriptionIDs :: "env \<Rightarrow> db \<Rightarrow> string \<Rightarrow> go_error + string set" where
  "ListDeliveredSubscriptionIDs e d eventID =
     bindE (mapErr (wrapf ''list delivered subscription ids'') (call e ''list delivered subscription ids'')) (\<lambda>_.
     bindE (mapErr (wrapf ''scan delivered subscription id'') (call e ''scan delivered subscription id'')) (\<lambda>_.
     bindE (mapErr (wrapf ''iterate delivered subscription ids'')
       (call e ''iterate delivered subscription ids'')) (\<lambda>_.
     Inr (set (map dSubscriptionID
       (filter (\<lambda>x. dEventID x = eventID \<and> dStatus x = WebhookDeliverySucceeded)
         (webhook_deliveries d)))))))"

definition insert_delivery :: "WebhookDelivery \<Rightarrow> db \<Rightarrow> go_error + unit \<times> db" where
  "insert_delivery x d =
     (if \<not> (dStatus x = WebhookDeliverySucceeded \<or> dStatus x = WebhookDeliveryFailed) \<or>
         dAttempt x < 1 \<or> dDurationMS x < 0 then Inl check_violation
      else if \<exists>y \<in> set (webhook_deliveries d). dID y = dID x then Inl unique_violation
      else if \<not> (\<exists>ev \<in> set (outbox_events d). eID ev = dEventID x) then Inl foreign_key_violation
      else Inr ((), d\<lparr>webhook_deliveries := webhook_deliveries d @ [x]\<rparr>))"

definition RecordWebhookDelivery :: "env \<Rightarrow> db \<Rightarrow> WebhookDelivery \<Rightarrow> (go_error + unit) \<times> db" where
  "RecordWebhookDelivery e d x =
     (case autocommit e ''record webhook delivery'' d
             (insert_delivery (x\<lparr>dHTTPStatus := (if dHTTPStatus x > 0 then dHTTPStatus x else 0)\<rparr>) d) of
        (Inl err, d') \<Rightarrow> (Inl (wrapf ''record webhook delivery'' err), d')
      | (Inr u, d') \<Rightarrow> (Inr u, d'))"

text \<open>\<open>UPDATE outbox_events SET ... WHERE id = $1\<close> with the check on the number of rows.\<close>

definition update_event ::
  "env \<Rightarrow> string \<Rightarrow> string \<Rightarrow> (OutboxEvent \<Rightarrow> OutboxEvent) \<Rightarrow> db \<Rightarrow> (go_error + unit) \<times> db" where
  "update_event e l eventID f d =
     (case autocommit e l d
             (Inr (count_where (\<lambda>x. eID x = eventID) (outbox_events d),
                   d\<lparr>outbox_events := update_where (\<lambda>x. eID x = eventID) f (outbox_events d)\<rparr>)) of
        (Inl err, d') \<Rightarrow> (Inl (wrapf l err), d')
      | (Inr n, d') \<Rightarrow>
        if n = 0 then (Inl (ErrNew (l @ '': event '' @ eventID @ '' not found'')), d') else (Inr (), d'))"

definition delivered_set :: "go_time \<Rightarrow> OutboxEvent \<Rightarrow> OutboxEvent" where
  "delivered_set now x =
     x\<lparr>eStatus := OutboxDelivered, eLockedUntil := None, eLastError := '''', eUpdatedAt := now\<rparr>"

definition retry_set :: "go_time \<Rightarrow> string \<Rightarrow> go_time \<Rightarrow> OutboxEvent \<Rightarrow> OutboxEvent" where
  "retry_set nextAttemptAt lastError now x =
     x\<lparr>eStatus := OutboxPending, eNextAttemptAt := nextAttemptAt, eLockedUntil := None,
       eLastError := lastError, eUpdatedAt := now\<rparr>"

definition dead_letter_set :: "string \<Rightarrow> go_time \<Rightarrow> OutboxEvent \<Rightarrow> OutboxEvent" where
  "dead_letter_set lastError now x =
     x\<lparr>eStatus := OutboxDeadLetter, eLockedUntil := None, eLastError := lastError, eUpdatedAt := now\<rparr>"

definition MarkOutboxEventDelivered :: "env \<Rightarrow> db \<Rightarrow> string \<Rightarrow> go_time \<Rightarrow> (go_error + unit) \<times> db" where
  "MarkOutboxEventDelivered e d eventID now =
     update_event e ''mark outbox event delivered'' eventID (delivered_set now) d"

definition ScheduleOutboxEventRetry ::
  "env \<Rightarrow> db \<Rightarrow> string \<Rightarrow> go_time \<Rightarrow> string \<Rightarrow> go_time \<Rightarrow> (go_error + unit) \<times> db" where
  "ScheduleOutboxEventRetry e d eventID nextAttemptAt lastError now =
     update_event e ''schedule outbox event retry'' eventID (retry_set nextAttemptAt lastError now) d"

definition MarkOutboxEventDeadLetter ::
  "env \<Rightarrow> db \<Rightarrow> string \<Rightarrow> string \<Rightarrow> go_time \<Rightarrow> (go_error + unit) \<times> db" where
  "MarkOutboxEventDeadLetter e d eventID lastError now =
     update_event e ''mark outbox event dead letter'' eventID (dead_letter_set lastError now) d"

section \<open>Effects\<close>

text \<open>All an outbox operation can change: rows of the outbox table (never their number or keys) and
  the delivery log, which only grows.\<close>

definition outbox_effect :: "db \<Rightarrow> db \<Rightarrow> bool" where
  "outbox_effect d d' \<longleftrightarrow>
     (\<exists>evs ds. d' = d\<lparr>outbox_events := evs, webhook_deliveries := webhook_deliveries d @ ds\<rparr> \<and>
        map (\<lambda>x. (eID x, eUserID x, eEventType x, eAggregateType x, eAggregateID x, ePayload x, eCreatedAt x)) evs =
        map (\<lambda>x. (eID x, eUserID x, eEventType x, eAggregateType x, eAggregateID x, ePayload x, eCreatedAt x))
          (outbox_events d))"

lemma outbox_effect_refl [simp]: "outbox_effect d d"
  unfolding outbox_effect_def by (intro exI [of _ "outbox_events d"] exI [of _ "[]"]) simp

lemma outbox_effect_update:
  assumes "\<And>x. p x \<Longrightarrow> eID (f x) = eID x \<and> eUserID (f x) = eUserID x \<and> eEventType (f x) = eEventType x \<and>
    eAggregateType (f x) = eAggregateType x \<and> eAggregateID (f x) = eAggregateID x \<and>
    ePayload (f x) = ePayload x \<and> eCreatedAt (f x) = eCreatedAt x"
  shows "outbox_effect d (d\<lparr>outbox_events := update_where p f (outbox_events d)\<rparr>)"
  unfolding outbox_effect_def
  by (intro exI [of _ "update_where p f (outbox_events d)"] exI [of _ "[]"])
    (auto simp: update_where_def assms)

lemma autocommit_cases:
  assumes "autocommit e l d st = (res, d')"
  shows "d' = d \<or> (\<exists>x. st = Inr (x, d'))"
  using assms by (auto simp: autocommit_def split: option.splits sum.splits prod.splits if_splits)

lemma update_event_effect:
  assumes "update_event e l i f d = (res, d')"
  shows "d' = d \<or> d' = d\<lparr>outbox_events := update_where (\<lambda>x. eID x = i) f (outbox_events d)\<rparr>"
proof -
  obtain r d1 where a: "autocommit e l d (Inr (count_where (\<lambda>x. eID x = i) (outbox_events d),
      d\<lparr>outbox_events := update_where (\<lambda>x. eID x = i) f (outbox_events d)\<rparr>)) = (r, d1)" by fastforce
  then have "d' = d1" using assms by (auto simp: update_event_def split: sum.splits if_splits)
  with autocommit_cases [OF a] show ?thesis by auto
qed

lemma mark_effects:
  "MarkOutboxEventDelivered e d i now = (res, d') \<Longrightarrow> outbox_effect d d'"
  "ScheduleOutboxEventRetry e d i nxt msg now = (res, d') \<Longrightarrow> outbox_effect d d'"
  "MarkOutboxEventDeadLetter e d i msg now = (res, d') \<Longrightarrow> outbox_effect d d'"
  unfolding MarkOutboxEventDelivered_def ScheduleOutboxEventRetry_def MarkOutboxEventDeadLetter_def
  by (auto dest!: update_event_effect intro!: outbox_effect_update
      simp: delivered_set_def retry_set_def dead_letter_set_def)

lemma fetch_effect:
  assumes "FetchDueOutboxEvents e d limit now lockFor = (res, d')"
  shows "outbox_effect d d'"
proof -
  let ?st = "outbox_lock_batch e (if limit < 1 then 1 else limit) now
    (time_add now (if lockFor \<le> 0 then 30 * Second else lockFor)) d"
  obtain r d1 where a: "autocommit e ''fetch due outbox events'' d ?st = (r, d1)" by fastforce
  with assms have "d' = d1"
    by (auto simp: FetchDueOutboxEvents_def Let_def split: sum.splits)
  with autocommit_cases [OF a] show ?thesis
    by (auto simp: outbox_lock_batch_def Let_def outbox_lock_set_def split: if_splits
        intro!: outbox_effect_update)
qed

lemma record_effect:
  assumes "RecordWebhookDelivery e d x = (res, d')"
  shows "outbox_effect d d'"
proof -
  let ?st = "insert_delivery (x\<lparr>dHTTPStatus := (if dHTTPStatus x > 0 then dHTTPStatus x else 0)\<rparr>) d"
  obtain r d1 where a: "autocommit e ''record webhook delivery'' d ?st = (r, d1)" by fastforce
  with assms have "d' = d1" by (auto simp: RecordWebhookDelivery_def split: sum.splits)
  moreover have "outbox_effect d (d\<lparr>webhook_deliveries := webhook_deliveries d @ [y]\<rparr>)" for y
    unfolding outbox_effect_def by (intro exI [of _ "outbox_events d"] exI [of _ "[y]"]) simp
  ultimately show ?thesis
    using autocommit_cases [OF a] by (auto simp: insert_delivery_def split: if_splits)
qed

end
