(* ===== verification/RateLimit.thy ===== *)
theory RateLimit
  imports Database
begin

text \<open>
  \<open>internal/ratelimit/limiter.go\<close>: the fixed-window limiter. A request counts a hit in the window
  of its scope with one upsert and is allowed while the hits of the window are within the limit. The
  lemmas give the decision as a function of the hits before the call, that a refused caller is told
  to wait until the window ends and no longer than one interval, and that of any sequence of
  calls in one window exactly as many succeed as the limit leaves.
\<close>

record Decision =
  dcAllowed :: bool
  dcRemaining :: int
  dcRetryAfter :: duration

record Limiter =
  lmPool :: bool
  lmLimit :: int
  lmInterval :: duration

definition Limit :: "Limiter option \<Rightarrow> int" where
  "Limit l = (case l of None \<Rightarrow> 0 | Some lm \<Rightarrow> lmLimit lm)"

definition window_row :: "string \<Rightarrow> go_time \<Rightarrow> rate_window \<Rightarrow> bool" where
  "window_row scope start w \<longleftrightarrow> rwScope w = scope \<and> rwStart w = start"

definition window_hits :: "string \<Rightarrow> go_time \<Rightarrow> db \<Rightarrow> int" where
  "window_hits scope start d =
     (case find (window_row scope start) (rate_limit_windows d) of None \<Rightarrow> 0 | Some w \<Rightarrow> rwHits w)"

definition upsert_window :: "string \<Rightarrow> go_time \<Rightarrow> go_time \<Rightarrow> db \<Rightarrow> go_error + int \<times> db" where
  "upsert_window scope start now d =
     (case find (window_row scope start) (rate_limit_windows d) of
        None \<Rightarrow>
          Inr (1, d\<lparr>rate_limit_windows := rate_limit_windows d @
            [\<lparr>rwScope = scope, rwStart = start, rwHits = 1, rwCreatedAt = now, rwUpdatedAt = now\<rparr>]\<rparr>)
      | Some w \<Rightarrow>
          if rwHits w + 1 > max_int32 then Inl (ErrExternal ''22003'')
          else Inr (rwHits w + 1, d\<lparr>rate_limit_windows :=
            update_where (window_row scope start)
              (\<lambda>x. x\<lparr>rwHits := rwHits x + 1, rwUpdatedAt := now\<rparr>) (rate_limit_windows d)\<rparr>))"

definition decide_hits :: "Limiter \<Rightarrow> go_time \<Rightarrow> go_time \<Rightarrow> int \<Rightarrow> Decision" where
  "decide_hits lm windowStart now hits =
     (let remaining = wrap64 (lmLimit lm - hits);
          remaining' = (if remaining < 0 then 0 else remaining);
          allowed = (hits \<le> lmLimit lm) in
      \<lparr>dcAllowed = allowed, dcRemaining = remaining',
       dcRetryAfter = (if \<not> allowed then time_sub (time_add windowStart (lmInterval lm)) now else 0)\<rparr>)"

definition Allow ::
  "env \<Rightarrow> db \<Rightarrow> Limiter option \<Rightarrow> string \<Rightarrow> go_time \<Rightarrow> (go_error + Decision) \<times> db" where
  "Allow e d l scopeKey now =
     (case l of
        None \<Rightarrow> (Inr \<lparr>dcAllowed = True, dcRemaining = 0, dcRetryAfter = 0\<rparr>, d)
      | Some lm \<Rightarrow>
        if \<not> lmPool lm \<or> lmLimit lm \<le> 0 \<or> lmInterval lm \<le> 0
        then (Inr \<lparr>dcAllowed = True, dcRemaining = 0, dcRetryAfter = 0\<rparr>, d)
        else
          let scope = TrimSpace scopeKey in
          if scope = '''' then (Inl (ErrNew ''rate limit scope key is required''), d)
          else
            let windowStart = time_truncate now (lmInterval lm) in
            case autocommit e ''upsert rate limit window'' d (upsert_window scope windowStart now d) of
              (Inl err, d') \<Rightarrow> (Inl (wrapf ''upsert rate limit window'' err), d')
            | (Inr hits, d') \<Rightarrow> (Inr (decide_hits lm windowStart now hits), d'))"

lemma autocommit_Inr:
  "autocommit e l d st = (Inr x, d') \<longleftrightarrow> flt e l = None \<and> cmt e l = None \<and> st = Inr (x, d')"
  by (auto simp: autocommit_def split: option.splits sum.splits prod.splits if_splits)

lemma upsert_window_Inr:
  assumes "upsert_window scope start now d = Inr (hits, d')"
  shows "hits = window_hits scope start d + 1" and "window_hits scope start d' = hits"
    and "d' = d\<lparr>rate_limit_windows := rate_limit_windows d'\<rparr>"
proof -
  have app: "find q (xs @ [y]) = (case find q xs of None \<Rightarrow> (if q y then Some y else None) | Some x \<Rightarrow> Some x)"
    for q and xs :: "rate_window list" and y by (induction xs) auto
  have upd: "find (window_row scope start) (update_where (window_row scope start)
      (\<lambda>x. x\<lparr>rwHits := rwHits x + 1, rwUpdatedAt := now\<rparr>) xs) =
    map_option (\<lambda>x. x\<lparr>rwHits := rwHits x + 1, rwUpdatedAt := now\<rparr>) (find (window_row scope start) xs)" for xs
    by (rule find_update_where_same) (simp add: window_row_def)
  show "hits = window_hits scope start d + 1" and "window_hits scope start d' = hits"
    and "d' = d\<lparr>rate_limit_windows := rate_limit_windows d'\<rparr>"
    using assms
    by (auto simp: upsert_window_def window_hits_def app upd window_row_def split: option.splits if_splits)
qed

lemma allow_effect:
  assumes "Allow e d l scopeKey now = (res, d')"
  shows "d' = d\<lparr>rate_limit_windows := rate_limit_windows d'\<rparr>"
proof (cases l)
  case None
  with assms show ?thesis by (auto simp: Allow_def)
next
  case (Some lm)
  let ?up = "upsert_window (TrimSpace scopeKey) (time_truncate now (lmInterval lm)) now d"
  obtain r d1 where a: "autocommit e ''upsert rate limit window'' d ?up = (r, d1)" by fastforce
  then have "d1 = d \<or> (\<exists>h. ?up = Inr (h, d1))"
    by (auto simp: autocommit_def split: option.splits sum.splits prod.splits if_splits)
  then have "d1 = d\<lparr>rate_limit_windows := rate_limit_windows d1\<rparr>"
    using upsert_window_Inr(3) by fastforce
  with assms Some a show ?thesis
    by (auto simp: Allow_def Let_def split: if_splits sum.splits)
qed

section \<open>Counting\<close>

definition limiting :: "Limiter \<Rightarrow> string \<Rightarrow> bool" where
  "limiting lm scopeKey \<longleftrightarrow> lmPool lm \<and> 0 < lmLimit lm \<and> 0 < lmInterval lm \<and> TrimSpace scopeKey \<noteq> ''''"

lemma allow_hit:
  assumes "fault_free e" and "limiting lm scopeKey" and start: "time_truncate now (lmInterval lm) = start"
    and "window_hits (TrimSpace scopeKey) start d < max_int32"
  shows "\<exists>d'. Allow e d (Some lm) scopeKey now =
      (Inr (decide_hits lm start now (window_hits (TrimSpace scopeKey) start d + 1)), d') \<and>
    window_hits (TrimSpace scopeKey) start d' = window_hits (TrimSpace scopeKey) start d + 1"
proof -
  let ?h = "window_hits (TrimSpace scopeKey) start d"
  obtain d' where up: "upsert_window (TrimSpace scopeKey) start now d = Inr (?h + 1, d')"
    using assms(4) by (auto simp: upsert_window_def window_hits_def split: option.splits)
  with assms(1) have "autocommit e ''upsert rate limit window'' d (upsert_window (TrimSpace scopeKey) start now d) = (Inr (?h + 1), d')"
    by (simp add: autocommit_Inr)
  moreover have "window_hits (TrimSpace scopeKey) start d' = ?h + 1"
    using upsert_window_Inr [OF up] by simp
  ultimately show ?thesis
    using assms(2) start by (auto simp: Allow_def limiting_def Let_def)
qed

lemma retry_after_window:
  assumes "0 < lmInterval lm" and "lmInterval lm \<le> max_int64" and "\<not> dcAllowed (decide_hits lm (time_truncate now (lmInterval lm)) now hits)"
  shows "0 < dcRetryAfter (decide_hits lm (time_truncate now (lmInterval lm)) now hits) \<and>
    dcRetryAfter (decide_hits lm (time_truncate now (lmInterval lm)) now hits) \<le> lmInterval lm"
  using assms time_truncate_le [of now "lmInterval lm"] time_truncate_gt [of "lmInterval lm" now]
  by (auto simp: decide_hits_def Let_def time_sub_def time_add_def min_int64_def max_int64_def)

text \<open>A sequence of calls for one scope.\<close>

fun allow_calls :: "env \<Rightarrow> db \<Rightarrow> Limiter option \<Rightarrow> string \<Rightarrow> go_time list \<Rightarrow> (go_error + Decision) list" where
  "allow_calls e d l scopeKey [] = []"
| "allow_calls e d l scopeKey (now # ts) =
     (case Allow e d l scopeKey now of (res, d') \<Rightarrow> res # allow_calls e d' l scopeKey ts)"

definition granted :: "(go_error + Decision) \<Rightarrow> bool" where
  "granted res \<longleftrightarrow> (case res of Inl _ \<Rightarrow> False | Inr dc \<Rightarrow> dcAllowed dc)"

lemma allow_calls_granted:
  assumes "fault_free e" and "limiting lm scopeKey" and "\<forall>t \<in> set ts. time_truncate t (lmInterval lm) = start"
    and "window_hits (TrimSpace scopeKey) start d + int (length ts) \<le> max_int32"
  shows "int (length (filter granted (allow_calls e d (Some lm) scopeKey ts))) =
    min (int (length ts)) (max 0 (lmLimit lm - window_hits (TrimSpace scopeKey) start d))"
  using assms(3,4)
proof (induction ts arbitrary: d)
  case Nil
  then show ?case by simp
next
  case (Cons t ts)
  let ?h = "window_hits (TrimSpace scopeKey) start d"
  obtain d' where a: "Allow e d (Some lm) scopeKey t = (Inr (decide_hits lm start t (?h + 1)), d')"
    and h: "window_hits (TrimSpace scopeKey) start d' = ?h + 1"
    using allow_hit [OF assms(1,2), of t start d] Cons.prems by auto
  have "granted (Inr (decide_hits lm start t (?h + 1))) \<longleftrightarrow> ?h + 1 \<le> lmLimit lm"
    by (simp add: granted_def decide_hits_def Let_def)
  then show ?case using Cons.IH [of d'] Cons.prems a h by auto
qed

lemma retry_after_next_window:
  assumes lim: "limiting lm scopeKey" and "lmInterval lm \<le> max_int64" and run: "Allow e d (Some lm) scopeKey now = (Inr dc, d')"
    and "\<not> dcAllowed dc"
  shows "0 < dcRetryAfter dc \<and> dcRetryAfter dc \<le> lmInterval lm \<and>
    time_truncate now (lmInterval lm) < time_truncate (time_add now (dcRetryAfter dc)) (lmInterval lm)"
proof -
  let ?i = "lmInterval lm" and ?w = "time_truncate now (lmInterval lm)"
  obtain hits where dc: "dc = decide_hits lm ?w now hits"
    using run lim by (auto simp: Allow_def limiting_def Let_def split: prod.splits sum.splits)
  have i: "0 < ?i" using lim by (simp add: limiting_def)
  note b = retry_after_window [OF i assms(2)] time_truncate_le [of now ?i] time_truncate_gt [OF i, of now]
  have "time_add now (dcRetryAfter dc) = ?w + ?i"
    using assms(2,4) b(2,3) i
    by (auto simp: dc decide_hits_def Let_def time_sub_def time_add_def min_int64_def max_int64_def)
  moreover have "(?w + ?i) mod ?i = 0" using i by (simp add: time_truncate_def)
  ultimately have "time_truncate (time_add now (dcRetryAfter dc)) ?i = ?w + ?i"
    using i by (simp add: time_truncate_def [of "?w + ?i"])
  then show ?thesis using b(1) assms(4) i by (simp add: dc)
qed

end
