(* ===== verification/System.thy ===== *)
theory System
  imports Ledger OutboxStore RateLimit
begin

text \<open>
  The running system: one database and any number of processes (API replicas, outbox workers, refund
  workers), each with its own memory of ensured users. A step is one call of one store operation by
  one process with arbitrary arguments, an arbitrary clock and arbitrary failures of the driver, or
  the restart of a process. The whole-system invariant and what a step can do to a payment and to a
  refund hold for every such step, hence in every reachable state.

  Transactions are steps of the relation as wholes: the row locks the store takes (\<open>FOR UPDATE\<close>,
  the advisory lock of an idempotency key) serialise the refund operations. The one transaction whose
  read is not protected, the cancellation of a payment, is treated separately.
\<close>

section \<open>Steps\<close>

record sys =
  sdb :: db
  caches :: "nat \<Rightarrow> string set"

definition sys_init :: sys where
  "sys_init = \<lparr>sdb = empty_db, caches = (\<lambda>_. {})\<rparr>"

definition proc :: "sys \<Rightarrow> nat \<Rightarrow> Store" where
  "proc s i = \<lparr>pool = sdb s, ensuredUsers = caches s i\<rparr>"

definition put_proc :: "sys \<Rightarrow> nat \<Rightarrow> Store \<Rightarrow> sys" where
  "put_proc s i st = \<lparr>sdb = pool st, caches = (caches s)(i := ensuredUsers st)\<rparr>"

inductive sys_step :: "(string \<Rightarrow> string) \<Rightarrow> int \<Rightarrow> sys \<Rightarrow> sys \<Rightarrow> bool" for sha M where
  create_payment: "CreatePayment sha e (proc s i) u p h = (r1, st) \<Longrightarrow> sys_step sha M s (put_proc s i st)"
| get_payment: "GetPayment sha e (proc s i) u x = (r2, st) \<Longrightarrow> sys_step sha M s (put_proc s i st)"
| list_payments: "ListPayments sha e (proc s i) u f = (r3, st) \<Longrightarrow> sys_step sha M s (put_proc s i st)"
| cancel_payment: "CancelPayment sha e (proc s i) u x t = (r4, st) \<Longrightarrow> sys_step sha M s (put_proc s i st)"
| create_subscription:
    "CreateSubscription sha e (proc s i) u sub = (r5, st) \<Longrightarrow> sys_step sha M s (put_proc s i st)"
| list_subscriptions: "ListSubscriptions sha e (proc s i) u = (r6, st) \<Longrightarrow> sys_step sha M s (put_proc s i st)"
| get_subscription: "GetSubscription sha e (proc s i) u x = (r7, st) \<Longrightarrow> sys_step sha M s (put_proc s i st)"
| set_subscription:
    "SetSubscriptionActive sha e (proc s i) u x b t = (r8, st) \<Longrightarrow> sys_step sha M s (put_proc s i st)"
| create_refund: "CreateRefund sha e (proc s i) r = (r9, st) \<Longrightarrow> sys_step sha M s (put_proc s i st)"
| recheck: "RequestRefundRecheck e (sdb s) u x t = (r10, d) \<Longrightarrow> sys_step sha M s (s\<lparr>sdb := d\<rparr>)"
| claim: "ClaimRefund e (sdb s) kind t lease m = (r11, d) \<Longrightarrow> m \<le> M \<Longrightarrow> sys_step sha M s (s\<lparr>sdb := d\<rparr>)"
| apply_outcome: "ApplyRefundOutcome e (sdb s) c out t = (r12, d) \<Longrightarrow> sys_step sha M s (s\<lparr>sdb := d\<rparr>)"
| fetch_events: "FetchDueOutboxEvents e (sdb s) n t lock = (r13, d) \<Longrightarrow> sys_step sha M s (s\<lparr>sdb := d\<rparr>)"
| record_delivery: "RecordWebhookDelivery e (sdb s) dl = (r14, d) \<Longrightarrow> sys_step sha M s (s\<lparr>sdb := d\<rparr>)"
| mark_delivered: "MarkOutboxEventDelivered e (sdb s) x t = (r14, d) \<Longrightarrow> sys_step sha M s (s\<lparr>sdb := d\<rparr>)"
| schedule_retry:
    "ScheduleOutboxEventRetry e (sdb s) x nxt msg t = (r14, d) \<Longrightarrow> sys_step sha M s (s\<lparr>sdb := d\<rparr>)"
| mark_dead: "MarkOutboxEventDeadLetter e (sdb s) x msg t = (r14, d) \<Longrightarrow> sys_step sha M s (s\<lparr>sdb := d\<rparr>)"
| allow: "Allow e (sdb s) l scope t = (r15, d) \<Longrightarrow> sys_step sha M s (s\<lparr>sdb := d\<rparr>)"
| restart: "sys_step sha M s (s\<lparr>caches := (caches s)(i := {})\<rparr>)"

inductive reachable :: "(string \<Rightarrow> string) \<Rightarrow> int \<Rightarrow> sys \<Rightarrow> bool" for sha M where
  init: "reachable sha M sys_init"
| step: "reachable sha M s \<Longrightarrow> sys_step sha M s t \<Longrightarrow> reachable sha M t"

section \<open>The invariant of the database\<close>

definition db_inv :: "(string \<Rightarrow> string) \<Rightarrow> int \<Rightarrow> db \<Rightarrow> bool" where
  "db_inv sha M d \<longleftrightarrow> tenant_inv sha d \<and> payments_inv d \<and> refunds_inv M d \<and> ledger_inv sha d"

definition refunds_step :: "int \<Rightarrow> db \<Rightarrow> db \<Rightarrow> bool" where
  "refunds_step M d d' \<longleftrightarrow>
     (\<forall>r \<in> set (refunds d). \<exists>r' \<in> set (refunds d'). r' = r \<or> refund_row_step M r r')"

text \<open>What one transaction may do, given the invariant.\<close>

definition good :: "(string \<Rightarrow> string) \<Rightarrow> int \<Rightarrow> db \<Rightarrow> db \<Rightarrow> bool" where
  "good sha M d d' \<longleftrightarrow>
     db_inv sha M d' \<and> payments_step d d' \<and> refunds_step M d d' \<and>
     (\<forall>u. registered d u \<longrightarrow> registered d' u)"

lemma refunds_step_same: "refunds d' = refunds d \<Longrightarrow> refunds_step M d d'"
  by (auto simp: refunds_step_def)

lemma good_refl [simp]: "db_inv sha M d \<Longrightarrow> good sha M d d"
  by (simp add: good_def refunds_step_same)

text \<open>Transactions that leave payments, refunds and users alone.\<close>

lemma good_frame:
  assumes "db_inv sha M d" and "app_users d' = app_users d" and "payments_tables d' = payments_tables d"
    and "refunds d' = refunds d"
    and "\<forall>t. webhooks_tables d' t = None \<longleftrightarrow> webhooks_tables d t = None"
  shows "good sha M d d'"
proof -
  have "tenant_inv sha d'"
    using assms by (auto simp: db_inv_def tenant_inv_def tenant_row_ok_def)
  moreover have "ledger_inv sha d'"
    using assms ledger_payments [of sha d d'] payments_step_frame [of d' d] by (simp add: db_inv_def)
  ultimately show ?thesis
    using assms payments_step_frame [of d' d] payments_inv_frame [of d' d]
    by (simp add: good_def db_inv_def refunds_step_same refunds_inv_def registered_def)
qed

lemma good_payments:
  assumes "db_inv sha M d" and "app_users d' = app_users d" and "refunds d' = refunds d"
    and "webhooks_tables d' = webhooks_tables d"
    and "\<forall>t. payments_tables d t \<noteq> None \<longrightarrow> payments_tables d' t \<noteq> None"
    and "payments_step d d'" and "payments_inv d'"
  shows "good sha M d d'"
proof -
  have "tenant_inv sha d'"
    using assms by (auto simp: db_inv_def tenant_inv_def tenant_row_ok_def)
  with assms ledger_payments [of sha d d'] show ?thesis
    by (simp add: good_def db_inv_def refunds_step_same refunds_inv_def registered_def)
qed

lemma good_put_refund:
  assumes inv: "db_inv sha M d" and old: "old \<in> set (refunds d)" and step: "refund_row_step M old new"
    and d': "d' = (put_refund old new d)\<lparr>reconciliation_results := recs\<rparr>"
  shows "good sha M d d'"
proof -
  let ?p = "put_refund old new d"
  have parts: "refunds_inv M ?p" "ledger_inv sha ?p"
    using inv put_refund_inv [OF _ old step] ledger_put_refund [OF _ old step] by (auto simp: db_inv_def)
  have same: "app_users ?p = app_users d" "payments_tables ?p = payments_tables d"
      "webhooks_tables ?p = webhooks_tables d"
    by (simp_all add: put_refund_def)
  have "refunds_step M d ?p"
    using inv old step put_refund_rows [of M d old new] by (auto simp: refunds_step_def db_inv_def)
  then have "refunds_step M d d'" by (simp add: d' refunds_step_def)
  moreover have "db_inv sha M ?p"
    using inv parts same payments_inv_frame [of ?p d]
    by (auto simp: db_inv_def tenant_inv_def tenant_row_ok_def)
  then have "good sha M ?p d'"
    by (rule good_frame) (simp_all add: d')
  ultimately show ?thesis
    using same payments_step_frame [of d' d] by (auto simp: good_def d' registered_def)
qed

lemma good_schema:
  assumes "db_inv sha M d" and "schema_ext d d'" and "tenant_inv sha d'"
  shows "good sha M d d'"
  using assms schema_ext_payments [OF assms(2)] schema_ext_frame [OF assms(2)]
    ledger_payments [of sha d d'] schema_ext_registered [OF assms(2)]
  by (simp add: good_def db_inv_def refunds_step_same refunds_inv_def)

lemma good_trans_schema:
  assumes "good sha M d d1" and "good sha M d1 d2" and "refunds d1 = refunds d"
  shows "good sha M d d2"
  using assms payments_step_trans by (auto simp: good_def refunds_step_def)

section \<open>Every operation is good\<close>

lemma good_tx:
  assumes "run_tx wr e lb lc d body = (res, d')" and "db_inv sha M d"
    and "\<And>x d1. body d = Inr (x, Some d1) \<Longrightarrow> good sha M d d1"
  shows "good sha M d d'"
  using run_tx_atomic [OF assms(1)] assms(2,3) by auto

lemma create_payment_tx_good:
  assumes "db_inv sha M d" and "create_payment_tx e tbl u p h d = Inr (x, Some d')"
  shows "good sha M d d'"
proof -
  from assms(2) obtain rows where r: "payments_tables d tbl = Some rows" "int64 (pAmount p)"
    "\<forall>x \<in> set rows. pID x \<noteq> pID p" and d': "payments_tables d' = (payments_tables d)(tbl \<mapsto> rows @ [p])"
    "app_users d' = app_users d" "refunds d' = refunds d" "webhooks_tables d' = webhooks_tables d"
    by (elim create_payment_tx_effect) auto
  from assms(1) have "payments_inv d" by (simp add: db_inv_def)
  note s = insert_payment_step [OF r(1) this r(2,3) d'(1)]
  show ?thesis
    by (rule good_payments [OF assms(1) d'(2-4) _ s(1,2)]) (auto simp: d')
qed

lemma cancel_payment_tx_good:
  assumes "db_inv sha M d" and "cancel_payment_tx e tbl u i c d = Inr (x, Some d')"
  shows "good sha M d d'"
proof -
  from assms(2) obtain rows p where r: "payments_tables d tbl = Some rows"
    "find (\<lambda>x. pID x = i) rows = Some p" "pStatus p = PaymentPending"
    and d': "payments_tables d' = (payments_tables d)(tbl \<mapsto> update_where (\<lambda>x. pID x = i) (cancelled_at c) rows)"
    "app_users d' = app_users d" "refunds d' = refunds d" "webhooks_tables d' = webhooks_tables d"
    by (elim cancel_payment_tx_effect) auto
  from assms(1) have "payments_inv d" by (simp add: db_inv_def)
  note s = cancel_payment_step [OF r this d'(1)]
  show ?thesis
    by (rule good_payments [OF assms(1) d'(2-4) _ s(1,2)]) (auto simp: d')
qed

lemma webhook_tx_good:
  assumes "db_inv sha M d" and "d' = d\<lparr>webhooks_tables := webhooks_tables d'\<rparr> \<and>
    (\<forall>t. webhooks_tables d' t = None \<longleftrightarrow> webhooks_tables d t = None)"
  shows "good sha M d d'"
  by (rule good_frame [OF assms(1)]) (metis assms(2) db.select_convs db.surjective db.update_convs(4))+

lemma create_refund_tx_good:
  assumes inv: "db_inv sha M d" and M: "0 \<le> M"
    and run: "create_refund_tx e (table_of sha (rUserID r)) r d = Inr (x, Some d')"
  shows "good sha M d d'"
proof -
  from run obtain p :: Payment and new where ins: "insert_refund (new_refund_row (r\<lparr>rCurrency := pCurrency p\<rparr>)) d = Inr (new, d')"
    by (elim create_refund_tx_effect) (rule that)
  note i = insert_refund_Inr [OF ins]
  have same: "app_users d' = app_users d" "payments_tables d' = payments_tables d"
      "webhooks_tables d' = webhooks_tables d" "refunds d' = refunds d @ [new]"
    using i(7) by simp_all
  have "ledger_inv sha d'" "refunds_inv M d'"
    using create_refund_ledger [OF _ _ _ run] insert_refund_inv [OF _ ins M] inv by (auto simp: db_inv_def)
  moreover have "tenant_inv sha d'"
    using inv same by (auto simp: db_inv_def tenant_inv_def tenant_row_ok_def)
  ultimately show ?thesis
    using inv same payments_inv_frame [of d' d] payments_step_frame [of d' d]
    by (auto simp: good_def db_inv_def refunds_step_def registered_def)
qed

text \<open>An operation that ensures the user's tables and then runs one transaction.\<close>

lemma ensure_good:
  assumes "ensureUserSchema sha e st user = (res, st')" and "store_inv sha st" and "db_inv sha M (pool st)"
  shows "good sha M (pool st) (pool st')" and "store_inv sha st'" and "refunds (pool st') = refunds (pool st)"
    and "res = Inr t \<Longrightarrow> t = deriveUserTables sha user"
  using ensureUserSchema_effect [OF assms(1,2)] good_schema [OF assms(3)] schema_ext_frame
  by (auto simp: store_inv_def)

lemma store_inv_pool:
  assumes "store_inv sha st" and "good sha M (pool st) d"
  shows "store_inv sha (st\<lparr>pool := d\<rparr>)"
  using assms by (auto simp: store_inv_def good_def db_inv_def)

definition op_good :: "(string \<Rightarrow> string) \<Rightarrow> int \<Rightarrow> Store \<Rightarrow> Store \<Rightarrow> bool" where
  "op_good sha M st st' \<longleftrightarrow> good sha M (pool st) (pool st') \<and> store_inv sha st'"

lemma ensure_op_good:
  assumes "ensureUserSchema sha e st user = (res, st')" and "store_inv sha st" and "db_inv sha M (pool st)"
  shows "op_good sha M st st'"
  using ensure_good [OF assms] by (simp add: op_good_def)

lemma ensure_tx_good:
  assumes ens: "ensureUserSchema sha e st user = (Inr t, st1)" and inv: "store_inv sha st" "db_inv sha M (pool st)"
    and run: "run_tx wr e lb lc (pool st1) body = (res, d)"
    and body: "\<And>x d1. db_inv sha M (pool st1) \<Longrightarrow> t = deriveUserTables sha user \<Longrightarrow>
      body (pool st1) = Inr (x, Some d1) \<Longrightarrow> good sha M (pool st1) d1"
  shows "op_good sha M st (st1\<lparr>pool := d\<rparr>)"
proof -
  note g = ensure_good [OF ens inv]
  have inv1: "db_inv sha M (pool st1)" using g(1) by (simp add: good_def)
  have "good sha M (pool st1) d"
    using good_tx [OF run inv1] body [OF inv1 g(4)] by blast
  with g show ?thesis
    using good_trans_schema [of sha M "pool st" "pool st1" d] store_inv_pool [of sha st1 M d]
    by (simp add: op_good_def)
qed

lemma store_ops_good:
  assumes inv: "store_inv sha st" "db_inv sha M (pool st)" and M: "0 \<le> M"
  shows "CreatePayment sha e st u p h = (r1, st') \<Longrightarrow> op_good sha M st st'"
    and "GetPayment sha e st u x = (r2, st') \<Longrightarrow> op_good sha M st st'"
    and "ListPayments sha e st u f = (r3, st') \<Longrightarrow> op_good sha M st st'"
    and "CancelPayment sha e st u x t = (r4, st') \<Longrightarrow> op_good sha M st st'"
    and "CreateSubscription sha e st u sub = (r5, st') \<Longrightarrow> op_good sha M st st'"
    and "ListSubscriptions sha e st u = (r6, st') \<Longrightarrow> op_good sha M st st'"
    and "GetSubscription sha e st u x = (r7, st') \<Longrightarrow> op_good sha M st st'"
    and "SetSubscriptionActive sha e st u x b t = (r8, st') \<Longrightarrow> op_good sha M st st'"
    and "CreateRefund sha e st r = (r9, st') \<Longrightarrow> op_good sha M st st'"
proof -
  note ens = ensure_op_good [OF _ inv] and tx = ensure_tx_good [OF _ inv]
  show "CreatePayment sha e st u p h = (r1, st') \<Longrightarrow> op_good sha M st st'"
    by (auto simp: CreatePayment_def split: prod.splits sum.splits intro: ens intro!: tx create_payment_tx_good)
  show "GetPayment sha e st u x = (r2, st') \<Longrightarrow> op_good sha M st st'"
    by (auto simp: GetPayment_def split: prod.splits sum.splits intro: ens)
  show "ListPayments sha e st u f = (r3, st') \<Longrightarrow> op_good sha M st st'"
    by (auto simp: ListPayments_def split: prod.splits sum.splits intro: ens)
  show "CancelPayment sha e st u x t = (r4, st') \<Longrightarrow> op_good sha M st st'"
    by (auto simp: CancelPayment_def split: prod.splits sum.splits intro: ens intro!: tx cancel_payment_tx_good)
  show "CreateSubscription sha e st u sub = (r5, st') \<Longrightarrow> op_good sha M st st'"
    by (auto simp: CreateSubscription_def split: prod.splits sum.splits
        intro: ens intro!: tx webhook_tx_good webhook_tx_effects(1))
  show "ListSubscriptions sha e st u = (r6, st') \<Longrightarrow> op_good sha M st st'"
    by (auto simp: ListSubscriptions_def split: prod.splits sum.splits intro: ens)
  show "GetSubscription sha e st u x = (r7, st') \<Longrightarrow> op_good sha M st st'"
    by (auto simp: GetSubscription_def split: prod.splits sum.splits intro: ens)
  show "SetSubscriptionActive sha e st u x b t = (r8, st') \<Longrightarrow> op_good sha M st st'"
    by (auto simp: SetSubscriptionActive_def split: prod.splits sum.splits
        intro: ens intro!: tx webhook_tx_good webhook_tx_effects(2))
  show "CreateRefund sha e st r = (r9, st') \<Longrightarrow> op_good sha M st st'"
    using create_refund_tx_good [OF _ M]
    by (auto simp: CreateRefund_def split: prod.splits sum.splits intro: ens intro!: tx)
qed

lemma refund_ops_good:
  assumes inv: "db_inv sha M d"
  shows "RequestRefundRecheck e d u x t = (r1, d') \<Longrightarrow> good sha M d d'"
    and "ClaimRefund e d kind t lease m = (r2, d') \<Longrightarrow> m \<le> M \<Longrightarrow> good sha M d d'"
    and "ApplyRefundOutcome e d c out t = (r3, d') \<Longrightarrow> good sha M d d'"
proof -
  have put: "good sha M d (put_refund old new d)" if "old \<in> set (refunds d)" "refund_row_step M old new" for old new
    by (rule good_put_refund [OF inv that, of _ "reconciliation_results d"]) (simp add: put_refund_def)
  show "RequestRefundRecheck e d u x t = (r1, d') \<Longrightarrow> good sha M d d'"
    unfolding RequestRefundRecheck_def
    by (erule good_tx [OF _ inv]) (auto elim!: recheck_tx_effect intro!: put dest: find_Some_set)
  show "good sha M d d'" if run: "ClaimRefund e d kind t lease m = (r2, d')" and m: "m \<le> M"
  proof (cases "kind = ClaimSubmit \<or> kind = ClaimReconcile")
    case True
    with run have tx: "run_tx nowrap e ''begin claim'' ''commit claim'' d (claim_tx e kind t lease m) = (r2, d')"
      by (auto simp: ClaimRefund_def split: if_splits)
    show ?thesis
      by (rule good_tx [OF tx inv]) (auto elim!: claim_tx_effect [OF _ m True] intro!: put)
  next
    case False
    with run inv show ?thesis by (auto simp: ClaimRefund_def)
  qed
  show "ApplyRefundOutcome e d c out t = (r3, d') \<Longrightarrow> good sha M d d'"
    unfolding ApplyRefundOutcome_def
  proof (erule good_tx [OF _ inv])
    fix u d1
    assume "apply_outcome_tx e c out t d = Inr (u, Some d1)"
    then show "good sha M d d1"
      by (rule apply_outcome_tx_effect [where M = M])
        (auto intro!: good_put_refund [OF inv] dest: find_Some_set)
  qed
qed

lemma outbox_effect_good: "db_inv sha M d \<Longrightarrow> outbox_effect d d' \<Longrightarrow> good sha M d d'"
  by (auto simp: outbox_effect_def intro!: good_frame)

lemma allow_good: "db_inv sha M d \<Longrightarrow> Allow e d l scope t = (res, d') \<Longrightarrow> good sha M d d'"
  by (drule allow_effect, erule good_frame)
    (metis db.select_convs db.surjective db.update_convs(9))+

section \<open>Reachable states\<close>

definition sys_inv :: "(string \<Rightarrow> string) \<Rightarrow> int \<Rightarrow> sys \<Rightarrow> bool" where
  "sys_inv sha M s \<longleftrightarrow> db_inv sha M (sdb s) \<and> (\<forall>i. \<forall>u \<in> caches s i. registered (sdb s) u)"

lemma sys_inv_proc: "sys_inv sha M s \<Longrightarrow> store_inv sha (proc s i) \<and> db_inv sha M (pool (proc s i))"
  by (auto simp: sys_inv_def store_inv_def proc_def db_inv_def)

lemma sys_step_good:
  assumes step: "sys_step sha M s t" and inv: "sys_inv sha M s" and M: "0 \<le> M"
  shows "good sha M (sdb s) (sdb t)" and "sys_inv sha M t"
proof -
  have d: "db_inv sha M (sdb s)" using inv by (simp add: sys_inv_def)
  have st: "store_inv sha (proc s i)" "db_inv sha M (pool (proc s i))" for i
    using sys_inv_proc [OF inv] by auto
  have on_store: "good sha M (sdb s) (sdb (put_proc s i st)) \<and> sys_inv sha M (put_proc s i st)"
    if "op_good sha M (proc s i) st" for i st
    using that inv by (auto simp: op_good_def put_proc_def proc_def sys_inv_def store_inv_def good_def)
  have on_db: "sys_inv sha M (s\<lparr>sdb := x\<rparr>)"
    if "good sha M (sdb s) x" for x
    using that inv by (auto simp: sys_inv_def good_def)
  note ops = store_ops_good [OF st M] and rops = refund_ops_good [OF d]
    and eff = outbox_effect_good [OF d]
  from step have "good sha M (sdb s) (sdb t) \<and> sys_inv sha M t"
  proof cases
    case (restart i)
    with inv d show ?thesis by (auto simp: sys_inv_def)
  qed (auto intro!: on_store on_db intro: ops rops mark_effects [THEN eff] fetch_effect [THEN eff]
         record_effect [THEN eff] allow_good [OF d])
  then show "good sha M (sdb s) (sdb t)" and "sys_inv sha M t" by auto
qed

lemma sys_inv_init: "sys_inv sha M sys_init"
  by (simp add: sys_inv_def sys_init_def empty_db_def db_inv_def tenant_inv_def payments_inv_def
      refunds_inv_def ledger_inv_def)

lemma reachable_inv: "reachable sha M s \<Longrightarrow> 0 \<le> M \<Longrightarrow> sys_inv sha M s"
  by (induction rule: reachable.induct) (auto intro: sys_inv_init sys_step_good(2))

text \<open>Runs from a given state.\<close>

abbreviation run :: "(string \<Rightarrow> string) \<Rightarrow> int \<Rightarrow> sys \<Rightarrow> sys \<Rightarrow> bool" where
  "run sha M \<equiv> (sys_step sha M)\<^sup>*\<^sup>*"

lemma run_inv: "run sha M s t \<Longrightarrow> sys_inv sha M s \<Longrightarrow> 0 \<le> M \<Longrightarrow> sys_inv sha M t"
  by (induction rule: rtranclp_induct) (auto intro: sys_step_good(2))

text \<open>A refund is never lost along a run, and its row moves by steps of the row machine only.\<close>

lemma run_refund:
  assumes "run sha M s t" and "sys_inv sha M s" and "0 \<le> M" and "r \<in> set (refunds (sdb s))"
  shows "\<exists>r' \<in> set (refunds (sdb t)). (refund_row_step M)\<^sup>*\<^sup>* r r'"
  using assms
proof (induction rule: rtranclp_induct)
  case base
  then show ?case by blast
next
  case (step t u)
  then obtain r' where r': "r' \<in> set (refunds (sdb t))" "(refund_row_step M)\<^sup>*\<^sup>* r r'" by blast
  have "good sha M (sdb t) (sdb u)"
    using step sys_step_good(1) run_inv by blast
  then obtain r'' where "r'' \<in> set (refunds (sdb u))" "r'' = r' \<or> refund_row_step M r' r''"
    using r'(1) unfolding good_def refunds_step_def by blast
  with r'(2) show ?case by (metis rtranclp.rtrancl_into_rtrancl)
qed

lemma run_payment:
  assumes "run sha M s t" and "sys_inv sha M s" and "0 \<le> M"
  shows "payments_step (sdb s) (sdb t)"
  using assms
proof (induction rule: rtranclp_induct)
  case base
  then show ?case by simp
next
  case (step t u)
  then have "good sha M (sdb t) (sdb u)" using sys_step_good(1) run_inv by blast
  with step show ?case unfolding good_def by (blast intro: payments_step_trans)
qed

lemma row_steps_identity:
  "(refund_row_step M)\<^sup>*\<^sup>* r s \<Longrightarrow> same_identity r s \<and> rVersion r \<le> rVersion s \<and> (rVersion s = rVersion r \<longrightarrow> s = r)"
proof (induction rule: rtranclp_induct)
  case base
  show ?case by (simp add: same_identity_def)
next
  case (step s t)
  with refund_row_step_identity [OF step.hyps(2)] show ?case by (auto simp: same_identity_def)
qed

section \<open>Claims and outcomes\<close>

lemma stale_claim_refused:
  assumes "\<forall>r \<in> set (refunds d). rID r = rID c \<longrightarrow> rVersion r \<noteq> rVersion c"
  shows "snd (ApplyRefundOutcome e d c out now) = d" and "\<exists>err. fst (ApplyRefundOutcome e d c out now) = Inl err"
    and "(\<And>l. flt e l = None) \<Longrightarrow> r \<in> set (refunds d) \<Longrightarrow> rID r = rID c \<Longrightarrow>
      fst (ApplyRefundOutcome e d c out now) = Inl ErrLeaseLost"
proof -
  have no: "\<not> lease_valid r c now" if "find (\<lambda>r. rID r = rID c) (refunds d) = Some r" for r
    using assms find_Some_set [OF that] by (auto simp: lease_valid_def)
  have "\<exists>err. apply_outcome_tx e c out now d = Inl err"
    using no by (cases "apply_outcome_tx e c out now d") (auto simp: apply_outcome_tx_def bindE_Inr query_row_Inr)
  then show "snd (ApplyRefundOutcome e d c out now) = d"
    and "\<exists>err. fst (ApplyRefundOutcome e d c out now) = Inl err"
    by (auto simp: ApplyRefundOutcome_def run_tx_def split: option.splits)
  assume calm: "\<And>l. flt e l = None" and r: "r \<in> set (refunds d)" "rID r = rID c"
  then obtain r' where f: "find (\<lambda>r. rID r = rID c) (refunds d) = Some r'"
    by (cases "find (\<lambda>r. rID r = rID c) (refunds d)") (auto simp: find_None_set)
  then show "fst (ApplyRefundOutcome e d c out now) = Inl ErrLeaseLost"
    using no [OF f] calm
    by (simp add: ApplyRefundOutcome_def run_tx_def apply_outcome_tx_def query_row_def call_def scanRefund_def)
qed

lemma run_reachable: "run sha M s t \<Longrightarrow> reachable sha M s \<Longrightarrow> reachable sha M t"
  by (induction rule: rtranclp_induct) (auto intro: reachable.step)

end
