(* ===== verification/ProviderClient.thy ===== *)
theory ProviderClient
  imports Domain
begin

text \<open>
  \<open>internal/provider/client.go\<close>: the HTTP client of the refund provider. The network is the
  field \<open>ceDo\<close> of \<open>client_env\<close>, a function on the state \<open>'w\<close> of the world behind it; a JSON request body
  is the struct it is marshalled from. The functions of the library the client calls are fields too:
  \<open>ceUnmarshal\<close> (\<open>json.Unmarshal\<close> into a \<open>Result\<close>, \<open>None\<close> for an error), \<open>ceParseTime\<close> (\<open>http.ParseTime\<close>) and
  \<open>ceNewRequest\<close>; \<open>parse_url\<close> (\<open>url.Parse\<close>) is an argument of \<open>NewClient\<close>.

  The theorems show that whatever the network answers, the client hands out only well-formed
  results: the contract \<open>provider_port\<close> the refund worker relies on.
\<close>

section \<open>Types\<close>

type_synonym provider_status = string

definition Succeeded :: provider_status where "Succeeded = ''SUCCEEDED''"
definition Failed :: provider_status where "Failed = ''FAILED''"
definition Processing :: provider_status where "Processing = ''PROCESSING''"
definition Unknown :: provider_status where "Unknown = ''UNKNOWN''"
definition NotFound :: provider_status where "NotFound = ''NOT_FOUND''"

lemma provider_status_neq [simp]:
  "Succeeded \<noteq> Failed" "Succeeded \<noteq> Processing" "Succeeded \<noteq> Unknown" "Succeeded \<noteq> NotFound"
  "Failed \<noteq> Succeeded" "Failed \<noteq> Processing" "Failed \<noteq> Unknown" "Failed \<noteq> NotFound"
  "Processing \<noteq> Succeeded" "Processing \<noteq> Failed" "Processing \<noteq> Unknown" "Processing \<noteq> NotFound"
  "Unknown \<noteq> Succeeded" "Unknown \<noteq> Failed" "Unknown \<noteq> Processing" "Unknown \<noteq> NotFound"
  "NotFound \<noteq> Succeeded" "NotFound \<noteq> Failed" "NotFound \<noteq> Processing" "NotFound \<noteq> Unknown"
  by (simp_all add: Succeeded_def Failed_def Processing_def Unknown_def NotFound_def)

record Result =
  prOperationID :: string
  prStatus :: provider_status
  prRetryable :: bool
  prErrorCode :: string

record Request =
  rqOperationID :: string
  rqPaymentID :: string
  rqAmount :: int
  rqCurrency :: string

record Client =
  clBase :: string
  clKey :: string

text \<open>
  Requests and responses as the client uses them. The body of a response is what the connection
  delivers: bytes, then the end or a read error.
\<close>

record http_request =
  hqMethod :: string
  hqURL :: string
  hqHeaders :: "(string \<times> string) list"
  hqBody :: "Request option"

record http_response =
  hrStatusCode :: int
  hrRetryAfter :: string
  hrBody :: string
  hrBodyError :: "go_error option"

definition MethodGet :: string where "MethodGet = ''GET''"
definition MethodPost :: string where "MethodPost = ''POST''"

lemma method_neq [simp]: "MethodGet \<noteq> MethodPost" "MethodPost \<noteq> MethodGet"
  by (simp_all add: MethodGet_def MethodPost_def)

section \<open>Building a client\<close>

record parsed_url =
  uScheme :: string
  uHost :: string
  uHasUser :: bool
  uRawQuery :: string
  uFragment :: string

definition trim_right_slash :: "string \<Rightarrow> string" where
  "trim_right_slash s = rev (dropWhile (\<lambda>c. c = CHR ''/'') (rev s))"

definition NewClient ::
  "(string \<Rightarrow> parsed_url option) \<Rightarrow> string \<Rightarrow> string \<Rightarrow> duration \<Rightarrow> go_error + Client" where
  "NewClient parse_url base key timeout =
     (case parse_url base of
        None \<Rightarrow> Inl (ErrNew ''invalid provider URL'')
      | Some u \<Rightarrow>
        if uHost u = '''' \<or> (uScheme u \<noteq> ''https'' \<and> uScheme u \<noteq> ''http'') \<or> uHasUser u \<or>
           uRawQuery u \<noteq> '''' \<or> uFragment u \<noteq> ''''
        then Inl (ErrNew ''invalid provider URL'')
        else if key = '''' \<or> timeout \<le> 0
        then Inl (ErrNew ''provider key and positive timeout are required'')
        else Inr \<lparr>clBase = trim_right_slash base, clKey = key\<rparr>)"

section \<open>One call\<close>

definition validStatus :: "provider_status \<Rightarrow> bool" where
  "validStatus s \<longleftrightarrow> s = Succeeded \<or> s = Failed \<or> s = Processing \<or> s = Unknown"

definition ParseRetryAfter :: "(string \<Rightarrow> go_time option) \<Rightarrow> string \<Rightarrow> go_time \<Rightarrow> duration" where
  "ParseRetryAfter parse_time value now =
     (case ParseInt value of
        Some seconds \<Rightarrow>
          if seconds \<le> 0 then 0
          else wrap64 ((if seconds > 86400 then 86400 else seconds) * Second)
      | None \<Rightarrow>
        (case parse_time value of
           None \<Rightarrow> 0
         | Some at \<Rightarrow>
           if \<not> now < at then 0
           else let delay = time_sub at now in if delay > 24 * Hour then 24 * Hour else delay))"

definition provider_error :: "string \<Rightarrow> go_error" where
  "provider_error msg =
     ErrProvider \<lparr>peHTTPStatus = 0, peRetryAfter = 0, pePermanent = False, peConfiguration = False,
       peMessage = msg\<rparr>"

text \<open>\<open>io.ReadAll(io.LimitReader(body, n))\<close>.\<close>

definition read_limited :: "nat \<Rightarrow> http_response \<Rightarrow> go_error + string" where
  "read_limited n res =
     (if n \<le> length (hrBody res) then Inr (take n (hrBody res))
      else case hrBodyError res of Some err \<Rightarrow> Inl err | None \<Rightarrow> Inr (hrBody res))"

definition http_error ::
  "(string \<Rightarrow> go_time option) \<Rightarrow> go_time \<Rightarrow> string \<Rightarrow> http_response \<Rightarrow> go_error" where
  "http_error parse_time now method res =
     ErrProvider
       \<lparr>peHTTPStatus = hrStatusCode res,
        peRetryAfter = ParseRetryAfter parse_time (hrRetryAfter res) now,
        pePermanent = (method = MethodPost \<and> (hrStatusCode res = 400 \<or> hrStatusCode res = 422)),
        peConfiguration = (hrStatusCode res = 401 \<or> hrStatusCode res = 403 \<or> hrStatusCode res = 409 \<or>
          hrStatusCode res \<ge> 300 \<and> hrStatusCode res < 400),
        peMessage = ''provider HTTP '' @ dec (hrStatusCode res)\<rparr>"

definition client_answer ::
  "(string \<Rightarrow> Result option) \<Rightarrow> (string \<Rightarrow> go_time option) \<Rightarrow> go_time \<Rightarrow> string \<Rightarrow> string \<Rightarrow>
   http_response \<Rightarrow> go_error + Result" where
  "client_answer unmarshal parse_time now method i res =
     (if method = MethodGet \<and> hrStatusCode res = 404
      then Inr \<lparr>prOperationID = i, prStatus = NotFound, prRetryable = False, prErrorCode = ''''\<rparr>
      else if hrStatusCode res < 200 \<or> hrStatusCode res \<ge> 300
      then Inl (http_error parse_time now method res)
      else
        (case read_limited 65537 res of
           Inl err \<Rightarrow> Inl (provider_error ''invalid provider response body'')
         | Inr raw \<Rightarrow>
           if length raw > 65536 then Inl (provider_error ''invalid provider response body'')
           else
             (case unmarshal raw of
                None \<Rightarrow> Inl (provider_error ''invalid provider JSON'')
              | Some result \<Rightarrow>
                if prOperationID result \<noteq> i \<or> \<not> validStatus (prStatus result) \<or>
                   prStatus result \<noteq> Failed \<and> prRetryable result
                then Inl (provider_error ''invalid provider operation or status'')
                else Inr result)))"

text \<open>
  \<open>ceNewRequest url\<close> is the error of \<open>http.NewRequestWithContext\<close>, if any; \<open>ceDo\<close> is \<open>http.Client.Do\<close>
  and \<open>ceNow\<close> the clock.
\<close>

type_synonym 'w transport = "'w \<Rightarrow> http_request \<Rightarrow> (go_error + http_response) \<times> 'w"

record 'w client_env =
  ceUnmarshal :: "string \<Rightarrow> Result option"
  ceParseTime :: "string \<Rightarrow> go_time option"
  ceNow :: go_time
  ceNewRequest :: "string \<Rightarrow> string option"
  ceDo :: "'w transport"

definition client_call ::
  "'w client_env \<Rightarrow> Client \<Rightarrow> 'w \<Rightarrow> string \<Rightarrow> string \<Rightarrow> string \<Rightarrow> Request option \<Rightarrow> (go_error + Result) \<times> 'w" where
  "client_call e c w method path i body =
     (case ceNewRequest e (clBase c @ path) of
        Some msg \<Rightarrow> (Inl (ErrExternal msg), w)
      | None \<Rightarrow>
        (case ceDo e w
                \<lparr>hqMethod = method, hqURL = clBase c @ path,
                 hqHeaders =
                   [(''Authorization'', ''Bearer '' @ clKey c), (''Content-Type'', ''application/json'')] @
                   (if method = MethodPost then [(''Idempotency-Key'', i)] else []),
                 hqBody = body\<rparr> of
           (Inl err, w') \<Rightarrow> (Inl (provider_error (''provider transport error: '' @ error_text err)), w')
         | (Inr res, w') \<Rightarrow> (client_answer (ceUnmarshal e) (ceParseTime e) (ceNow e) method i res, w')))"

text \<open>\<open>url.PathEscape\<close>.\<close>

definition upper_hex :: "nat \<Rightarrow> char" where
  "upper_hex n = (if n < 10 then char_of (48 + n) else char_of (55 + n))"

definition ascii_letter :: "char \<Rightarrow> bool" where
  "ascii_letter c \<longleftrightarrow> (of_char c :: nat) \<in> {65..90} \<union> {97..122}"

definition path_safe :: "char \<Rightarrow> bool" where
  "path_safe c \<longleftrightarrow> ascii_letter c \<or> is_digit c \<or> c \<in> set ''-_.~$&+=:@''"

definition PathEscape :: "string \<Rightarrow> string" where
  "PathEscape s =
     concat (map (\<lambda>c. if path_safe c then [c]
       else [CHR ''%'', upper_hex (of_char c div 16), upper_hex (of_char c mod 16)]) s)"

definition Submit :: "'w client_env \<Rightarrow> Client \<Rightarrow> 'w \<Rightarrow> Refund \<Rightarrow> (go_error + Result) \<times> 'w" where
  "Submit e c w r =
     client_call e c w MethodPost ''/refunds'' (rID r)
       (Some \<lparr>rqOperationID = rID r, rqPaymentID = rPaymentID r, rqAmount = rAmount r, rqCurrency = rCurrency r\<rparr>)"

definition Lookup :: "'w client_env \<Rightarrow> Client \<Rightarrow> 'w \<Rightarrow> string \<Rightarrow> (go_error + Result) \<times> 'w" where
  "Lookup e c w i = client_call e c w MethodGet (''/refunds/'' @ PathEscape i) i None"

section \<open>What the client promises\<close>

text \<open>The contract of a \<open>refunds.Provider\<close>: every answer without an error is about the operation
  asked for, has a known status, and is retryable only when it failed.\<close>

definition answer_ok :: "bool \<Rightarrow> string \<Rightarrow> go_error + Result \<Rightarrow> bool" where
  "answer_ok lookup i a \<longleftrightarrow>
     (case a of
        Inr res \<Rightarrow> prOperationID res = i \<and> (validStatus (prStatus res) \<or> lookup \<and> prStatus res = NotFound) \<and>
          (prRetryable res \<longrightarrow> prStatus res = Failed)
      | Inl err \<Rightarrow>
        (case errors_as_provider err of
           None \<Rightarrow> True
         | Some pe \<Rightarrow> 0 \<le> peRetryAfter pe \<and> peRetryAfter pe \<le> 24 * Hour \<and> \<not> (pePermanent pe \<and> lookup)))"

locale provider_port =
  fixes submit :: "'w \<Rightarrow> Refund \<Rightarrow> (go_error + Result) \<times> 'w"
    and lookup :: "'w \<Rightarrow> string \<Rightarrow> (go_error + Result) \<times> 'w"
  assumes submit_ok: "submit w r = (a, w') \<Longrightarrow> answer_ok False (rID r) a"
    and lookup_ok: "lookup w i = (a, w') \<Longrightarrow> answer_ok True i a"

lemma ParseRetryAfter_bounds: "0 \<le> ParseRetryAfter pt v now \<and> ParseRetryAfter pt v now \<le> 24 * Hour"
proof (cases "ParseInt v")
  case None
  then show ?thesis
    by (auto simp: ParseRetryAfter_def time_sub_def Let_def Hour_def Minute_def Second_def
        min_int64_def max_int64_def split: option.splits)
next
  case (Some n)
  define k where "k = (if n > 86400 then 86400 else n)"
  have "wrap64 (k * Second) = k * Second" if "0 < n"
    using that by (intro wrap64_id) (simp add: k_def int64_def min_int64_def max_int64_def Second_def)
  with Some show ?thesis
    by (auto simp: ParseRetryAfter_def k_def Second_def Hour_def Minute_def)
qed

lemma client_answer_ok: "answer_ok (method = MethodGet) i (client_answer um pt now method i res)"
  using ParseRetryAfter_bounds [of pt]
  by (auto simp: client_answer_def answer_ok_def http_error_def provider_error_def validStatus_def
      Hour_def Minute_def Second_def split: sum.splits option.splits)

lemma answer_ok_plain [simp]:
  "answer_ok l i (Inl (ErrExternal msg))" "answer_ok l i (Inl (provider_error msg))"
  by (simp_all add: answer_ok_def provider_error_def Hour_def Minute_def Second_def)

lemma client_call_ok: "client_call e c w method path i body = (a, w') \<Longrightarrow> answer_ok (method = MethodGet) i a"
  by (auto simp: client_call_def client_answer_ok split: option.splits prod.splits sum.splits)

interpretation http_provider: provider_port "Submit e c" "Lookup e c"
proof
  show "answer_ok False (rID r) a" if "Submit e c w r = (a, w')" for w r a w'
    using client_call_ok [OF that [unfolded Submit_def]] by simp
  show "answer_ok True i a" if "Lookup e c w i = (a, w')" for w i a w'
    using client_call_ok [OF that [unfolded Lookup_def]] by simp
qed

end
