(* ===== verification/RefundWorker.thy ===== *)
theory RefundWorker
  imports RefundStore ProviderClient
begin

text \<open>
  \<open>internal/refunds/worker.go\<close>: the worker that claims refunds, submits them to the provider or asks
  it about them, and stores what to do next.

  The provider is a pair of functions on the state \<open>'w\<close> of the provider's side. What an attempt takes
  from outside is its record \<open>attempt_env\<close>: the two readings of the clock, the random number of the
  jitter, the environments of the two transactions, and what other processes do to the database
  while the provider is being called. Logging is left out.
\<close>

section \<open>Options\<close>

record Options =
  woPollInterval :: duration
  woLeaseDuration :: duration
  woRequestTimeout :: duration
  woCheckInterval :: duration
  woInitialBackoff :: duration
  woMaxBackoff :: duration
  woStuckAfter :: duration
  woMaxAttempts :: int
  woMaxCheckFailures :: int
  woBatchSize :: int

definition DefaultOptions :: Options where
  "DefaultOptions =
     \<lparr>woPollInterval = Second, woLeaseDuration = 30 * Second, woRequestTimeout = 5 * Second,
      woCheckInterval = 30 * Second, woInitialBackoff = 2 * Second, woMaxBackoff = Minute,
      woStuckAfter = 10 * Minute, woMaxAttempts = 5, woMaxCheckFailures = 5, woBatchSize = 10\<rparr>"

definition Validate :: "Options \<Rightarrow> go_error option" where
  "Validate opts =
     (if woPollInterval opts \<le> 0 \<or> woRequestTimeout opts \<le> 0 \<or>
         woLeaseDuration opts < wrap64 (2 * woRequestTimeout opts) \<or>
         woCheckInterval opts \<le> 0 \<or> woInitialBackoff opts \<le> 0 \<or> woMaxBackoff opts < woInitialBackoff opts \<or>
         woStuckAfter opts \<le> 0 \<or> woMaxAttempts opts < 1 \<or> woMaxCheckFailures opts < 1 \<or> woBatchSize opts < 1
      then Some (ErrNew ''invalid refund worker options; lease must be at least twice the request timeout'')
      else None)"

section \<open>Backoff\<close>

function backoff_loop :: "Options \<Rightarrow> int \<Rightarrow> int \<Rightarrow> duration \<Rightarrow> duration" where
  "backoff_loop opts attempt i delay =
     (if i < attempt \<and> delay < woMaxBackoff opts then
        if delay > woMaxBackoff opts sdiv 2 then woMaxBackoff opts
        else backoff_loop opts attempt (i + 1) (wrap64 (delay * 2))
      else delay)"
  by pat_completeness auto
termination
  by (relation "measure (\<lambda>(opts, attempt, i, delay). nat (attempt - i))") auto

declare backoff_loop.simps [simp del]

definition base_backoff :: "Options \<Rightarrow> int \<Rightarrow> duration" where
  "base_backoff opts attempt =
     (let delay = backoff_loop opts attempt 1 (woInitialBackoff opts)
      in if delay > woMaxBackoff opts then woMaxBackoff opts else delay)"

text \<open>\<open>rand.Int64N(n)\<close> for positive \<open>n\<close>: some number from 0 to \<open>n - 1\<close>, chosen by \<open>k\<close>.\<close>

definition Int64N :: "nat \<Rightarrow> int \<Rightarrow> int" where
  "Int64N k n = int k mod n"

definition jitter :: "nat \<Rightarrow> duration \<Rightarrow> duration" where
  "jitter k d = (let half = d sdiv 2 in half + Int64N k (d - half + 1))"

definition backoff :: "Options \<Rightarrow> nat \<Rightarrow> int \<Rightarrow> duration" where
  "backoff opts k attempt = jitter k (base_backoff opts attempt)"

section \<open>Deciding\<close>

definition stuck :: "Options \<Rightarrow> Refund \<Rightarrow> go_time \<Rightarrow> bool" where
  "stuck opts r now \<longleftrightarrow>
     (case rProcessingStartedAt r of None \<Rightarrow> False | Some t \<Rightarrow> time_sub now t \<ge> woStuckAfter opts)"

definition decide_error :: "Options \<Rightarrow> nat \<Rightarrow> Refund \<Rightarrow> go_error \<Rightarrow> go_time \<Rightarrow> bool \<Rightarrow> Outcome \<Rightarrow> Outcome" where
  "decide_error opts k r err now lookup out0 =
     (let out = out0\<lparr>oLastError := error_text err, oCheckFailures := rCheckFailures r\<rparr>;
          pe = errors_as_provider err
      in if (case pe of None \<Rightarrow> False | Some p \<Rightarrow> pePermanent p \<and> \<not> lookup)
         then out\<lparr>oStatus := RefundFailed\<rparr>
         else if (case pe of None \<Rightarrow> False | Some p \<Rightarrow> peConfiguration p)
         then out\<lparr>oManualReview := True\<rparr>
         else
           let failures = (if lookup then rCheckFailures r + 1 else rCheckFailures r);
               delay = backoff opts k (max (rAttempts r) failures);
               delay = (case pe of None \<Rightarrow> delay | Some p \<Rightarrow> if peRetryAfter p > delay then peRetryAfter p else delay)
           in out\<lparr>oCheckFailures := failures, oNextActionAt := time_add now delay,
                  oManualReview := failures \<ge> woMaxCheckFailures opts\<rparr>)"

definition decide_result :: "Options \<Rightarrow> nat \<Rightarrow> Refund \<Rightarrow> Result \<Rightarrow> go_time \<Rightarrow> bool \<Rightarrow> Outcome \<Rightarrow> Outcome" where
  "decide_result opts k r result now lookup out =
     (if prOperationID result \<noteq> rID r
      then out\<lparr>oLastError := ''provider operation ID mismatch'', oManualReview := True\<rparr>
      else if prStatus result = Succeeded then out\<lparr>oStatus := RefundSucceeded\<rparr>
      else if prStatus result = Failed then
        let again = prRetryable result \<and> rAttempts r < woMaxAttempts opts
        in out\<lparr>oStatus := RefundFailed, oRetryable := again,
               oNextActionAt := time_add now (backoff opts k (rAttempts r)),
               oLastError := (if prRetryable result \<and> \<not> again
                 then ''retry attempts exhausted: '' @ prErrorCode result else prErrorCode result)\<rparr>
      else if prStatus result = NotFound then
        if \<not> lookup
        then out\<lparr>oLastError := ''invalid NOT_FOUND response to submit'', oManualReview := True\<rparr>
        else if rAttempts r \<ge> woMaxAttempts opts
        then out\<lparr>oManualReview := True,
                 oLastError := ''operation not found after retry limit; verify no delayed request can still complete''\<rparr>
        else out\<lparr>oStatus := RefundFailed, oRetryable := True,
                 oNextActionAt := time_add now (backoff opts k (rAttempts r)),
                 oLastError := ''provider confirmed operation not found; retry with the same operation ID''\<rparr>
      else if prStatus result = Processing then
        if stuck opts r now
        then out\<lparr>oManualReview := True, oLastError := ''provider operation is stuck in PROCESSING''\<rparr>
        else out
      else if prStatus result = Unknown then
        let failures = rCheckFailures r + 1
        in out\<lparr>oCheckFailures := failures, oLastError := ''provider cannot determine operation status'',
               oNextActionAt := time_add now (backoff opts k failures),
               oManualReview := failures \<ge> woMaxCheckFailures opts \<or> stuck opts r now\<rparr>
      else out\<lparr>oManualReview := True, oLastError := ''unsupported provider status''\<rparr>)"

definition decide :: "Options \<Rightarrow> nat \<Rightarrow> Refund \<Rightarrow> go_error + Result \<Rightarrow> go_time \<Rightarrow> bool \<Rightarrow> Outcome" where
  "decide opts k r answer now lookup =
     (let out = \<lparr>oStatus = RefundProcessing, oRetryable = False, oManualReview = False, oLastError = '''',
                 oCheckFailures = 0, oNextActionAt = time_add now (woCheckInterval opts), oReconciliation = None\<rparr>
      in case answer of
           Inl err \<Rightarrow> decide_error opts k r err now lookup out
         | Inr result \<Rightarrow> decide_result opts k r result now lookup out)"

section \<open>Attempts\<close>

record 'w Provider =
  pvSubmit :: "'w \<Rightarrow> Refund \<Rightarrow> (go_error + Result) \<times> 'w"
  pvLookup :: "'w \<Rightarrow> string \<Rightarrow> (go_error + Result) \<times> 'w"

text \<open>The interface \<open>WorkerRepository\<close> on a repository state \<open>'d\<close>, and the store as the program passes it.\<close>

record 'd WorkerRepository =
  wrClaimRefund :: "env \<Rightarrow> 'd \<Rightarrow> claim_kind \<Rightarrow> go_time \<Rightarrow> duration \<Rightarrow> int \<Rightarrow> (go_error + Refund option) \<times> 'd"
  wrApplyRefundOutcome :: "env \<Rightarrow> 'd \<Rightarrow> Refund \<Rightarrow> Outcome \<Rightarrow> go_time \<Rightarrow> (go_error + unit) \<times> 'd"

definition store_repository :: "db WorkerRepository" where
  "store_repository = \<lparr>wrClaimRefund = ClaimRefund, wrApplyRefundOutcome = ApplyRefundOutcome\<rparr>"

lemma store_repository_simps [simp]:
  "wrClaimRefund store_repository = ClaimRefund" "wrApplyRefundOutcome store_repository = ApplyRefundOutcome"
  by (simp_all add: store_repository_def)

record 'd attempt_env =
  atClaim :: env
  atClaimedAt :: go_time
  atOthers :: "'d \<Rightarrow> 'd"
  atRand :: nat
  atNow :: go_time
  atSave :: env

definition save ::
  "'d WorkerRepository \<Rightarrow> 'd attempt_env \<Rightarrow> Refund \<Rightarrow> Outcome \<Rightarrow> 'd \<Rightarrow> go_error option \<times> 'd" where
  "save repo a r out d =
     (case wrApplyRefundOutcome repo (atSave a) d r out (atNow a) of
        (Inl err, d') \<Rightarrow> (Some (wrapf (''save refund '' @ rID r) err), d')
      | (Inr _, d') \<Rightarrow> (None, d'))"

definition ProcessOnce ::
  "Options \<Rightarrow> 'd WorkerRepository \<Rightarrow> 'w Provider \<Rightarrow> 'd attempt_env \<Rightarrow> 'd \<times> 'w \<Rightarrow>
   (bool \<times> go_error option) \<times> 'd \<times> 'w" where
  "ProcessOnce opts repo p a s =
     (case wrClaimRefund repo (atClaim a) (fst s) ClaimSubmit (atClaimedAt a) (woLeaseDuration opts) (woMaxAttempts opts) of
        (Inl err, d1) \<Rightarrow> ((False, Some err), d1, snd s)
      | (Inr None, d1) \<Rightarrow> ((False, None), d1, snd s)
      | (Inr (Some r), d1) \<Rightarrow>
        (case pvSubmit p (snd s) r of
           (answer, w) \<Rightarrow>
             (case save repo a r (decide opts (atRand a) r answer (atNow a) False) (atOthers a d1) of
                (err, d2) \<Rightarrow> ((True, err), d2, w))))"

definition reconcile_action :: "Refund \<Rightarrow> go_error + Result \<Rightarrow> Outcome \<Rightarrow> string" where
  "reconcile_action r answer out =
     (if oManualReview out then ''manual_review''
      else if oStatus out = RefundFailed \<and> oRetryable out then ''retry_scheduled''
      else if oStatus out \<noteq> rStatus r then ''corrected''
      else case answer of
             Inl _ \<Rightarrow> ''provider_error''
           | Inr result \<Rightarrow> if prStatus result = Unknown then ''unknown'' else ''matched'')"

definition reconciled :: "Refund \<Rightarrow> go_error + Result \<Rightarrow> Outcome \<Rightarrow> Outcome" where
  "reconciled r answer out =
     out\<lparr>oReconciliation := Some
       \<lparr>recID = '''', recOperationID = '''', recLocalStatus = '''',
        recExternalStatus = (case answer of Inl _ \<Rightarrow> ''ERROR'' | Inr result \<Rightarrow> prStatus result),
        recResult = reconcile_action r answer out, recDetail = oLastError out, recCheckedAt = 0\<rparr>\<rparr>"

definition ReconcileOnce ::
  "Options \<Rightarrow> 'd WorkerRepository \<Rightarrow> 'w Provider \<Rightarrow> 'd attempt_env \<Rightarrow> 'd \<times> 'w \<Rightarrow>
   (bool \<times> go_error option) \<times> 'd \<times> 'w" where
  "ReconcileOnce opts repo p a s =
     (case wrClaimRefund repo (atClaim a) (fst s) ClaimReconcile (atClaimedAt a) (woLeaseDuration opts) (woMaxAttempts opts) of
        (Inl err, d1) \<Rightarrow> ((False, Some err), d1, snd s)
      | (Inr None, d1) \<Rightarrow> ((False, None), d1, snd s)
      | (Inr (Some r), d1) \<Rightarrow>
        (case pvLookup p (snd s) (rID r) of
           (answer, w) \<Rightarrow>
             (case save repo a r (reconciled r answer (decide opts (atRand a) r answer (atNow a) True)) (atOthers a d1) of
                (err, d2) \<Rightarrow> ((True, err), d2, w))))"

text \<open>
  One pass of the loop of \<open>Run\<close>: at most \<open>BatchSize\<close> rounds, until a round finds nothing to do or the
  context is done (\<open>rdDone\<close>). \<open>Run\<close> itself is one pass per tick until the context is done.
\<close>

record 'd round_env =
  rdReconcile :: "'d attempt_env"
  rdProcess :: "'d attempt_env"
  rdDone :: bool

fun run_rounds ::
  "Options \<Rightarrow> 'd WorkerRepository \<Rightarrow> 'w Provider \<Rightarrow> nat \<Rightarrow> (nat \<Rightarrow> 'd round_env) \<Rightarrow> 'd \<times> 'w \<Rightarrow> 'd \<times> 'w" where
  "run_rounds opts repo p 0 rd s = s"
| "run_rounds opts repo p (Suc n) rd s =
     (case ReconcileOnce opts repo p (rdReconcile (rd 0)) s of
        ((reconciled_any, _), s1) \<Rightarrow>
          (case ProcessOnce opts repo p (rdProcess (rd 0)) s1 of
             ((processed, _), s2) \<Rightarrow>
               if \<not> reconciled_any \<and> \<not> processed \<or> rdDone (rd 0) then s2
               else run_rounds opts repo p n (\<lambda>i. rd (Suc i)) s2))"

fun Run ::
  "Options \<Rightarrow> 'd WorkerRepository \<Rightarrow> 'w Provider \<Rightarrow> (nat \<Rightarrow> 'd round_env) list \<Rightarrow> 'd \<times> 'w \<Rightarrow> 'd \<times> 'w" where
  "Run opts repo p [] s = s"
| "Run opts repo p (rd # ticks) s = Run opts repo p ticks (run_rounds opts repo p (nat (woBatchSize opts)) rd s)"

section \<open>The backoff is exponential and capped\<close>

lemma sdiv2: "0 \<le> x \<Longrightarrow> x sdiv 2 = x div (2 :: int)"
  by (cases "x = 0") (simp_all add: signed_divide_int_def)

lemma backoff_loop_closed:
  assumes "0 < delay" "delay \<le> woMaxBackoff opts" "woMaxBackoff opts \<le> max_int64"
  shows "backoff_loop opts attempt i delay = min (woMaxBackoff opts) (delay * 2 ^ nat (attempt - i))"
  using assms
proof (induction opts attempt i delay rule: backoff_loop.induct)
  case (1 opts attempt i delay)
  let ?M = "woMaxBackoff opts"
  show ?case
  proof (cases "i < attempt \<and> delay < ?M")
    case False
    then have "attempt \<le> i \<or> delay = ?M" using "1.prems" by auto
    moreover have "?M \<le> ?M * 2 ^ nat (attempt - i)" using "1.prems" by simp
    ultimately show ?thesis using False "1.prems" by (auto simp: backoff_loop.simps [of opts])
  next
    case True
    have pow: "(2 :: int) ^ nat (attempt - i) = 2 * 2 ^ nat (attempt - (i + 1))"
      using True by (simp flip: power_Suc add: nat_diff_distrib' Suc_nat_eq_nat_zadd1)
    show ?thesis
    proof (cases "delay > ?M sdiv 2")
      case big: True
      have "?M \<le> delay * 2" using big "1.prems" by (simp add: sdiv2)
      also have "\<dots> \<le> delay * 2 ^ nat (attempt - i)" using "1.prems" by (simp add: pow)
      finally show ?thesis using True big by (simp add: backoff_loop.simps [of opts])
    next
      case small: False
      have d2: "delay * 2 \<le> ?M" using small "1.prems" by (simp add: sdiv2)
      moreover have "wrap64 (delay * 2) = delay * 2"
        using d2 "1.prems" by (intro wrap64_id) (simp add: int64_def min_int64_def max_int64_def)
      ultimately show ?thesis
        using True small "1.IH" "1.prems" by (simp add: backoff_loop.simps [of opts] pow mult.assoc)
    qed
  qed
qed

lemma ValidateD:
  assumes "Validate opts = None"
  shows "0 < woCheckInterval opts" "0 < woInitialBackoff opts" "woInitialBackoff opts \<le> woMaxBackoff opts"
    "1 \<le> woMaxAttempts opts" "1 \<le> woMaxCheckFailures opts" "0 < woStuckAfter opts" "0 < woRequestTimeout opts"
  using assms by (auto simp: Validate_def split: if_splits)

lemma base_backoff_closed:
  assumes "Validate opts = None" "woMaxBackoff opts \<le> max_int64"
  shows "base_backoff opts attempt = min (woMaxBackoff opts) (woInitialBackoff opts * 2 ^ nat (attempt - 1))"
  using backoff_loop_closed [of "woInitialBackoff opts" opts attempt 1] ValidateD [OF assms(1)] assms(2)
  by (simp add: base_backoff_def Let_def)

lemma jitter_bounds:
  assumes "0 < d"
  shows "d div 2 \<le> jitter k d \<and> jitter k d \<le> d"
proof -
  have "d div 2 \<le> d" using assms by linarith
  then show ?thesis
    using assms pos_mod_bound [of "d - d div 2 + 1" "int k"] pos_mod_sign [of "d - d div 2 + 1" "int k"]
    by (simp add: jitter_def Int64N_def sdiv2 Let_def)
qed

lemma jitter_surj: "0 < d \<Longrightarrow> d div 2 \<le> x \<Longrightarrow> x \<le> d \<Longrightarrow> jitter (nat (x - d div 2)) d = x"
  by (simp add: jitter_def Int64N_def sdiv2 Let_def)

lemma base_backoff_pos:
  assumes "Validate opts = None" "woMaxBackoff opts \<le> max_int64"
  shows "0 < base_backoff opts attempt" "base_backoff opts attempt \<le> woMaxBackoff opts"
  using ValidateD [OF assms(1)] by (simp_all add: base_backoff_closed [OF assms] less_le_trans)

section \<open>What the worker decides\<close>

lemmas decide_defs = decide_def decide_error_def decide_result_def

lemma decide_status:
  "oStatus (decide opts k r answer now lookup) \<in> {RefundProcessing, RefundSucceeded, RefundFailed}"
  by (cases answer) (auto simp: decide_defs Let_def)

lemma decide_retryable:
  "oRetryable (decide opts k r answer now lookup) \<Longrightarrow>
     oStatus (decide opts k r answer now lookup) = RefundFailed \<and> rAttempts r < woMaxAttempts opts"
  by (cases answer) (auto simp: decide_defs Let_def split: if_splits)

lemma decide_again:
  "oRetryable (decide opts k r answer now lookup) \<longleftrightarrow>
     (\<exists>res. answer = Inr res \<and> prOperationID res = rID r \<and> rAttempts r < woMaxAttempts opts \<and>
       (prStatus res = Failed \<and> prRetryable res \<or> prStatus res = NotFound \<and> lookup))"
  by (cases answer) (auto simp: decide_defs Let_def)

lemma decide_review:
  "oManualReview (decide opts k r answer now lookup) \<Longrightarrow> oStatus (decide opts k r answer now lookup) = RefundProcessing"
  by (cases answer) (auto simp: decide_defs Let_def split: if_splits)

lemma decide_failures:
  "0 \<le> rCheckFailures r \<Longrightarrow>
     0 \<le> oCheckFailures (decide opts k r answer now lookup) \<and>
     oCheckFailures (decide opts k r answer now lookup) \<le> rCheckFailures r + 1"
  by (cases answer) (auto simp: decide_defs Let_def)

lemma decide_reconciliation [simp]: "oReconciliation (decide opts k r answer now lookup) = None"
  by (cases answer) (auto simp: decide_defs Let_def)

lemma decide_succeeded:
  "oStatus (decide opts k r answer now lookup) = RefundSucceeded \<longleftrightarrow>
     (\<exists>res. answer = Inr res \<and> prOperationID res = rID r \<and> prStatus res = Succeeded)"
  by (cases answer) (auto simp: decide_defs Let_def)

lemma decide_dead:
  "oStatus (decide opts k r answer now lookup) = RefundFailed \<and> \<not> oRetryable (decide opts k r answer now lookup) \<longleftrightarrow>
     (\<exists>err pe. answer = Inl err \<and> errors_as_provider err = Some pe \<and> pePermanent pe \<and> \<not> lookup) \<or>
     (\<exists>res. answer = Inr res \<and> prOperationID res = rID r \<and> prStatus res = Failed \<and>
       (prRetryable res \<longrightarrow> woMaxAttempts opts \<le> rAttempts r))"
proof (cases answer)
  case (Inl err)
  then show ?thesis by (cases "errors_as_provider err") (auto simp: decide_def decide_error_def Let_def)
next
  case (Inr res)
  then show ?thesis by (auto simp: decide_def decide_result_def Let_def)
qed

lemma decide_next_action:
  assumes "Validate opts = None" and "woMaxBackoff opts \<le> max_int64" and "answer_ok lookup i answer"
    and "out = decide opts k r answer now lookup"
  shows "now \<le> oNextActionAt out \<and>
    oNextActionAt out \<le> now + max (woCheckInterval opts) (max (woMaxBackoff opts) (24 * Hour))"
proof -
  have b: "0 \<le> backoff opts k n" "backoff opts k n \<le> woMaxBackoff opts" for n
    using jitter_bounds [OF base_backoff_pos(1) [OF assms(1,2)], of n k] base_backoff_pos [OF assms(1,2), of n]
    by (auto simp: backoff_def)
  note v = ValidateD(1) [OF assms(1)]
  show ?thesis
  proof (cases answer)
    case (Inl err)
    show ?thesis
    proof (cases "errors_as_provider err")
      case None
      with Inl assms(4) v b [of "max (rAttempts r) (if lookup then rCheckFailures r + 1 else rCheckFailures r)"]
      show ?thesis by (auto simp: decide_def decide_error_def time_add_def Let_def)
    next
      case (Some pe)
      with assms(3) Inl have "peRetryAfter pe \<le> 24 * Hour" by (simp add: answer_ok_def)
      with Inl Some assms(4) v b [of "max (rAttempts r) (if lookup then rCheckFailures r + 1 else rCheckFailures r)"]
      show ?thesis by (auto simp: decide_def decide_error_def time_add_def Let_def)
    qed
  next
    case (Inr res)
    with assms(4) v b [of "rAttempts r"] b [of "rCheckFailures r + 1"] show ?thesis
      by (auto simp: decide_def decide_result_def time_add_def Let_def)
  qed
qed

section \<open>An attempt settles its refund\<close>

text \<open>A refund the workers will pick up again by themselves.\<close>

definition claimable :: "int \<Rightarrow> Refund \<Rightarrow> bool" where
  "claimable m r \<longleftrightarrow> (claim_condition ClaimSubmit m r \<or> claim_condition ClaimReconcile m r) \<and> rLeaseUntil r = None"

lemma claimable_due: "claimable m r \<Longrightarrow> rNextActionAt r \<le> now \<Longrightarrow> claim_due now r"
  by (simp add: claimable_def claim_due_def)

lemma decided_row:
  assumes "refund_row_inv M c" and "rStatus c = RefundProcessing" and "rCheckFailures c < max_int32"
    and "rVersion c < max_int64"
    and out: "out = decide opts k c answer now lookup \<or> out = reconciled c answer (decide opts k c answer now lookup)"
    and new: "new = bump c (outcome_set out now c)"
  shows "refund_checks new" and "oStatus out \<in> {RefundProcessing, RefundSucceeded, RefundFailed}"
    and "terminal new \<or> phase_of new = Review \<or> claimable (woMaxAttempts opts) new"
proof -
  let ?d = "decide opts k c answer now lookup"
  have same: "oStatus out = oStatus ?d" "oRetryable out = oRetryable ?d" "oManualReview out = oManualReview ?d"
    "oCheckFailures out = oCheckFailures ?d"
    using out by (auto simp: reconciled_def)
  show st: "oStatus out \<in> {RefundProcessing, RefundSucceeded, RefundFailed}"
    unfolding same by (rule decide_status)
  have c: "refund_checks c" using assms(1) by (simp add: refund_row_inv_def)
  then have cf: "0 \<le> oCheckFailures ?d" "oCheckFailures ?d \<le> max_int32"
    using decide_failures [of c opts k answer now lookup] assms(3) by (auto simp: refund_checks_def)
  show "refund_checks new"
    using c cf st assms(4) decide_retryable [of opts k c answer now lookup] decide_review [of opts k c answer now lookup]
    by (auto simp: new refund_checks_def bump_def outcome_set_def same)
  show "terminal new \<or> phase_of new = Review \<or> claimable (woMaxAttempts opts) new"
    using st decide_retryable [of opts k c answer now lookup] decide_review [of opts k c answer now lookup]
    by (auto simp: new terminal_def phase_of_def claimable_def claim_condition_def bump_def outcome_set_def same)
qed

lemma save_settles:
  assumes claim: "ClaimRefund e d kind (atClaimedAt a) (woLeaseDuration opts) m = (Inr (Some c), d1)"
    and others: "refunds_inv M d'" "c \<in> set (refunds d')"
    and time: "atNow a < time_add (atClaimedAt a) (woLeaseDuration opts)"
    and room: "rCheckFailures c < max_int32" "rVersion c < max_int64"
    and fresh: "fresh_event c d'" "oReconciliation out \<noteq> None \<Longrightarrow> fresh_reconciliation (atSave a) d'"
    and env: "fault_free (atSave a)"
    and out: "out = decide opts k c answer (atNow a) lookup \<or> out = reconciled c answer (decide opts k c answer (atNow a) lookup)"
  shows "\<exists>d2 new recs. save store_repository a c out d' = (None, d2) \<and> new \<in> set (refunds d2) \<and> same_identity c new \<and>
    (terminal new \<or> phase_of new = Review \<or> claimable (woMaxAttempts opts) new) \<and>
    reconciliation_results d2 = reconciliation_results d' @ recs \<and>
    length recs = (case oReconciliation out of None \<Rightarrow> 0 | Some _ \<Rightarrow> 1)"
proof -
  let ?new = "bump c (outcome_set out (atNow a) c)"
  have inv_c: "refund_row_inv M c" using others by (simp add: refunds_inv_def)
  note c = claim_Some [OF claim]
  then have "rStatus c = RefundProcessing" by blast
  note row = decided_row [OF inv_c this room out refl]
  obtain recs where recs: "ApplyRefundOutcome (atSave a) d' c out (atNow a) =
      (Inr (), (put_refund c ?new d')\<lparr>reconciliation_results := reconciliation_results d' @ recs\<rparr>)"
    "length recs = (case oReconciliation out of None \<Rightarrow> 0 | Some _ \<Rightarrow> 1)"
    using apply_outcome_ok [OF others _ _ _ row(2,1) fresh env] c time by (auto simp: lease_live_def)
  moreover have "?new \<in> set (refunds (put_refund c ?new d'))"
    using others(2) by (auto simp: set_update_where)
  moreover have "same_identity c ?new" by (simp add: same_identity_def set_clause_defs)
  ultimately show ?thesis using row(3) by (auto simp: save_def)
qed

end
