(* ===== verification/RefundEngine.thy ===== *)
theory RefundEngine
  imports System RefundWorker
begin

text \<open>
  The refund worker on top of a repository. The locale \<open>worker_repository\<close> is the contract of the
  interface \<open>WorkerRepository\<close>: which changes of the repository its two operations may make and what a
  claim returns. The worker's loop makes no other changes, and the interpretation on the PostgreSQL
  store places every execution of the worker, with any provider and any failures, inside the runs of
  \<open>System\<close>.
\<close>

text \<open>Other processes keep to the allowed changes while the provider is called.\<close>

definition others_allowed :: "('d \<Rightarrow> 'd \<Rightarrow> bool) \<Rightarrow> 'd attempt_env \<Rightarrow> bool" where
  "others_allowed allowed a \<longleftrightarrow> (\<forall>d. allowed\<^sup>*\<^sup>* d (atOthers a d))"

locale worker_repository =
  fixes repo :: "'d WorkerRepository"
    and allowed :: "'d \<Rightarrow> 'd \<Rightarrow> bool"
    and M :: int
  assumes claim_allowed:
      "wrClaimRefund repo e d kind now lease m = (res, d') \<Longrightarrow> m \<le> M \<Longrightarrow> allowed d d'"
    and apply_allowed: "wrApplyRefundOutcome repo e d c out now = (res', d') \<Longrightarrow> allowed d d'"
    and claimed:
      "wrClaimRefund repo e d kind now lease m = (Inr (Some c), d') \<Longrightarrow>
         rStatus c = RefundProcessing \<and> rLeaseToken c \<noteq> '''' \<and> rLeaseUntil c = Some (time_add now lease)"
begin

lemma save_allowed: "save repo a c out d = (err, d') \<Longrightarrow> allowed d d'"
  by (auto simp: save_def split: prod.splits sum.splits dest: apply_allowed)

lemma claim_others_save:
  assumes "wrClaimRefund repo e d kind now lease m = (res, d1)" and "m \<le> M" and "others_allowed allowed a"
    and "save repo a c out (atOthers a d1) = (err, d2)"
  shows "allowed\<^sup>*\<^sup>* d d2"
proof -
  have "allowed d d1" "allowed\<^sup>*\<^sup>* d1 (atOthers a d1)" "allowed (atOthers a d1) d2"
    using assms claim_allowed save_allowed by (auto simp: others_allowed_def)
  then show ?thesis by (meson converse_rtranclp_into_rtranclp rtranclp.rtrancl_into_rtrancl)
qed

lemma claim_star: "wrClaimRefund repo e d kind now lease m = (res, d') \<Longrightarrow> m \<le> M \<Longrightarrow> allowed\<^sup>*\<^sup>* d d'"
  by (blast intro: claim_allowed)

lemma ProcessOnce_allowed:
  assumes "woMaxAttempts opts \<le> M" and "others_allowed allowed a" and "ProcessOnce opts repo p a s = (res, s')"
  shows "allowed\<^sup>*\<^sup>* (fst s) (fst s')"
proof -
  obtain cl d1 where cl: "wrClaimRefund repo (atClaim a) (fst s) ClaimSubmit (atClaimedAt a) (woLeaseDuration opts)
      (woMaxAttempts opts) = (cl, d1)" by fastforce
  show ?thesis
  proof (cases "\<exists>c. cl = Inr (Some c)")
    case False
    then have "fst s' = d1" using assms(3) cl by (auto simp: ProcessOnce_def split: sum.splits option.splits)
    then show ?thesis using claim_star [OF cl assms(1)] by simp
  next
    case True
    then obtain c ans w err d2 where c: "cl = Inr (Some c)" and ans: "pvSubmit p (snd s) c = (ans, w)"
      and sv: "save repo a c (decide opts (atRand a) c ans (atNow a) False) (atOthers a d1) = (err, d2)"
      by (metis surj_pair)
    have "s' = (d2, w)" using assms(3) cl c ans sv by (simp add: ProcessOnce_def)
    then show ?thesis using claim_others_save [OF cl assms(1,2) sv] by simp
  qed
qed

lemma ReconcileOnce_allowed:
  assumes "woMaxAttempts opts \<le> M" and "others_allowed allowed a" and "ReconcileOnce opts repo p a s = (res, s')"
  shows "allowed\<^sup>*\<^sup>* (fst s) (fst s')"
proof -
  obtain cl d1 where cl: "wrClaimRefund repo (atClaim a) (fst s) ClaimReconcile (atClaimedAt a) (woLeaseDuration opts)
      (woMaxAttempts opts) = (cl, d1)" by fastforce
  show ?thesis
  proof (cases "\<exists>c. cl = Inr (Some c)")
    case False
    then have "fst s' = d1" using assms(3) cl by (auto simp: ReconcileOnce_def split: sum.splits option.splits)
    then show ?thesis using claim_star [OF cl assms(1)] by simp
  next
    case True
    then obtain c ans w err d2 where c: "cl = Inr (Some c)" and ans: "pvLookup p (snd s) (rID c) = (ans, w)"
      and sv: "save repo a c (reconciled c ans (decide opts (atRand a) c ans (atNow a) True)) (atOthers a d1) = (err, d2)"
      by (metis surj_pair)
    have "s' = (d2, w)" using assms(3) cl c ans sv by (simp add: ReconcileOnce_def)
    then show ?thesis using claim_others_save [OF cl assms(1,2) sv] by simp
  qed
qed

lemma run_rounds_allowed:
  assumes "woMaxAttempts opts \<le> M" and "\<And>i. others_allowed allowed (rdReconcile (rd i)) \<and> others_allowed allowed (rdProcess (rd i))"
  shows "allowed\<^sup>*\<^sup>* (fst s) (fst (run_rounds opts repo p n rd s))"
  using assms(2)
proof (induction n arbitrary: rd s)
  case 0
  then show ?case by simp
next
  case (Suc n)
  obtain a ea s1 where r: "ReconcileOnce opts repo p (rdReconcile (rd 0)) s = ((a, ea), s1)"
    by (cases "ReconcileOnce opts repo p (rdReconcile (rd 0)) s") auto
  obtain b eb s2 where q: "ProcessOnce opts repo p (rdProcess (rd 0)) s1 = ((b, eb), s2)"
    by (cases "ProcessOnce opts repo p (rdProcess (rd 0)) s1") auto
  have "allowed\<^sup>*\<^sup>* (fst s) (fst s1)" by (rule ReconcileOnce_allowed [OF assms(1) _ r]) (use Suc.prems in blast)
  also have "allowed\<^sup>*\<^sup>* (fst s1) (fst s2)" by (rule ProcessOnce_allowed [OF assms(1) _ q]) (use Suc.prems in blast)
  finally have here: "allowed\<^sup>*\<^sup>* (fst s) (fst s2)" .
  also have "allowed\<^sup>*\<^sup>* (fst s2) (fst (run_rounds opts repo p n (\<lambda>i. rd (Suc i)) s2))"
    by (rule Suc.IH) (rule Suc.prems)
  finally have more: "allowed\<^sup>*\<^sup>* (fst s) (fst (run_rounds opts repo p n (\<lambda>i. rd (Suc i)) s2))" .
  show ?case using here more by (simp add: r q)
qed

lemma Run_allowed:
  assumes "woMaxAttempts opts \<le> M"
    and "\<forall>rd \<in> set ticks. \<forall>i. others_allowed allowed (rdReconcile (rd i)) \<and> others_allowed allowed (rdProcess (rd i))"
  shows "allowed\<^sup>*\<^sup>* (fst s) (fst (Run opts repo p ticks s))"
  using assms(2)
proof (induction ticks arbitrary: s)
  case Nil
  then show ?case by simp
next
  case (Cons rd ticks)
  have "allowed\<^sup>*\<^sup>* (fst s) (fst (run_rounds opts repo p (nat (woBatchSize opts)) rd s))"
    using Cons.prems by (intro run_rounds_allowed [OF assms(1)]) simp
  then show ?case using Cons.IH [of "run_rounds opts repo p (nat (woBatchSize opts)) rd s"] Cons.prems
    by simp
qed

end

text \<open>What the system can do to the database from every state that has it.\<close>

definition simulated :: "(string \<Rightarrow> string) \<Rightarrow> int \<Rightarrow> db \<Rightarrow> db \<Rightarrow> bool" where
  "simulated sha M d d' \<longleftrightarrow> (\<forall>s. sdb s = d \<longrightarrow> (\<exists>t. run sha M s t \<and> sdb t = d'))"

lemma simulated_refl: "simulated sha M d d"
  by (auto simp: simulated_def)

lemma simulated_trans: "simulated sha M d d' \<Longrightarrow> simulated sha M d' d'' \<Longrightarrow> simulated sha M d d''"
  unfolding simulated_def by (metis rtranclp_trans)

lemma simulated_step: "(\<And>s. sdb s = d \<Longrightarrow> sys_step sha M s (s\<lparr>sdb := d'\<rparr>)) \<Longrightarrow> simulated sha M d d'"
  unfolding simulated_def by (metis r_into_rtranclp sys.select_convs(1) sys.surjective sys.update_convs(1))

lemma simulated_star: "(simulated sha M)\<^sup>*\<^sup>* d d' \<Longrightarrow> simulated sha M d d'"
  by (induction rule: rtranclp_induct) (blast intro: simulated_refl simulated_trans)+

interpretation refund_store: worker_repository store_repository "simulated sha M" M for sha M
proof
  show "simulated sha M d d'" if "wrClaimRefund store_repository e d kind now lease m = (res, d')" "m \<le> M"
    for e d kind now lease m res d'
    using that by (intro simulated_step) (simp add: sys_step.claim)
  show "simulated sha M d d'" if "wrApplyRefundOutcome store_repository e d c out now = (res', d')"
    for e d c out now res' d'
    using that by (intro simulated_step) (simp add: sys_step.apply_outcome)
  show "rStatus c = RefundProcessing \<and> rLeaseToken c \<noteq> '''' \<and> rLeaseUntil c = Some (time_add now lease)"
    if "wrClaimRefund store_repository e d kind now lease m = (Inr (Some c), d')" for e d kind now lease m c d'
    using claim_Some [of e d kind now lease m c d'] that by auto
qed

end
