(* ===== verification/Progress.thy ===== *)
theory Progress
  imports RefundEngine
begin

text \<open>
  Automatic processing of a refund comes to an end. A round is one \<open>ProcessOnce\<close> or \<open>ReconcileOnce\<close> of any worker that
  claims the refund and stores an outcome, or a submission claim whose worker dies before it stores one, whatever the
  provider answers and whatever others do to other rows meanwhile. Checks are counted from the time \<open>StuckAfter\<close> after
  the submission on; before, a provider that keeps answering \<open>PROCESSING\<close> is checked once per interval. A check whose
  worker dies only costs the time of its lease; any number of them may lie between two rounds.

  The measure of a row is the number of rounds it can still take: every submission uses up an attempt, and a late
  check ends the refund, hands it to an operator, sends it back to submission, or counts a failure.
\<close>

section \<open>Rounds\<close>

definition refund_row :: "string \<Rightarrow> db \<Rightarrow> Refund option" where
  "refund_row i d = find (\<lambda>r. rID r = i) (refunds d)"

inductive worked :: "Options \<Rightarrow> 'w Provider \<Rightarrow> string \<Rightarrow> Refund \<Rightarrow> Refund \<Rightarrow> bool" for opts p i where
  submitted: "\<lbrakk>refunds_inv M d; refund_row i d = Some r;
      ClaimRefund (atClaim a) d ClaimSubmit (atClaimedAt a) (woLeaseDuration opts) (woMaxAttempts opts) = (Inr (Some c), d1);
      rID c = i; refund_row i (atOthers a d1) = Some c;
      ProcessOnce opts store_repository p a (d, w) = ((True, None), d2, w2); refund_row i d2 = Some r'\<rbrakk>
    \<Longrightarrow> worked opts p i r r'"
| checked: "\<lbrakk>refunds_inv M d; refund_row i d = Some r;
      ClaimRefund (atClaim a) d ClaimReconcile (atClaimedAt a) (woLeaseDuration opts) (woMaxAttempts opts) = (Inr (Some c), d1);
      rID c = i; refund_row i (atOthers a d1) = Some c; stuck opts c (atNow a);
      ReconcileOnce opts store_repository p a (d, w) = ((True, None), d2, w2); refund_row i d2 = Some r'\<rbrakk>
    \<Longrightarrow> worked opts p i r r'"
| crashed: "\<lbrakk>refunds_inv M d; refund_row i d = Some r;
      ClaimRefund e d ClaimSubmit t lease (woMaxAttempts opts) = (Inr (Some r'), d1); rID r' = i\<rbrakk>
    \<Longrightarrow> worked opts p i r r'"

text \<open>A check that was claimed and never stored.\<close>

inductive abandoned :: "string \<Rightarrow> Refund \<Rightarrow> Refund \<Rightarrow> bool" for i where
  "\<lbrakk>refunds_inv M d; refund_row i d = Some r; ClaimRefund e d ClaimReconcile t lease m = (Inr (Some r'), d1); rID r' = i\<rbrakk>
    \<Longrightarrow> abandoned i r r'"

definition refund_round :: "Options \<Rightarrow> 'w Provider \<Rightarrow> string \<Rightarrow> Refund \<Rightarrow> Refund \<Rightarrow> bool" where
  "refund_round opts p i = (abandoned i)\<^sup>*\<^sup>* OO worked opts p i"

section \<open>What a round does to the row\<close>

lemma refund_row_inv:
  assumes "refunds_inv M d" and "refund_row i d = Some r" and "x \<in> set (refunds d)" and "rID x = i"
  shows "x = r"
  using assms find_Some_set [of "\<lambda>r. rID r = i" "refunds d" r] distinct_key_eq [of rID "refunds d" x r]
  by (auto simp: refund_row_def refunds_inv_def)

lemma claim_row:
  assumes "ClaimRefund e d kind t lease m = (Inr (Some c), d1)" and "refunds_inv M d" and "refund_row i d = Some r" and "rID c = i"
  shows "claim_condition kind m r \<and>
    (\<exists>token. c = bump r ((if kind = ClaimSubmit then claim_submit_set else claim_reconcile_set) t token (time_add t lease) r))"
proof -
  from assms(1) have tx: "claim_tx e kind t lease m d = Inr (Some c, Some d1) \<or> claim_tx e kind t lease m d = Inr (Some c, None)"
    and kind: "kind = ClaimSubmit \<or> kind = ClaimReconcile"
    by (auto simp: ClaimRefund_def run_tx_Inr split: if_splits)
  then obtain old token where pick: "claim_pick e kind t m d = Some old"
    and upd: "update_refund ((if kind = ClaimSubmit then claim_submit_set else claim_reconcile_set) t token (time_add t lease)) old d = Inr (c, d1)"
    by (auto simp: claim_tx_def bindE_Inr query_row_Inr split: sum.splits if_splits option.splits)
  have c: "c = bump old ((if kind = ClaimSubmit then claim_submit_set else claim_reconcile_set) t token (time_add t lease) old)"
    using update_refund_bump [OF upd] by blast
  then have "rID old = i" using assms(4) by (auto simp: bump_def claim_submit_set_def claim_reconcile_set_def split: if_splits)
  then have "old = r" using refund_row_inv [OF assms(2,3)] claim_pick_Some(1) [OF pick] by blast
  then show ?thesis using c claim_pick_Some(2) [OF pick] by blast
qed

lemma outcome_row:
  assumes "ApplyRefundOutcome e d c out t = (Inr u, d')" and "refund_row (rID c) d = Some c" and "refund_row (rID c) d' = Some r'"
  shows "r' = bump c (outcome_set out t c)"
proof -
  from assms(1) have "apply_outcome_tx e c out t d = Inr (u, Some d') \<or> apply_outcome_tx e c out t d = Inr (u, None)"
    by (auto simp: ApplyRefundOutcome_def run_tx_Inr)
  moreover have "apply_outcome_tx e c out t d \<noteq> Inr (u, None)"
    by (auto simp: apply_outcome_tx_def bindE_Inr split: option.splits if_splits)
  ultimately have "apply_outcome_tx e c out t d = Inr (u, Some d')" by blast
  then obtain old new recs where f: "find (\<lambda>r. rID r = rID c) (refunds d) = Some old"
    and new: "new = bump old (outcome_set out t old)" and d': "d' = (put_refund old new d)\<lparr>reconciliation_results := reconciliation_results d @ recs\<rparr>"
    by (rule apply_outcome_tx_effect [where M = 0])
  have old: "old = c" using f assms(2) by (simp add: refund_row_def)
  have "find (\<lambda>r. rID r = rID c) (update_where (\<lambda>x. rID x = rID c) (\<lambda>_. new) (refunds d)) = Some new"
    using f by (subst find_update_where_same) (simp_all add: new old bump_def outcome_set_def)
  then show ?thesis using assms(3) new old by (simp add: d' refund_row_def put_refund_def)
qed

section \<open>The measure\<close>

definition round_phase :: "Options \<Rightarrow> Refund \<Rightarrow> nat" where
  "round_phase opts r =
     (if rStatus r = RefundProcessing \<and> \<not> rManualReview r then 1 + nat (woMaxCheckFailures opts - rCheckFailures r) else 0)"

definition rounds_left :: "Options \<Rightarrow> Refund \<Rightarrow> nat" where
  "rounds_left opts r =
     nat (woMaxAttempts opts - rAttempts r) * (nat (woMaxCheckFailures opts) + 2) + round_phase opts r"

text \<open>A late check leaves the refund to nobody, or counts a failure.\<close>

lemma decide_stuck:
  assumes "stuck opts r now" and "oStatus (decide opts k r ans now True) = RefundProcessing"
    and "\<not> oManualReview (decide opts k r ans now True)"
  shows "oCheckFailures (decide opts k r ans now True) = rCheckFailures r + 1 \<and> rCheckFailures r + 1 < woMaxCheckFailures opts"
  using assms
  by (auto simp: decide_def decide_error_def decide_result_def Let_def split: sum.splits option.splits if_splits)

lemma attempt_used:
  assumes "rAttempts r < woMaxAttempts opts" and "rAttempts r' = rAttempts r + 1" and "0 \<le> rCheckFailures r'"
  shows "rounds_left opts r' < rounds_left opts r"
proof -
  have "nat (woMaxAttempts opts - rAttempts r) = nat (woMaxAttempts opts - rAttempts r') + 1" using assms(1,2) by linarith
  moreover have "round_phase opts r' \<le> nat (woMaxCheckFailures opts) + 1" using assms(3) by (auto simp: round_phase_def)
  ultimately show ?thesis by (simp add: rounds_left_def)
qed

lemma crashed_less:
  assumes "claim_condition ClaimSubmit (woMaxAttempts opts) r" and "c = bump r (claim_submit_set t token until r)"
  shows "rounds_left opts c < rounds_left opts r"
  using assms by (intro attempt_used) (auto simp: claim_condition_def bump_def claim_submit_set_def)

lemma submitted_less:
  assumes "claim_condition ClaimSubmit (woMaxAttempts opts) r" and "c = bump r (claim_submit_set t token until r)"
    and "r' = bump c (outcome_set (decide opts k c ans now False) now c)"
  shows "rounds_left opts r' < rounds_left opts r"
  using assms decide_failures [of c opts k ans now False]
  by (intro attempt_used) (auto simp: claim_condition_def bump_def outcome_set_def claim_submit_set_def)

lemma checked_less:
  assumes "claim_condition ClaimReconcile m r" and "c = bump r (claim_reconcile_set t token until r)" and "stuck opts c now"
    and "r' = bump c (outcome_set (reconciled c ans (decide opts k c ans now True)) now c)"
  shows "rounds_left opts r' < rounds_left opts r"
proof -
  have r: "rStatus r = RefundProcessing" "\<not> rManualReview r" "rCheckFailures c = rCheckFailures r" "rAttempts r' = rAttempts r"
    using assms by (auto simp: claim_condition_def ClaimSubmit_def ClaimReconcile_def bump_def outcome_set_def claim_reconcile_set_def split: if_splits)
  have "round_phase opts r' < round_phase opts r"
  proof (cases "rStatus r' = RefundProcessing \<and> \<not> rManualReview r'")
    case True
    with assms(4) have "rCheckFailures r' = rCheckFailures r + 1 \<and> rCheckFailures r + 1 < woMaxCheckFailures opts"
      using decide_stuck [OF assms(3), of k ans] r(3) by (auto simp: bump_def outcome_set_def reconciled_def)
    with True r(1,2) show ?thesis by (simp add: round_phase_def)
  qed (use r in \<open>auto simp: round_phase_def\<close>)
  then show ?thesis using r(4) by (simp add: rounds_left_def)
qed

lemma worked_less: "worked opts p i r r' \<Longrightarrow> rounds_left opts r' < rounds_left opts r"
proof (induction rule: worked.induct)
  case (submitted M d r a c d1 w d2 w2 r')
  obtain ans w3 where ans: "pvSubmit p w c = (ans, w3)" by (rule prod.exhaust)
  from submitted(3,6) ans obtain u where
    "ApplyRefundOutcome (atSave a) (atOthers a d1) c (decide opts (atRand a) c ans (atNow a) False) (atNow a) = (Inr u, d2)"
    by (auto simp: ProcessOnce_def save_def split: prod.splits sum.splits)
  from outcome_row [OF this] submitted(4,5,7)
  have "r' = bump c (outcome_set (decide opts (atRand a) c ans (atNow a) False) (atNow a) c)" by simp
  with claim_row [OF submitted(3,1,2,4)] show ?case by (auto intro: submitted_less)
next
  case (checked M d r a c d1 w d2 w2 r')
  obtain ans w3 where ans: "pvLookup p w (rID c) = (ans, w3)" by (rule prod.exhaust)
  from checked(3,7) ans obtain u where
    "ApplyRefundOutcome (atSave a) (atOthers a d1) c (reconciled c ans (decide opts (atRand a) c ans (atNow a) True)) (atNow a) = (Inr u, d2)"
    by (auto simp: ReconcileOnce_def save_def split: prod.splits sum.splits)
  from outcome_row [OF this] checked(4,5,8)
  have "r' = bump c (outcome_set (reconciled c ans (decide opts (atRand a) c ans (atNow a) True)) (atNow a) c)" by simp
  with claim_row [OF checked(3,1,2,4)] checked(6) show ?case
    by (auto simp: ClaimSubmit_def ClaimReconcile_def intro: checked_less)
next
  case (crashed M d r e t lease r' d1)
  with claim_row [OF crashed(3,1,2,4)] show ?case by (auto intro: crashed_less)
qed

lemma abandoned_same: "abandoned i r r' \<Longrightarrow> rounds_left opts r' = rounds_left opts r"
proof (induction rule: abandoned.induct)
  case (1 M d r e t lease m r' d1)
  from claim_row [OF 1(3,1,2,4)] show ?case
    by (auto simp: ClaimSubmit_def ClaimReconcile_def rounds_left_def round_phase_def bump_def claim_reconcile_set_def)
qed

lemma abandoned_star: "(abandoned i)\<^sup>*\<^sup>* r r' \<Longrightarrow> rounds_left opts r' = rounds_left opts r"
  by (induction rule: rtranclp_induct) (simp_all add: abandoned_same)

lemma refund_round_less: "refund_round opts p i r r' \<Longrightarrow> rounds_left opts r' < rounds_left opts r"
  using worked_less abandoned_star by (fastforce simp: refund_round_def)

lemma rounds_bounded: "successively (refund_round opts p i) (r # rs) \<Longrightarrow> length rs \<le> rounds_left opts r"
proof (induction rs arbitrary: r)
  case (Cons r' rs)
  then have "length rs \<le> rounds_left opts r'" "rounds_left opts r' < rounds_left opts r"
    using refund_round_less [of opts p i r r'] by simp_all
  then show ?case by simp
qed simp

lemma rounds_left_pending:
  assumes "rStatus r = RefundPending" and "rAttempts r = 0"
  shows "rounds_left opts r = nat (woMaxAttempts opts) * (nat (woMaxCheckFailures opts) + 2)"
  using assms by (simp add: rounds_left_def round_phase_def)

end
