(* ===== verification/Publication.thy ===== *)
theory Publication
  imports System
begin

text \<open>
  The transactional outbox and the idempotency keys, over all operations of the system: keys are only
  added, outbox events are never lost or rewritten, and every change of a refund's status and every
  creation or cancellation of a payment leaves its event in the outbox together with the change itself.
\<close>

section \<open>Events stay\<close>

definition same_event :: "OutboxEvent \<Rightarrow> OutboxEvent \<Rightarrow> bool" where
  "same_event x y \<longleftrightarrow>
     eID y = eID x \<and> eUserID y = eUserID x \<and> eEventType y = eEventType x \<and> eAggregateType y = eAggregateType x \<and>
     eAggregateID y = eAggregateID x \<and> ePayload y = ePayload x \<and> eCreatedAt y = eCreatedAt x"

definition events_kept :: "db \<Rightarrow> db \<Rightarrow> bool" where
  "events_kept d d' \<longleftrightarrow> (\<forall>x \<in> set (outbox_events d). \<exists>y \<in> set (outbox_events d'). same_event x y)"

lemma same_event_refl [simp]: "same_event x x"
  by (simp add: same_event_def)

lemma same_event_trans: "same_event x y \<Longrightarrow> same_event y z \<Longrightarrow> same_event x z"
  by (simp add: same_event_def)

lemma events_kept_append: "outbox_events d' = outbox_events d @ evs \<Longrightarrow> events_kept d d'"
  unfolding events_kept_def by (metis UnI1 same_event_refl set_append)

lemma events_kept_trans: "events_kept a b \<Longrightarrow> events_kept b c \<Longrightarrow> events_kept a c"
  unfolding events_kept_def by (meson same_event_trans)

lemma outbox_effect_kept:
  assumes "outbox_effect d d'"
  shows "events_kept d d'"
  unfolding events_kept_def
proof
  fix x
  assume x: "x \<in> set (outbox_events d)"
  let ?k = "\<lambda>x. (eID x, eUserID x, eEventType x, eAggregateType x, eAggregateID x, ePayload x, eCreatedAt x)"
  from assms have "map ?k (outbox_events d') = map ?k (outbox_events d)"
    by (auto simp: outbox_effect_def)
  from arg_cong [OF this, of set] x have "?k x \<in> ?k ` set (outbox_events d')" by simp
  then obtain y where "y \<in> set (outbox_events d')" "?k x = ?k y" by (rule imageE)
  then show "\<exists>y \<in> set (outbox_events d'). same_event x y" by (intro bexI [of _ y]) (simp_all add: same_event_def)
qed

section \<open>What is announced\<close>

definition status_kind :: "Refund \<Rightarrow> string" where
  "status_kind r = (if rStatus r = RefundPending then ''refund.created'' else ''refund.'' @ lower_status (rStatus r))"

definition announces :: "Refund \<Rightarrow> OutboxEvent \<Rightarrow> bool" where
  "announces r ev \<longleftrightarrow>
     eAggregateType ev = ''refund'' \<and> eAggregateID ev = rID r \<and> eUserID ev = rUserID r \<and> eEventType ev = status_kind r"

definition payment_events :: "(string \<Rightarrow> string) \<Rightarrow> string \<Rightarrow> Payment \<Rightarrow> event_type \<Rightarrow> OutboxEvent \<Rightarrow> bool" where
  "payment_events sha tbl p kind ev \<longleftrightarrow>
     table_of sha (eUserID ev) = tbl \<and> eAggregateType ev = AggregateTypePayment \<and> eAggregateID ev = pID p \<and>
     eEventType ev = kind"

definition payment_announced :: "(string \<Rightarrow> string) \<Rightarrow> db \<Rightarrow> string \<Rightarrow> Payment \<Rightarrow> bool" where
  "payment_announced sha d tbl p \<longleftrightarrow>
     (\<exists>ev \<in> set (outbox_events d). \<exists>pl. payment_events sha tbl p EventPaymentCreated ev \<and>
        ePayload ev = PaymentCreatedJSON pl \<and> pcAmount pl = pAmount p \<and> pcCurrency pl = pCurrency p \<and>
        (pcStatus pl = pStatus p \<or> pStatus p = PaymentCancelled \<and>
          (\<exists>c \<in> set (outbox_events d). payment_events sha tbl p EventPaymentCancelled c)))"

definition published :: "(string \<Rightarrow> string) \<Rightarrow> db \<Rightarrow> bool" where
  "published sha d \<longleftrightarrow>
     (\<forall>r \<in> set (refunds d). \<exists>ev \<in> set (outbox_events d). announces r ev) \<and>
     (\<forall>tbl rows. payments_tables d tbl = Some rows \<longrightarrow> (\<forall>p \<in> set rows. payment_announced sha d tbl p))"

lemma announces_kept:
  assumes "events_kept d d'" and "ev \<in> set (outbox_events d)" and "announces r ev"
    and "rID s = rID r" and "rUserID s = rUserID r" and "rStatus s = rStatus r"
  shows "\<exists>ev \<in> set (outbox_events d'). announces s ev"
proof -
  obtain y where "y \<in> set (outbox_events d')" "same_event ev y"
    using assms(1,2) by (auto simp: events_kept_def)
  with assms(3-) show ?thesis by (auto simp: announces_def same_event_def status_kind_def)
qed

lemma payment_announced_kept:
  assumes kept: "events_kept d d'" and "payment_announced sha d tbl p"
  shows "payment_announced sha d' tbl p"
proof -
  have move: "\<exists>y \<in> set (outbox_events d'). payment_events sha tbl p kind y \<and> ePayload y = ePayload x"
    if x: "x \<in> set (outbox_events d)" and ev: "payment_events sha tbl p kind x" for x kind
  proof -
    obtain y where "y \<in> set (outbox_events d')" "same_event x y" using kept x by (auto simp: events_kept_def)
    with ev show ?thesis by (intro bexI [of _ y]) (simp_all add: payment_events_def same_event_def)
  qed
  from assms(2) show ?thesis
    unfolding payment_announced_def by (metis move)
qed

section \<open>What an operation may do to the logs\<close>

definition logs :: "(string \<Rightarrow> string) \<Rightarrow> db \<Rightarrow> db \<Rightarrow> bool" where
  "logs sha d d' \<longleftrightarrow>
     (\<exists>ks. idempotency_keys d' = idempotency_keys d @ ks) \<and> events_kept d d' \<and>
     (published sha d \<longrightarrow> published sha d')"

lemma logs_refl [simp]: "logs sha d d"
  by (auto simp: logs_def intro: events_kept_append [of _ _ "[]"])

lemma logs_trans: "logs sha a b \<Longrightarrow> logs sha b c \<Longrightarrow> logs sha a c"
  by (auto simp: logs_def intro: events_kept_trans)

lemma logs_frame:
  assumes "events_kept d d'" and "idempotency_keys d' = idempotency_keys d" and "refunds d' = refunds d"
    and "\<And>tbl rows p. payments_tables d' tbl = Some rows \<Longrightarrow> p \<in> set rows \<Longrightarrow>
      \<exists>rows'. payments_tables d tbl = Some rows' \<and> p \<in> set rows'"
  shows "logs sha d d'"
proof -
  have "published sha d'" if pub: "published sha d"
    unfolding published_def
  proof (intro conjI ballI allI impI)
    fix r
    assume "r \<in> set (refunds d')"
    with pub assms(3) obtain ev where "ev \<in> set (outbox_events d)" "announces r ev" by (auto simp: published_def)
    then show "\<exists>ev \<in> set (outbox_events d'). announces r ev" using announces_kept [OF assms(1)] by blast
  next
    fix tbl rows p
    assume "payments_tables d' tbl = Some rows" "p \<in> set rows"
    with assms(4) pub have "payment_announced sha d tbl p" by (fastforce simp: published_def)
    then show "payment_announced sha d' tbl p" by (rule payment_announced_kept [OF assms(1)])
  qed
  with assms show ?thesis by (auto simp: logs_def)
qed

lemma logs_schema:
  assumes "schema_ext d d'"
  shows "logs sha d d'"
proof (rule logs_frame)
  show "events_kept d d'" "idempotency_keys d' = idempotency_keys d" "refunds d' = refunds d"
    using schema_ext_frame [OF assms] events_kept_append [of d' d "[]"] by auto
  fix tbl rows p
  assume "payments_tables d' tbl = Some rows" "p \<in> set rows"
  then show "\<exists>rows'. payments_tables d tbl = Some rows' \<and> p \<in> set rows'"
    using schema_ext_tables [OF assms, of tbl] by (cases "payments_tables d tbl") auto
qed

lemma logs_outbox: "outbox_effect d d' \<Longrightarrow> logs sha d d'"
  by (rule logs_frame, erule outbox_effect_kept) (auto simp: outbox_effect_def)

lemma logs_put_refund:
  assumes old: "old \<in> set (refunds d)" and step: "refund_row_step M old new"
    and d': "d' = (put_refund old new d)\<lparr>reconciliation_results := recs\<rparr>"
  shows "logs sha d d'"
proof -
  note same = refund_row_step_identity [OF step, unfolded same_identity_def]
  have out: "outbox_events d' = outbox_events d @ refund_events (Some old) new"
    and keys: "idempotency_keys d' = idempotency_keys d" and pay: "payments_tables d' = payments_tables d"
    by (simp_all add: d' put_refund_def)
  note kept = events_kept_append [OF out]
  have "\<exists>ev \<in> set (outbox_events d'). announces r ev" if pub: "published sha d" and r: "r \<in> set (refunds d')" for r
  proof (cases "r \<in> set (refunds d) \<and> rID r \<noteq> rID old")
    case True
    with pub announces_kept [OF kept] show ?thesis by (auto simp: published_def)
  next
    case False
    with r have "r = new" by (auto simp: d' set_update_where)
    show ?thesis
    proof (cases "rStatus new = rStatus old")
      case True
      with \<open>r = new\<close> pub old same announces_kept [OF kept] show ?thesis by (auto simp: published_def)
    next
      case changed: False
      have "rStatus new \<noteq> RefundPending"
        using step changed by (auto elim!: refund_row_stepE simp: set_clause_defs)
      then have "announces new (refund_event (''refund.'' @ lower_status (rStatus new)) new)"
        by (simp add: announces_def refund_event_def status_kind_def)
      with \<open>r = new\<close> changed show ?thesis
        by (auto simp: out refund_events_def refund_event_kind_def)
    qed
  qed
  moreover have "payment_announced sha d' tbl p"
    if "published sha d" "payments_tables d' tbl = Some rows" "p \<in> set rows" for tbl rows p
    using that payment_announced_kept [OF kept] by (auto simp: published_def pay)
  ultimately show ?thesis using kept by (auto simp: logs_def keys published_def)
qed

lemma logs_insert_refund:
  assumes "insert_refund r d = Inr (new, d')"
  shows "logs sha d d'"
proof -
  note ins = insert_refund_Inr [OF assms]
  have out: "outbox_events d' = outbox_events d @ [refund_event ''refund.created'' new]"
    using ins(7) by (simp add: refund_events_def refund_event_kind_def)
  note kept = events_kept_append [OF out]
  have "announces new (refund_event ''refund.created'' new)"
    using ins(1,2) by (simp add: announces_def refund_event_def status_kind_def)
  then have "\<exists>ev \<in> set (outbox_events d'). announces x ev"
    if "published sha d" "x \<in> set (refunds d')" for x
    using that ins(7) announces_kept [OF kept] out by (auto simp: published_def)
  moreover have "payment_announced sha d' tbl p"
    if "published sha d" "payments_tables d' tbl = Some rows" "p \<in> set rows" for tbl rows p
    using that ins(7) payment_announced_kept [OF kept] by (auto simp: published_def)
  ultimately show ?thesis using kept ins(7) by (auto simp: logs_def published_def)
qed

lemma logs_create_payment:
  assumes "create_payment_tx e (table_of sha user) user p hash d = Inr (res, Some d')"
  shows "logs sha d d'"
proof -
  obtain rows where rows: "payments_tables d (table_of sha user) = Some rows" and d': "d' =
      d\<lparr>payments_tables := (payments_tables d)(table_of sha user \<mapsto> rows @ [p]),
        idempotency_keys := idempotency_keys d @ key_rows user p hash,
        outbox_events := outbox_events d @
          [payment_event e user EventPaymentCreated (pID p) (created_payload p) (pCreatedAt p)]\<rparr>"
    using create_payment_tx_effect [OF assms] by blast
  have kept: "events_kept d d'" by (rule events_kept_append) (simp add: d')
  have "payment_announced sha d' (table_of sha user) p"
    by (auto simp: payment_announced_def d' payment_events_def payment_event_def created_payload_def)
  then have "payment_announced sha d' tbl q"
    if "published sha d" "payments_tables d' tbl = Some rows'" "q \<in> set rows'" for tbl rows' q
    using that rows payment_announced_kept [OF kept] by (auto simp: published_def d' split: if_splits)
  moreover have "\<exists>ev \<in> set (outbox_events d'). announces x ev"
    if "published sha d" "x \<in> set (refunds d')" for x
    using that announces_kept [OF kept] by (auto simp: published_def d')
  ultimately show ?thesis using kept by (auto simp: logs_def published_def d')
qed

lemma logs_cancel_payment:
  assumes "cancel_payment_tx e (table_of sha user) user i c d = Inr (res, Some d')"
  shows "logs sha d d'"
proof -
  obtain rows where rows: "payments_tables d (table_of sha user) = Some rows" and d': "d' =
      d\<lparr>payments_tables := (payments_tables d)(table_of sha user \<mapsto> update_where (\<lambda>x. pID x = i) (cancelled_at c) rows),
        outbox_events := outbox_events d @
          [payment_event e user EventPaymentCancelled i (PaymentCancelledJSON \<lparr>pxID = i, pxCancelledAt = c\<rparr>) c]\<rparr>"
    using cancel_payment_tx_effect [OF assms] by blast
  have kept: "events_kept d d'" by (rule events_kept_append) (simp add: d')
  have hit: "payment_announced sha d' (table_of sha user) (cancelled_at c q)"
    if "payment_announced sha d (table_of sha user) q" "pID q = i" for q
    using that
    by (auto simp: payment_announced_def d' payment_events_def payment_event_def cancelled_at_def)
  have "payment_announced sha d' tbl q"
    if "published sha d" "payments_tables d' tbl = Some rows'" "q \<in> set rows'" for tbl rows' q
    using that rows payment_announced_kept [OF kept] hit
    by (auto simp: published_def d' set_update_where split: if_splits)
  moreover have "\<exists>ev \<in> set (outbox_events d'). announces x ev"
    if "published sha d" "x \<in> set (refunds d')" for x
    using that announces_kept [OF kept] by (auto simp: published_def d')
  ultimately show ?thesis using kept by (auto simp: logs_def published_def d')
qed

section \<open>Every operation keeps the logs\<close>

lemma logs_tx:
  assumes "run_tx wr e lb lc d body = (res, d')" and "\<And>x d1. body d = Inr (x, Some d1) \<Longrightarrow> logs sha d d1"
  shows "logs sha d d'"
  using run_tx_atomic [OF assms(1)] assms(2) by auto

definition op_logs :: "(string \<Rightarrow> string) \<Rightarrow> Store \<Rightarrow> Store \<Rightarrow> bool" where
  "op_logs sha st st' \<longleftrightarrow> logs sha (pool st) (pool st')"

lemma logs_ensure:
  assumes "ensureUserSchema sha e st user = (res, st')" and "store_inv sha st"
  shows "op_logs sha st st'"
  using logs_schema ensureUserSchema_effect(2) [OF assms] by (auto simp: op_logs_def)

lemma logs_ensure_tx:
  assumes ens: "ensureUserSchema sha e st user = (Inr t, st1)" and inv: "store_inv sha st"
    and run: "run_tx wr e lb lc (pool st1) body = (res, d)"
    and body: "\<And>x d1. t = deriveUserTables sha user \<Longrightarrow> body (pool st1) = Inr (x, Some d1) \<Longrightarrow> logs sha (pool st1) d1"
  shows "op_logs sha st (st1\<lparr>pool := d\<rparr>)"
proof -
  have "logs sha (pool st) (pool st1)" using logs_ensure [OF ens inv] by (simp add: op_logs_def)
  moreover have "logs sha (pool st1) d"
    using body ensureUserSchema_effect(3) [OF ens inv] by (intro logs_tx [OF run]) blast
  ultimately show ?thesis by (simp add: op_logs_def logs_trans)
qed

lemma logs_webhooks:
  assumes "d' = d\<lparr>webhooks_tables := webhooks_tables d'\<rparr> \<and> (\<forall>t. webhooks_tables d' t = None \<longleftrightarrow> webhooks_tables d t = None)"
  shows "logs sha d d'"
proof -
  from assms have "outbox_events d' = outbox_events d" "idempotency_keys d' = idempotency_keys d"
    "refunds d' = refunds d" "payments_tables d' = payments_tables d"
    by (metis db.select_convs db.surjective db.update_convs(4))+
  then show ?thesis by (intro logs_frame events_kept_append [of _ _ "[]"]) auto
qed

lemma logs_create_refund:
  assumes "create_refund_tx e tbl r d = Inr (x, Some d')"
  shows "logs sha d d'"
  using assms by (elim create_refund_tx_effect) (rule logs_insert_refund)

lemma logs_allow:
  assumes "Allow e d l scope t = (res, d')"
  shows "logs sha d d'"
proof -
  from allow_effect [OF assms] have "outbox_events d' = outbox_events d" "idempotency_keys d' = idempotency_keys d"
    "refunds d' = refunds d" "payments_tables d' = payments_tables d"
    by (metis db.select_convs db.surjective db.update_convs(9))+
  then show ?thesis by (intro logs_frame events_kept_append [of _ _ "[]"]) auto
qed

lemma store_ops_logs:
  assumes inv: "store_inv sha st"
  shows "CreatePayment sha e st u p h = (r1, st') \<Longrightarrow> op_logs sha st st'"
    and "GetPayment sha e st u x = (r2, st') \<Longrightarrow> op_logs sha st st'"
    and "ListPayments sha e st u f = (r3, st') \<Longrightarrow> op_logs sha st st'"
    and "CancelPayment sha e st u x t = (r4, st') \<Longrightarrow> op_logs sha st st'"
    and "CreateSubscription sha e st u sub = (r5, st') \<Longrightarrow> op_logs sha st st'"
    and "ListSubscriptions sha e st u = (r6, st') \<Longrightarrow> op_logs sha st st'"
    and "GetSubscription sha e st u x = (r7, st') \<Longrightarrow> op_logs sha st st'"
    and "SetSubscriptionActive sha e st u x b t = (r8, st') \<Longrightarrow> op_logs sha st st'"
    and "CreateRefund sha e st r = (r9, st') \<Longrightarrow> op_logs sha st st'"
proof -
  note ens = logs_ensure [OF _ inv] and tx = logs_ensure_tx [OF _ inv]
  show "CreatePayment sha e st u p h = (r1, st') \<Longrightarrow> op_logs sha st st'"
    by (auto simp: CreatePayment_def split: prod.splits sum.splits intro: ens intro!: tx logs_create_payment)
  show "GetPayment sha e st u x = (r2, st') \<Longrightarrow> op_logs sha st st'"
    by (auto simp: GetPayment_def split: prod.splits sum.splits intro: ens)
  show "ListPayments sha e st u f = (r3, st') \<Longrightarrow> op_logs sha st st'"
    by (auto simp: ListPayments_def split: prod.splits sum.splits intro: ens)
  show "CancelPayment sha e st u x t = (r4, st') \<Longrightarrow> op_logs sha st st'"
    by (auto simp: CancelPayment_def split: prod.splits sum.splits intro: ens intro!: tx logs_cancel_payment)
  show "CreateSubscription sha e st u sub = (r5, st') \<Longrightarrow> op_logs sha st st'"
    by (auto simp: CreateSubscription_def split: prod.splits sum.splits
        intro: ens intro!: tx logs_webhooks webhook_tx_effects(1))
  show "ListSubscriptions sha e st u = (r6, st') \<Longrightarrow> op_logs sha st st'"
    by (auto simp: ListSubscriptions_def split: prod.splits sum.splits intro: ens)
  show "GetSubscription sha e st u x = (r7, st') \<Longrightarrow> op_logs sha st st'"
    by (auto simp: GetSubscription_def split: prod.splits sum.splits intro: ens)
  show "SetSubscriptionActive sha e st u x b t = (r8, st') \<Longrightarrow> op_logs sha st st'"
    by (auto simp: SetSubscriptionActive_def split: prod.splits sum.splits
        intro: ens intro!: tx logs_webhooks webhook_tx_effects(2))
  show "CreateRefund sha e st r = (r9, st') \<Longrightarrow> op_logs sha st st'"
    by (auto simp: CreateRefund_def split: prod.splits sum.splits intro: ens intro!: tx logs_create_refund)
qed

lemma refund_ops_logs:
  shows "RequestRefundRecheck e d u x t = (r1, d') \<Longrightarrow> logs sha d d'"
    and "ClaimRefund e d kind t lease m = (r2, d') \<Longrightarrow> logs sha d d'"
    and "ApplyRefundOutcome e d c out t = (r3, d') \<Longrightarrow> logs sha d d'"
proof -
  have put: "logs sha d (put_refund old new d)" if "old \<in> set (refunds d)" "refund_row_step m old new" for old new m
    by (rule logs_put_refund [OF that, of _ "reconciliation_results d"]) (simp add: put_refund_def)
  show "RequestRefundRecheck e d u x t = (r1, d') \<Longrightarrow> logs sha d d'"
    unfolding RequestRefundRecheck_def
    by (erule logs_tx) (auto elim!: recheck_tx_effect [where M = 0] intro!: put dest: find_Some_set)
  show "logs sha d d'" if run: "ClaimRefund e d kind t lease m = (r2, d')"
  proof (cases "kind = ClaimSubmit \<or> kind = ClaimReconcile")
    case True
    with run have tx: "run_tx nowrap e ''begin claim'' ''commit claim'' d (claim_tx e kind t lease m) = (r2, d')"
      by (auto simp: ClaimRefund_def split: if_splits)
    show ?thesis
      by (rule logs_tx [OF tx]) (auto elim!: claim_tx_effect [OF _ order_refl True] intro!: put)
  next
    case False
    with run show ?thesis by (auto simp: ClaimRefund_def)
  qed
  show "ApplyRefundOutcome e d c out t = (r3, d') \<Longrightarrow> logs sha d d'"
    unfolding ApplyRefundOutcome_def
  proof (erule logs_tx)
    fix u d1
    assume "apply_outcome_tx e c out t d = Inr (u, Some d1)"
    then show "logs sha d d1"
      by (rule apply_outcome_tx_effect [where M = 0]) (auto intro!: logs_put_refund dest: find_Some_set)
  qed
qed

lemma sys_step_logs:
  assumes step: "sys_step sha M s t" and inv: "sys_inv sha M s"
  shows "logs sha (sdb s) (sdb t)"
proof -
  have st: "store_inv sha (proc s i)" for i using sys_inv_proc [OF inv] by blast
  have ops: "op_logs sha (proc s i) st \<Longrightarrow> logs sha (sdb s) (sdb (put_proc s i st))" for i st
    by (simp add: op_logs_def proc_def put_proc_def)
  from step show ?thesis
    by cases (auto intro!: ops intro: store_ops_logs [OF st] refund_ops_logs logs_allow
        mark_effects [THEN logs_outbox] fetch_effect [THEN logs_outbox] record_effect [THEN logs_outbox])
qed

lemma run_logs: "run sha M s t \<Longrightarrow> sys_inv sha M s \<Longrightarrow> 0 \<le> M \<Longrightarrow> logs sha (sdb s) (sdb t)"
  by (induction rule: rtranclp_induct) (auto intro: logs_trans sys_step_logs run_inv)

lemma reachable_published: "reachable sha M s \<Longrightarrow> 0 \<le> M \<Longrightarrow> published sha (sdb s)"
proof (induction rule: reachable.induct)
  case init
  show ?case by (simp add: published_def sys_init_def empty_db_def)
next
  case (step s t)
  then show ?case using sys_step_logs reachable_inv by (metis logs_def)
qed

end
