(* ===== verification/Idempotency.thy ===== *)
theory Idempotency
  imports Publication
begin

text \<open>
  Repeated requests. A request that was answered once is answered again with the same resource, in every
  later state and by every process: the operations below read what an earlier run stored under the
  idempotency key. The lemmas also show that the tables of a registered user can always be ensured.
\<close>

section \<open>The tables of a registered user are there\<close>

lemma quote_index:
  "\<exists>q. quoteIdentifier (''idx_'' @ utSuffix (deriveUserTables sha u) @ ''_payments_created_at'') = Inr q"
  "\<exists>q. quoteIdentifier (''idx_'' @ utSuffix (deriveUserTables sha u) @ ''_payments_status_created_at'') = Inr q"
  "\<exists>q. quoteIdentifier (''idx_'' @ utSuffix (deriveUserTables sha u) @ ''_webhooks_created_at'') = Inr q"
  using suffix_identifier [of sha u] by (auto simp: quoteIdentifier_def identifier_char_def less_eq_char_def)

lemma create_index_ok:
  assumes "fault_free e" and "\<exists>q. quoteIdentifier idx = Inr q" and "\<exists>q. quoteIdentifier tbl = Inr q"
  shows "create_index e msg idx tbl = Inr ()"
  using assms by (auto simp: create_index_def)

lemma ensureUserTablesTx_registered:
  assumes inv: "tenant_inv sha d" and reg: "registered d u" and e: "fault_free e"
  shows "\<exists>d'. ensureUserTablesTx e u (deriveUserTables sha u) d = Inr d'"
proof -
  from reg obtain a where a: "find (\<lambda>x. auUser x = u) (app_users d) = Some a"
    by (cases "find (\<lambda>x. auUser x = u) (app_users d)") (auto simp: registered_def find_None_set)
  then have "auPayments a = utPayments (deriveUserTables sha u)" "auWebhooks a = utWebhooks (deriveUserTables sha u)"
    using find_Some_set [OF a] inv by (auto simp: tenant_inv_def tenant_row_ok_def)
  moreover have "\<exists>x \<in> set (app_users d). auUser x = u" using reg by (auto simp: registered_def)
  moreover note create_index_ok [OF e] quote_index [of sha u] quote_derived [of sha u]
  ultimately show ?thesis
    using e a by (auto simp: ensureUserTablesTx_def insert_app_user_def query_row_def Let_def)
qed

lemma ensureUserSchema_registered:
  assumes inv: "tenant_inv sha (pool s)" and reg: "registered (pool s) (TrimSpace user)" and e: "fault_free e"
  shows "fst (ensureUserSchema sha e s user) = Inr (deriveUserTables sha user)"
proof -
  have "TrimSpace user \<noteq> ''''"
    using inv reg by (auto simp: tenant_inv_def tenant_row_ok_def registered_def)
  moreover obtain d' where "ensureUserTablesTx e (TrimSpace user) (deriveUserTables sha (TrimSpace user)) (pool s) = Inr d'"
    using ensureUserTablesTx_registered [OF assms] by blast
  ultimately show ?thesis using e by (auto simp: ensureUserSchema_def Let_def run_tx_def)
qed

section \<open>Replays\<close>

lemma create_refund_replay:
  assumes inv: "store_inv sha st" "refunds_inv M (pool st)" and reg: "registered (pool st) (TrimSpace (rUserID r))"
    and c: "c \<in> set (refunds (pool st))" "rUserID c = rUserID r" "rIdempotencyKey c = rIdempotencyKey r"
    and e: "fault_free e"
  shows "fst (CreateRefund sha e st r) =
      (if rRequestHash c = rRequestHash r then Inr (c, False) else Inl ErrIdempotencyConflict)"
    and "schema_ext (pool st) (pool (snd (CreateRefund sha e st r)))"
proof -
  obtain st1 where ens: "ensureUserSchema sha e st (rUserID r) = (Inr (deriveUserTables sha (rUserID r)), st1)"
    using ensureUserSchema_registered [of sha st "rUserID r" e] inv reg e
    by (cases "ensureUserSchema sha e st (rUserID r)") (auto simp: store_inv_def)
  note ext = ensureUserSchema_effect(2) [OF ens inv(1)]
  have "find (\<lambda>x. (rUserID x, rIdempotencyKey x) = (rUserID c, rIdempotencyKey c)) (refunds (pool st1)) = Some c"
    using schema_ext_frame [OF ext] inv(2) c(1) by (intro find_key_unique) (auto simp: refunds_inv_def)
  then have f: "find (\<lambda>x. rUserID x = rUserID r \<and> rIdempotencyKey x = rIdempotencyKey r) (refunds (pool st1)) = Some c"
    using c by simp
  show "fst (CreateRefund sha e st r) =
      (if rRequestHash c = rRequestHash r then Inr (c, False) else Inl ErrIdempotencyConflict)"
    and "schema_ext (pool st) (pool (snd (CreateRefund sha e st r)))"
    using e f ext by (simp_all add: CreateRefund_def ens run_tx_def create_refund_tx_def query_row_def scanRefund_def)
qed

lemma create_refund_stored:
  assumes run: "CreateRefund sha e st r = (Inr (c, b), st')" and inv: "store_inv sha st"
  shows "c \<in> set (refunds (pool st'))" and "rUserID c = rUserID r" and "rIdempotencyKey c = rIdempotencyKey r"
    and "rRequestHash c = rRequestHash r" and "registered (pool st') (TrimSpace (rUserID r))"
proof -
  from run obtain t st1 where ens: "ensureUserSchema sha e st (rUserID r) = (Inr t, st1)"
    and tx: "run_tx nowrap e ''begin create refund'' ''commit create refund'' (pool st1)
      (create_refund_tx e (utPayments t) r) = (Inr (c, b), pool st')"
    by (auto simp: CreateRefund_def split: prod.splits sum.splits)
  have reg: "registered (pool st1) (TrimSpace (rUserID r))" using ensureUserSchema_effect(3) [OF ens inv] by blast
  from tx consider (old) "create_refund_tx e (utPayments t) r (pool st1) = Inr ((c, b), None)" "pool st' = pool st1"
    | (new) "create_refund_tx e (utPayments t) r (pool st1) = Inr ((c, b), Some (pool st'))"
    by (auto simp: run_tx_Inr)
  then have "c \<in> set (refunds (pool st')) \<and> rUserID c = rUserID r \<and> rIdempotencyKey c = rIdempotencyKey r \<and>
    rRequestHash c = rRequestHash r \<and> registered (pool st') (TrimSpace (rUserID r))"
  proof cases
    case old
    then have "find (\<lambda>x. rUserID x = rUserID r \<and> rIdempotencyKey x = rIdempotencyKey r) (refunds (pool st1)) = Some c"
      "rRequestHash c = rRequestHash r"
      by (auto simp: create_refund_tx_def create_refund_new_def bindE_Inr query_row_Inr Let_def
          split: sum.splits if_splits)
    with old reg show ?thesis by (auto dest: find_Some_set)
  next
    case new
    then show ?thesis
    proof (rule create_refund_tx_effect)
      fix p :: Payment and x
      assume "insert_refund (new_refund_row (r\<lparr>rCurrency := pCurrency p\<rparr>)) (pool st1) = Inr (x, pool st')"
        and "(c, b) = (x, True)"
      with insert_refund_Inr [OF this(1)] reg show ?thesis
        by (auto simp: new_refund_row_def registered_def)
    qed
  qed
  then show "c \<in> set (refunds (pool st'))" and "rUserID c = rUserID r" and "rIdempotencyKey c = rIdempotencyKey r"
    and "rRequestHash c = rRequestHash r" and "registered (pool st') (TrimSpace (rUserID r))" by blast+
qed

lemma run_registered:
  "run sha M s t \<Longrightarrow> sys_inv sha M s \<Longrightarrow> 0 \<le> M \<Longrightarrow> registered (sdb s) u \<Longrightarrow> registered (sdb t) u"
proof (induction rule: rtranclp_induct)
  case base
  then show ?case by simp
next
  case (step t v)
  then have "good sha M (sdb t) (sdb v)" using sys_step_good(1) run_inv by blast
  with step show ?case by (auto simp: good_def)
qed

text \<open>Payments: the key row and the payment it names.\<close>

lemma create_payment_stored:
  assumes run: "CreatePayment sha e st user p hash = (Inr (q, b), st')" and inv: "store_inv sha st" "payments_inv (pool st)"
    and key: "pIdempotencyKey p \<noteq> ''''"
  shows "\<exists>k. find_idem_key user (pIdempotencyKey p) (pool st') = Some k \<and> ikHash k = hash \<and>
      find_payment (pool st') (table_of sha user) (ikPayment k) = Some q"
    and "registered (pool st') (TrimSpace user)"
proof -
  from run obtain t st1 where ens: "ensureUserSchema sha e st user = (Inr t, st1)"
    and tx: "run_tx wrapf e ''begin create payment tx'' ''commit create payment tx'' (pool st1)
      (create_payment_tx e (utPayments t) user p hash) = (Inr (q, b), pool st')"
    by (auto simp: CreatePayment_def split: prod.splits sum.splits)
  note eff = ensureUserSchema_effect [OF ens inv(1)]
  have t: "t = deriveUserTables sha user" and reg: "registered (pool st1) (TrimSpace user)" using eff(3) by blast+
  have pinv: "payments_inv (pool st1)" using schema_ext_payments(2) [OF eff(2) inv(2)] .
  from tx consider (old) "create_payment_tx e (utPayments t) user p hash (pool st1) = Inr ((q, b), None)" "pool st' = pool st1"
    | (new) "create_payment_tx e (utPayments t) user p hash (pool st1) = Inr ((q, b), Some (pool st'))"
    by (auto simp: run_tx_Inr)
  then have "(\<exists>k. find_idem_key user (pIdempotencyKey p) (pool st') = Some k \<and> ikHash k = hash \<and>
      find_payment (pool st') (table_of sha user) (ikPayment k) = Some q) \<and> registered (pool st') (TrimSpace user)"
  proof cases
    case old
    with key t reg show ?thesis
      by (auto simp: create_payment_tx_def bindE_Inr query_row_Inr getPayment_def find_payment_def
          create_payment_insert_commits split: option.splits if_splits)
  next
    case new
    then show ?thesis
    proof (rule create_payment_tx_effect)
      fix rows
      assume rows: "payments_tables (pool st1) (utPayments t) = Some rows" "(q, b) = (p, True)" "int64 (pAmount p)"
          "\<forall>x \<in> set rows. pID x \<noteq> pID p"
        and none: "pIdempotencyKey p \<noteq> '''' \<Longrightarrow> find_idem_key user (pIdempotencyKey p) (pool st1) = None"
        and d': "pool st' = (pool st1)\<lparr>payments_tables := (payments_tables (pool st1))(utPayments t \<mapsto> rows @ [p]),
            idempotency_keys := idempotency_keys (pool st1) @ key_rows user p hash,
            outbox_events := outbox_events (pool st1) @
              [payment_event e user EventPaymentCreated (pID p) (created_payload p) (pCreatedAt p)]\<rparr>"
      have "find_payment (pool st') (utPayments t) (pID p) = Some p"
        by (rule insert_payment_step(3) [OF rows(1) pinv rows(3,4)]) (simp add: d')
      with none key rows(2) reg t show ?thesis
        by (auto simp: d' find_idem_key_def key_rows_def find_append registered_def)
    qed
  qed
  then show "\<exists>k. find_idem_key user (pIdempotencyKey p) (pool st') = Some k \<and> ikHash k = hash \<and>
      find_payment (pool st') (table_of sha user) (ikPayment k) = Some q"
    and "registered (pool st') (TrimSpace user)" by blast+
qed

lemma find_idem_key_logs:
  "logs sha d d' \<Longrightarrow> find_idem_key u key d = Some k \<Longrightarrow> find_idem_key u key d' = Some k"
  by (auto simp: logs_def find_idem_key_def find_append)

lemma create_payment_replay:
  assumes inv: "store_inv sha st" and reg: "registered (pool st) (TrimSpace user)"
    and k: "find_idem_key user (pIdempotencyKey p) (pool st) = Some k" "pIdempotencyKey p \<noteq> ''''"
    and q: "find_payment (pool st) (table_of sha user) (ikPayment k) = Some q" and e: "fault_free e"
  shows "fst (CreatePayment sha e st user p hash) = (if ikHash k = hash then Inr (q, False) else Inl ErrIdempotencyConflict)"
    and "schema_ext (pool st) (pool (snd (CreatePayment sha e st user p hash)))"
proof -
  obtain st1 where ens: "ensureUserSchema sha e st user = (Inr (deriveUserTables sha user), st1)"
    using ensureUserSchema_registered [of sha st user e] inv reg e
    by (cases "ensureUserSchema sha e st user") (auto simp: store_inv_def)
  note ext = ensureUserSchema_effect(2) [OF ens inv(1)]
  have k1: "find_idem_key user (pIdempotencyKey p) (pool st1) = Some k"
    using k(1) schema_ext_frame [OF ext] by (simp add: find_idem_key_def)
  obtain rows where rows: "payments_tables (pool st1) (table_of sha user) = Some rows" "find (\<lambda>p. pID p = ikPayment k) rows = Some q"
    using q schema_ext_tables(1) [OF ext] by (auto simp: find_payment_def split: option.splits)
  show "fst (CreatePayment sha e st user p hash) = (if ikHash k = hash then Inr (q, False) else Inl ErrIdempotencyConflict)"
    and "schema_ext (pool st) (pool (snd (CreatePayment sha e st user p hash)))"
    using e k(2) k1 rows ext
    by (simp_all add: CreatePayment_def ens run_tx_def create_payment_tx_def query_row_def getPayment_def)
qed

section \<open>Cancelling again\<close>

lemma cancel_stored:
  assumes run: "CancelPayment sha e st user i c = (Inr (), st')" and inv: "store_inv sha st" "payments_inv (pool st)"
  shows "(\<exists>p. find_payment (pool st') (table_of sha user) i = Some (cancelled_at c p)) \<and> registered (pool st') (TrimSpace user)"
proof -
  from run obtain t st1 where ens: "ensureUserSchema sha e st user = (Inr t, st1)"
    and tx: "run_tx wrapf e ''begin cancel payment tx'' ''commit cancel payment tx'' (pool st1)
      (cancel_payment_tx e (utPayments t) user i c) = (Inr (), pool st')"
    by (auto simp: CancelPayment_def split: prod.splits sum.splits)
  note eff = ensureUserSchema_effect [OF ens inv(1)]
  have t: "t = deriveUserTables sha user" and reg: "registered (pool st1) (TrimSpace user)" using eff(3) by blast+
  have pinv: "payments_inv (pool st1)" using schema_ext_payments(2) [OF eff(2) inv(2)] .
  from tx have "cancel_payment_tx e (utPayments t) user i c (pool st1) = Inr ((), Some (pool st'))"
    by (auto simp: run_tx_Inr) (auto simp: cancel_payment_tx_def bindE_Inr)
  then show ?thesis
  proof (rule cancel_payment_tx_effect)
    fix rows p
    assume r: "payments_tables (pool st1) (utPayments t) = Some rows" "find (\<lambda>x. pID x = i) rows = Some p"
        "pStatus p = PaymentPending"
      and d': "pool st' = (pool st1)\<lparr>payments_tables := (payments_tables (pool st1))(utPayments t \<mapsto>
          update_where (\<lambda>x. pID x = i) (cancelled_at c) rows), outbox_events := outbox_events (pool st1) @
          [payment_event e user EventPaymentCancelled i (PaymentCancelledJSON \<lparr>pxID = i, pxCancelledAt = c\<rparr>) c]\<rparr>"
    have "find_payment (pool st') (utPayments t) i = Some (cancelled_at c p)"
      by (rule cancel_payment_step(3) [OF r pinv]) (simp add: d')
    with reg t show ?thesis by (auto simp: d' registered_def)
  qed
qed

lemma cancel_refused:
  assumes inv: "store_inv sha st" and reg: "registered (pool st) (TrimSpace user)"
    and p: "find_payment (pool st) (table_of sha user) i = Some p" "pStatus p \<noteq> PaymentPending" and e: "fault_free e"
  shows "fst (CancelPayment sha e st user i c) = Inl ErrInvalidPaymentState \<and>
    outbox_events (pool (snd (CancelPayment sha e st user i c))) = outbox_events (pool st)"
proof -
  obtain st1 where ens: "ensureUserSchema sha e st user = (Inr (deriveUserTables sha user), st1)"
    using ensureUserSchema_registered [of sha st user e] inv reg e
    by (cases "ensureUserSchema sha e st user") (auto simp: store_inv_def)
  note ext = ensureUserSchema_effect(2) [OF ens inv(1)]
  obtain rows where rows: "payments_tables (pool st1) (table_of sha user) = Some rows" "find (\<lambda>p. pID p = i) rows = Some p"
    using p(1) schema_ext_tables(1) [OF ext] by (auto simp: find_payment_def split: option.splits)
  show ?thesis
    using e p(2) rows schema_ext_frame [OF ext]
    by (simp add: CancelPayment_def ens run_tx_def cancel_payment_tx_def cancel_payment_check_def query_row_def getPayment_def)
qed

section \<open>Repeated requests\<close>

lemma refund_replay:
  assumes "reachable sha M s" and "0 \<le> M"
    and first: "CreateRefund sha e (proc s i) r = (Inr (c, b), st)"
    and later: "run sha M (put_proc s i st) t"
    and again: "rUserID r' = rUserID r" "rIdempotencyKey r' = rIdempotencyKey r" and env: "fault_free e'"
  shows "\<exists>c' \<in> set (refunds (sdb t)). same_identity c c' \<and>
    fst (CreateRefund sha e' (proc t j) r') =
      (if rRequestHash r' = rRequestHash r then Inr (c', False) else Inl ErrIdempotencyConflict) \<and>
    refunds (pool (snd (CreateRefund sha e' (proc t j) r'))) = refunds (sdb t)"
proof -
  note inv = reachable_inv [OF assms(1,2)]
  have step: "sys_step sha M s (put_proc s i st)" by (rule sys_step.create_refund [OF first])
  note inv1 = sys_step_good(2) [OF step inv assms(2)]
  note inv2 = run_inv [OF later inv1 assms(2)]
  note stored = create_refund_stored [OF first conjunct1 [OF sys_inv_proc [OF inv]]]
  have "c \<in> set (refunds (sdb (put_proc s i st)))" "registered (sdb (put_proc s i st)) (TrimSpace (rUserID r))"
    using stored by (simp_all add: put_proc_def)
  then obtain c' where c': "c' \<in> set (refunds (sdb t))" "same_identity c c'"
    and reg: "registered (sdb t) (TrimSpace (rUserID r))"
    using run_refund [OF later inv1 assms(2)] run_registered [OF later inv1 assms(2)] row_steps_identity by blast
  have st: "store_inv sha (proc t j)" "refunds_inv M (pool (proc t j))" "pool (proc t j) = sdb t"
    using sys_inv_proc [OF inv2] by (auto simp: db_inv_def proc_def)
  have "fst (CreateRefund sha e' (proc t j) r') =
      (if rRequestHash c' = rRequestHash r' then Inr (c', False) else Inl ErrIdempotencyConflict)"
    and ext: "schema_ext (pool (proc t j)) (pool (snd (CreateRefund sha e' (proc t j) r')))"
    using create_refund_replay [OF st(1,2) _ _ _ _ env, of r' c'] c' reg again stored st(3)
    by (simp_all add: same_identity_def)
  then show ?thesis
    using c' stored schema_ext_frame [OF ext] st(3) by (intro bexI [of _ c']) (auto simp: same_identity_def)
qed

lemma payment_replay:
  assumes "reachable sha M s" and "0 \<le> M"
    and first: "CreatePayment sha e (proc s i) user p hash = (Inr (q, b), st)" and key: "pIdempotencyKey p \<noteq> ''''"
    and later: "run sha M (put_proc s i st) t"
    and again: "pIdempotencyKey p' = pIdempotencyKey p" and env: "fault_free e'"
  shows "\<exists>q'. (q' = q \<or> pStatus q = PaymentPending \<and> (\<exists>c. q' = cancelled_at c q)) \<and>
    fst (CreatePayment sha e' (proc t j) user p' hash') =
      (if hash' = hash then Inr (q', False) else Inl ErrIdempotencyConflict) \<and>
    outbox_events (pool (snd (CreatePayment sha e' (proc t j) user p' hash'))) = outbox_events (sdb t)"
proof -
  note inv = reachable_inv [OF assms(1,2)]
  have step: "sys_step sha M s (put_proc s i st)" by (rule sys_step.create_payment [OF first])
  note inv1 = sys_step_good(2) [OF step inv assms(2)]
  note inv2 = run_inv [OF later inv1 assms(2)]
  have st0: "store_inv sha (proc s i)" "payments_inv (pool (proc s i))"
    using sys_inv_proc [OF inv] by (auto simp: db_inv_def)
  note stored = create_payment_stored [OF first st0 key]
  obtain k where k: "find_idem_key user (pIdempotencyKey p) (sdb (put_proc s i st)) = Some k" "ikHash k = hash"
      "find_payment (sdb (put_proc s i st)) (table_of sha user) (ikPayment k) = Some q"
    and "registered (sdb (put_proc s i st)) (TrimSpace user)"
    using stored by (auto simp: put_proc_def)
  then have reg: "registered (sdb t) (TrimSpace user)" and k': "find_idem_key user (pIdempotencyKey p) (sdb t) = Some k"
    using run_registered [OF later inv1 assms(2)] find_idem_key_logs [OF run_logs [OF later inv1 assms(2)]] by blast+
  obtain q' where q': "find_payment (sdb t) (table_of sha user) (ikPayment k) = Some q'"
    "q' = q \<or> pStatus q = PaymentPending \<and> (\<exists>c. q' = cancelled_at c q)"
    using run_payment [OF later inv1 assms(2)] k(3) unfolding payments_step_def by blast
  have st: "store_inv sha (proc t j)" "pool (proc t j) = sdb t"
    using sys_inv_proc [OF inv2] by (auto simp: proc_def)
  have "fst (CreatePayment sha e' (proc t j) user p' hash') =
      (if ikHash k = hash' then Inr (q', False) else Inl ErrIdempotencyConflict)"
    and ext: "schema_ext (pool (proc t j)) (pool (snd (CreatePayment sha e' (proc t j) user p' hash')))"
    using create_payment_replay [OF st(1) _ _ _ _ env, of user p' k q' hash'] reg k' q'(1) key again st(2) by simp_all
  then show ?thesis
    using q'(2) k(2) schema_ext_frame [OF ext] st(2) by (intro exI [of _ q']) auto
qed

end
