(* ===== verification/Isolation.thy ===== *)
theory Isolation
  imports System
begin

text \<open>
  Users do not see each other. Every write of a payment, a subscription or a refund for one user leaves the
  tables of every other registered user as they are. The names of the tables come from a truncated hash;
  what keeps users apart when two names collide is the unique constraint on the registered names.
\<close>

section \<open>Isolation of tenants\<close>

definition tables_of :: "(string \<Rightarrow> string) \<Rightarrow> string \<Rightarrow> db \<Rightarrow> Payment list option \<times> WebhookSubscription list option" where
  "tables_of sha v d =
     (payments_tables d (utPayments (deriveUserTables sha v)), webhooks_tables d (utWebhooks (deriveUserTables sha v)))"

lemma schema_ext_tables_of:
  assumes "schema_ext d d'" and "tenant_inv sha d" and "registered d v"
  shows "tables_of sha v d' = tables_of sha v d"
proof -
  from assms(2,3) have "payments_tables d (utPayments (deriveUserTables sha v)) \<noteq> None"
      "webhooks_tables d (utWebhooks (deriveUserTables sha v)) \<noteq> None"
    by (auto simp: tenant_inv_def tenant_row_ok_def registered_def)
  with assms(1) show ?thesis
    by (fastforce simp: tables_of_def schema_ext_def map_le_def dom_def)
qed

definition leaves_alone :: "(string \<Rightarrow> string) \<Rightarrow> string \<Rightarrow> Store \<Rightarrow> Store \<Rightarrow> bool" where
  "leaves_alone sha v st st' \<longleftrightarrow> tables_of sha v (pool st') = tables_of sha v (pool st)"

lemma isolated_tx:
  assumes ens: "ensureUserSchema sha e st user = (Inr t, st1)" and inv: "store_inv sha st"
    and v: "registered (pool st) v" "v \<noteq> TrimSpace user"
    and run: "run_tx wr e lb lc (pool st1) body = (res, d)"
    and body: "\<And>x d1. body (pool st1) = Inr (x, Some d1) \<Longrightarrow>
      (\<forall>u. u \<noteq> utPayments t \<longrightarrow> payments_tables d1 u = payments_tables (pool st1) u) \<and>
      (\<forall>u. u \<noteq> utWebhooks t \<longrightarrow> webhooks_tables d1 u = webhooks_tables (pool st1) u)"
  shows "leaves_alone sha v st (st1\<lparr>pool := d\<rparr>)"
proof -
  note eff = ensureUserSchema_effect [OF ens inv]
  have t: "t = deriveUserTables sha (TrimSpace user)" "registered (pool st1) (TrimSpace user)" "registered (pool st1) v"
    using eff(3) schema_ext_registered [OF eff(2) v(1)] by auto
  have "tenant_inv sha (pool st1)" using eff(1) by (simp add: store_inv_def)
  note diff = tenant_tables_differ [OF this t(3,2) v(2)]
  have "tables_of sha v (pool st1) = tables_of sha v (pool st)"
    using schema_ext_tables_of [OF eff(2)] inv v(1) by (simp add: store_inv_def)
  moreover have "tables_of sha v d = tables_of sha v (pool st1)"
    using run_tx_atomic [OF run] body diff t(1) by (auto simp: tables_of_def)
  ultimately show ?thesis by (simp add: leaves_alone_def)
qed

lemma isolated_ensure:
  assumes "ensureUserSchema sha e st user = (res, st1)" and inv: "store_inv sha st" and v: "registered (pool st) v"
  shows "leaves_alone sha v st st1"
  using schema_ext_tables_of [OF ensureUserSchema_effect(2) [OF assms(1,2)]] inv v by (simp add: store_inv_def leaves_alone_def)

lemma create_payment_tx_tables:
  "create_payment_tx e tbl user p hash d = Inr (x, Some d') \<Longrightarrow>
     (\<forall>u. u \<noteq> tbl \<longrightarrow> payments_tables d' u = payments_tables d u) \<and> (\<forall>u. webhooks_tables d' u = webhooks_tables d u)"
  by (elim create_payment_tx_effect) auto

lemma cancel_payment_tx_tables:
  "cancel_payment_tx e tbl user i c d = Inr (x, Some d') \<Longrightarrow>
     (\<forall>u. u \<noteq> tbl \<longrightarrow> payments_tables d' u = payments_tables d u) \<and> (\<forall>u. webhooks_tables d' u = webhooks_tables d u)"
  by (elim cancel_payment_tx_effect) auto

lemma subscription_tx_tables:
  "create_subscription_tx e tbl sub d = Inr (y, Some d') \<Longrightarrow>
     payments_tables d' = payments_tables d \<and> (\<forall>u. u \<noteq> tbl \<longrightarrow> webhooks_tables d' u = webhooks_tables d u)"
  "set_subscription_tx e tbl i active c d = Inr (z, Some d') \<Longrightarrow>
     payments_tables d' = payments_tables d \<and> (\<forall>u. u \<noteq> tbl \<longrightarrow> webhooks_tables d' u = webhooks_tables d u)"
  by (auto simp: create_subscription_tx_def set_subscription_tx_def bindE_Inr split: option.splits if_splits)

lemma create_refund_tx_tables:
  "create_refund_tx e tbl r d = Inr (x, Some d') \<Longrightarrow>
     payments_tables d' = payments_tables d \<and> webhooks_tables d' = webhooks_tables d"
  by (elim create_refund_tx_effect) (auto dest!: insert_refund_Inr(7))

lemma isolated_ops:
  assumes inv: "store_inv sha st" and v: "registered (pool st) v" "v \<noteq> TrimSpace user"
  shows "CreatePayment sha e st user p h = (r1, st') \<Longrightarrow> leaves_alone sha v st st'"
    and "CancelPayment sha e st user x c = (r2, st') \<Longrightarrow> leaves_alone sha v st st'"
    and "CreateSubscription sha e st user sub = (r3, st') \<Longrightarrow> leaves_alone sha v st st'"
    and "SetSubscriptionActive sha e st user x b c = (r4, st') \<Longrightarrow> leaves_alone sha v st st'"
    and "rUserID r = user \<Longrightarrow> CreateRefund sha e st r = (r5, st') \<Longrightarrow> leaves_alone sha v st st'"
proof -
  note ens = isolated_ensure [OF _ inv v(1)] and tx = isolated_tx [OF _ inv v]
  show "CreatePayment sha e st user p h = (r1, st') \<Longrightarrow> leaves_alone sha v st st'"
    by (auto simp: CreatePayment_def split: prod.splits sum.splits intro: ens intro!: tx dest!: create_payment_tx_tables)
  show "CancelPayment sha e st user x c = (r2, st') \<Longrightarrow> leaves_alone sha v st st'"
    by (auto simp: CancelPayment_def split: prod.splits sum.splits intro: ens intro!: tx dest!: cancel_payment_tx_tables)
  show "CreateSubscription sha e st user sub = (r3, st') \<Longrightarrow> leaves_alone sha v st st'"
    by (auto simp: CreateSubscription_def split: prod.splits sum.splits intro: ens intro!: tx dest!: subscription_tx_tables)
  show "SetSubscriptionActive sha e st user x b c = (r4, st') \<Longrightarrow> leaves_alone sha v st st'"
    by (auto simp: SetSubscriptionActive_def split: prod.splits sum.splits intro: ens intro!: tx dest!: subscription_tx_tables)
  show "rUserID r = user \<Longrightarrow> CreateRefund sha e st r = (r5, st') \<Longrightarrow> leaves_alone sha v st st'"
    by (auto simp: CreateRefund_def split: prod.splits sum.splits intro: ens intro!: tx dest!: create_refund_tx_tables)
qed

end
