(* ===== verification/PaymentLaws.thy ===== *)
theory PaymentLaws
  imports Ledger
begin

text \<open>
  Further facts about the payment operations: what one page of a listing holds and what the pages hold
  together, what the 64-bit offset does at its ends, and the two halves of a cancellation taken apart.
\<close>

section \<open>Pages\<close>

lemma concat_chunks: "concat (map (\<lambda>k. take n (drop (k * n) xs)) [0..<m]) = take (m * n) xs"
proof (induction m)
  case 0
  then show ?case by simp
next
  case (Suc m)
  have "take (Suc m * n) xs = take (m * n) xs @ take n (drop (m * n) xs)"
    by (simp add: take_add add.commute [of n])
  with Suc show ?case by simp
qed

definition sorted_payments :: "PaymentListFilter \<Rightarrow> Payment list \<Rightarrow> Payment list" where
  "sorted_payments f rows = sort_key (\<lambda>p. - pCreatedAt p) (filter (payment_matches f) rows)"

lemma list_payments_page:
  assumes "fault_free e" and "payments_tables d (table_of sha user) = Some rows" and "0 \<le> plSize f"
    and "int k * plSize f \<le> max_int64" and "int k \<le> max_int64"
  shows "list_payments_rows e d (table_of sha user) (f\<lparr>plPage := int k + 1\<rparr>) =
    Inr (take (nat (plSize f)) (drop (k * nat (plSize f)) (sorted_payments f rows)),
         int (length (filter (payment_matches f) rows)))"
proof -
  have m: "payment_matches (f\<lparr>plPage := int k + 1\<rparr>) = payment_matches f"
    by (simp add: payment_matches_def fun_eq_iff)
  have w: "wrap64 (int k) = int k" "wrap64 (int k * plSize f) = int k * plSize f"
    using assms(3-5) order.trans [of "- (2 ^ 63)" 0 "int k * plSize f"]
    by (auto intro!: wrap64_id simp: int64_def min_int64_def)
  have "nat (int k * plSize f) = k * nat (plSize f)" by (simp add: nat_mult_distrib)
  moreover have "0 \<le> int k * plSize f" using assms(3) by simp
  ultimately have "list_payments_query (f\<lparr>plPage := int k + 1\<rparr>) rows =
      Inr (take (nat (plSize f)) (drop (k * nat (plSize f)) (sorted_payments f rows)))"
    using w assms(3) by (simp add: list_payments_query_def m sorted_payments_def Let_def mult_less_0_iff)
  with assms(1,2) show ?thesis
    by (simp add: list_payments_rows_def m count_where_def)
qed

text \<open>The offset is a product of 64-bit numbers: a page beyond the range wraps around to an earlier one.\<close>

lemma wrap64_shift: "wrap64 (x + 2 ^ 64 * k) = wrap64 x"
proof -
  have "take_bit 64 (x + 2 ^ 64 * k) = take_bit 64 x"
    by (simp only: take_bit_eq_mod mod_mult_self2)
  then have "(word_of_int (x + 2 ^ 64 * k) :: 64 word) = word_of_int x"
    by (simp only: word_of_int_eq_iff len_bit0 len_num1 mult_1_right) simp
  then show ?thesis by (simp add: wrap64_def)
qed

lemma offset_wraps:
  "list_payments_query \<lparr>plStatus = st, plPage = 2 ^ 60 + 1, plSize = 16\<rparr> rows =
   list_payments_query \<lparr>plStatus = st, plPage = 1, plSize = 16\<rparr> rows"
proof -
  have "payment_matches \<lparr>plStatus = st, plPage = 2 ^ 60 + 1, plSize = 16\<rparr> =
      payment_matches \<lparr>plStatus = st, plPage = 1, plSize = 16\<rparr>"
    by (simp add: payment_matches_def fun_eq_iff)
  moreover have "wrap64 (2 ^ 60 :: int) = 2 ^ 60" by (simp add: wrap64_id int64_def min_int64_def max_int64_def)
  moreover have "wrap64 (2 ^ 60 * 16) = 0" "wrap64 0 = 0"
    using wrap64_shift [of 0 1] by (simp_all add: wrap64_id int64_def min_int64_def max_int64_def)
  ultimately show ?thesis by (simp add: list_payments_query_def)
qed

lemma offset_negative:
  "list_payments_query \<lparr>plStatus = st, plPage = 2 ^ 59 + 1, plSize = 16\<rparr> rows =
     Inl (ErrExternal ''LIMIT and OFFSET must not be negative'')"
proof -
  have "wrap64 (2 ^ 59 :: int) = 2 ^ 59" by (simp add: wrap64_id int64_def min_int64_def max_int64_def)
  moreover have "wrap64 (2 ^ 59 * 16) = wrap64 (- (2 ^ 63))" using wrap64_shift [of "- (2 ^ 63)" 1] by simp
  moreover have "wrap64 (- (2 ^ 63)) = - (2 ^ 63)" by (simp add: wrap64_id int64_def min_int64_def max_int64_def)
  ultimately show ?thesis by (simp add: list_payments_query_def)
qed

section \<open>Interleaved cancellations\<close>

lemma cancel_check_ok:
  assumes "fault_free e" and "payments_tables d (table_of sha user) = Some rows" and "find (\<lambda>x. pID x = i) rows = Some p"
    and "pStatus p = PaymentPending"
  shows "cancel_payment_check e (table_of sha user) i d = Inr p"
  using assms by (simp add: cancel_payment_check_def getPayment_def query_row_def)

lemma cancel_write_ok:
  assumes "fault_free e" and "payments_tables d (table_of sha user) = Some rows" and "pID p = i"
    and "\<forall>x \<in> set (outbox_events d). eID x \<noteq> nextStorageID e ''evt''"
  shows "cancel_payment_write e (table_of sha user) user i p c d =
    Inr (d\<lparr>payments_tables := (payments_tables d)(table_of sha user \<mapsto> update_where (\<lambda>x. pID x = i) (cancelled_at c) rows),
       outbox_events := outbox_events d @
         [payment_event e user EventPaymentCancelled i (PaymentCancelledJSON \<lparr>pxID = i, pxCancelledAt = c\<rparr>) c]\<rparr>)"
  using assms
  by (simp add: cancel_payment_write_def insertPaymentCancelledOutboxEvent_def insertOutboxEvent_def insert_outbox_row_def
      payment_event_def cancelled_at_def [abs_def])

end
