(* ===== verification/Scenario.thy ===== *)
theory Scenario
  imports RefundEngine Idempotency Isolation PaymentLaws
begin

text \<open>
  One concrete run of the store, evaluated: a succeeded payment of 100 is seeded for the user
  \<open>alice\<close>, a refund of 60 is requested, claimed by a worker and completed. The states of this run
  are the concrete inputs at which the theorems about reachable states are instantiated.
\<close>

definition demo_sha :: "string \<Rightarrow> string" where
  "demo_sha u = take 8 (u @ replicate 8 (CHR ''.''))"

definition demo_payment :: Payment where
  "demo_payment =
     \<lparr>pID = ''p1'', pAmount = 100, pCurrency = ''RUB'', pStatus = PaymentSucceeded,
      pIdempotencyKey = '''', pCreatedAt = 0, pUpdatedAt = 0\<rparr>"

definition demo_request :: Refund where
  "demo_request =
     \<lparr>rID = ''refund_1'', rUserID = ''alice'', rPaymentID = ''p1'', rAmount = 60, rCurrency = '''',
      rStatus = RefundPending, rIdempotencyKey = ''k1'', rRequestHash = ''h1'', rAttempts = 0,
      rCheckFailures = 0, rRetryable = False, rManualReview = False, rLastError = '''',
      rNextActionAt = 5, rProcessingStartedAt = None, rLeaseToken = '''', rLeaseUntil = None,
      rVersion = 0, rCreatedAt = 5, rUpdatedAt = 5\<rparr>"

definition demo_pending :: Refund where
  "demo_pending = new_refund_row (demo_request\<lparr>rCurrency := ''RUB''\<rparr>)"

definition demo_claimed :: Refund where
  "demo_claimed = bump demo_pending (claim_submit_set 10 ''lease_61'' 40 demo_pending)"

definition demo_outcome :: Outcome where
  "demo_outcome =
     \<lparr>oStatus = RefundSucceeded, oRetryable = False, oManualReview = False, oLastError = '''',
      oCheckFailures = 0, oNextActionAt = 30, oReconciliation = None\<rparr>"

definition demo_done :: Refund where
  "demo_done = bump demo_claimed (outcome_set demo_outcome 12 demo_claimed)"

abbreviation pt :: string where "pt \<equiv> ''payments_u_616c6963652e2e2e''"
abbreviation wt :: string where "wt \<equiv> ''webhook_subscriptions_u_616c6963652e2e2e''"

definition demo_db1 :: db where
  "demo_db1 =
     empty_db\<lparr>app_users := [\<lparr>auUser = ''alice'', auPayments = pt, auWebhooks = wt, auCreatedAt = 0\<rparr>],
       payments_tables := [pt \<mapsto> [demo_payment]], webhooks_tables := [wt \<mapsto> []],
       outbox_events := [payment_event (calm 0 1 ''a'') ''alice'' EventPaymentCreated ''p1''
         (created_payload demo_payment) 0]\<rparr>"

definition demo_db2 :: db where
  "demo_db2 =
     demo_db1\<lparr>refunds := [demo_pending],
       outbox_events := outbox_events demo_db1 @ refund_events None demo_pending\<rparr>"

definition demo_db3 :: db where
  "demo_db3 = put_refund demo_pending demo_claimed demo_db2"

definition demo_db4 :: db where
  "demo_db4 = put_refund demo_claimed demo_done demo_db3"

definition demo_sys :: "db \<Rightarrow> sys" where
  "demo_sys d = \<lparr>sdb = d, caches = (\<lambda>_. {})(0 := {''alice''})\<rparr>"

lemma demo_trim [simp]: "TrimSpace ''alice'' = ''alice''" by code_simp

lemma demo_tables [simp]:
  "deriveUserTables demo_sha ''alice'' = \<lparr>utPayments = pt, utWebhooks = wt, utSuffix = ''616c6963652e2e2e''\<rparr>"
  by code_simp

lemma demo_ids [simp]: "nextStorageID (calm 0 1 rnd) ''evt'' = ''evt_0_1''"
  "hex_encode ''a'' = ''61''" "dec 1 = ''1''" "dec 2 = ''2''" "dec 3 = ''3''"
  by (simp add: nextStorageID_def) code_simp+

lemma demo_quote [simp]: "quoteIdentifier pt = Inr ([CHR 0x22] @ pt @ [CHR 0x22])"
  by (simp add: quoteIdentifier_def identifier_char_def less_eq_char_def)

lemma demo_pay_step:
  "CreatePayment demo_sha (calm 0 1 ''a'') (proc sys_init 0) ''alice'' demo_payment '''' =
     (Inr (demo_payment, True), \<lparr>pool = demo_db1, ensuredUsers = {''alice''}\<rparr>)"
  by (simp add: CreatePayment_def ensureUserSchema_def run_tx_def ensureUserTablesTx_def insert_app_user_def
      sys_init_def proc_def empty_db_def query_row_def create_table_def create_index_def quoteIdentifier_def
      identifier_char_def less_eq_char_def Let_def create_payment_tx_def create_payment_insert_def
      insert_payment_row_def insertPaymentCreatedOutboxEvent_def insertOutboxEvent_def insert_outbox_row_def
      demo_payment_def demo_db1_def payment_event_def created_payload_def
      int64_def min_int64_def max_int64_def)

lemma demo_refund_step:
  "CreateRefund demo_sha (calm 5 2 ''a'') \<lparr>pool = demo_db1, ensuredUsers = {''alice''}\<rparr> demo_request =
     (Inr (demo_pending, True), \<lparr>pool = demo_db2, ensuredUsers = {''alice''}\<rparr>)"
  by (simp add: CreateRefund_def ensureUserSchema_def run_tx_def create_refund_tx_def create_refund_new_def
      query_row_def scanRefund_def select_payment_def reserved_sum_def insert_refund_def guard_refund_insert_def
      refund_checks_def emit_refund_outbox_def insert_outbox_row_def refund_events_def refund_event_kind_def
      demo_payment_def demo_db1_def demo_db2_def demo_pending_def demo_request_def new_refund_row_def
      refund_event_def payment_event_def empty_db_def utf8_length_def max_int32_def
      int64_def min_int64_def max_int64_def wrap64_def Let_def)

lemma demo_claim_step:
  "ClaimRefund (calm 10 3 ''a'') demo_db2 ClaimSubmit 10 30 5 = (Inr (Some demo_claimed), demo_db3)"
  by (simp add: ClaimRefund_def claim_tx_def run_tx_def claim_pick_def claim_condition_def claim_due_def
      query_row_def scanRefund_def update_refund_def guard_refund_update_def refund_checks_def
      emit_refund_outbox_def insert_outbox_row_def refund_events_def refund_event_kind_def put_refund_def
      demo_db1_def demo_db2_def demo_db3_def demo_pending_def demo_claimed_def demo_request_def new_refund_row_def
      claim_submit_set_def bump_def time_add_def update_where_def ValidateRefundTransition_def
      refund_event_def payment_event_def empty_db_def utf8_length_def max_int32_def max_int64_def Let_def)

lemma demo_outcome_step:
  "ApplyRefundOutcome (calm 12 4 ''a'') demo_db3 demo_claimed demo_outcome 12 = (Inr (), demo_db4)"
  by (simp add: ApplyRefundOutcome_def apply_outcome_tx_def run_tx_def lease_valid_def lease_live_def
      query_row_def scanRefund_def update_refund_def guard_refund_update_def refund_checks_def
      emit_refund_outbox_def insert_outbox_row_def refund_events_def refund_event_kind_def put_refund_def
      demo_db1_def demo_db2_def demo_db3_def demo_db4_def demo_pending_def demo_claimed_def demo_done_def
      demo_outcome_def demo_request_def new_refund_row_def
      claim_submit_set_def outcome_set_def bump_def time_add_def update_where_def ValidateRefundTransition_def
      refund_event_def payment_event_def empty_db_def utf8_length_def max_int32_def max_int64_def Let_def)

section \<open>The run is reachable\<close>

lemma demo_put: "put_proc (demo_sys d) 0 \<lparr>pool = d', ensuredUsers = {''alice''}\<rparr> = demo_sys d'"
  "proc (demo_sys d) 0 = \<lparr>pool = d, ensuredUsers = {''alice''}\<rparr>"
  "(demo_sys d)\<lparr>sdb := d'\<rparr> = demo_sys d'" "sdb (demo_sys d) = d"
  by (simp_all add: put_proc_def proc_def demo_sys_def)

lemma demo_reachable:
  "reachable demo_sha 5 (demo_sys demo_db1)" "reachable demo_sha 5 (demo_sys demo_db2)"
  "reachable demo_sha 5 (demo_sys demo_db3)" "reachable demo_sha 5 (demo_sys demo_db4)"
proof -
  have "put_proc sys_init 0 \<lparr>pool = demo_db1, ensuredUsers = {''alice''}\<rparr> = demo_sys demo_db1"
    by (simp add: put_proc_def demo_sys_def sys_init_def)
  then show r1: "reachable demo_sha 5 (demo_sys demo_db1)"
    using reachable.step [OF reachable.init sys_step.create_payment [OF demo_pay_step]] by simp
  have "CreateRefund demo_sha (calm 5 2 ''a'') (proc (demo_sys demo_db1) 0) demo_request =
     (Inr (demo_pending, True), \<lparr>pool = demo_db2, ensuredUsers = {''alice''}\<rparr>)"
    using demo_refund_step by (simp add: demo_put)
  from reachable.step [OF r1 sys_step.create_refund [OF this]]
  show r2: "reachable demo_sha 5 (demo_sys demo_db2)" by (simp add: demo_put)
  have "ClaimRefund (calm 10 3 ''a'') (sdb (demo_sys demo_db2)) ClaimSubmit 10 30 5 =
    (Inr (Some demo_claimed), demo_db3)" using demo_claim_step by (simp add: demo_put)
  from reachable.step [OF r2 sys_step.claim [OF this]]
  show r3: "reachable demo_sha 5 (demo_sys demo_db3)" by (simp add: demo_put)
  have "ApplyRefundOutcome (calm 12 4 ''a'') (sdb (demo_sys demo_db3)) demo_claimed demo_outcome 12 =
    (Inr (), demo_db4)" using demo_outcome_step by (simp add: demo_put)
  from reachable.step [OF r3 sys_step.apply_outcome [OF this]]
  show "reachable demo_sha 5 (demo_sys demo_db4)" by (simp add: demo_put)
qed

lemmas demo_row_defs = demo_pending_def demo_claimed_def demo_done_def demo_request_def demo_outcome_def
  new_refund_row_def claim_submit_set_def outcome_set_def bump_def

lemmas demo_db_defs = demo_db1_def demo_db2_def demo_db3_def demo_db4_def put_refund_def update_where_def
  empty_db_def

lemma demo_rows:
  "refunds demo_db2 = [demo_pending]" "refunds demo_db3 = [demo_claimed]" "refunds demo_db4 = [demo_done]"
  "find_payment demo_db4 pt ''p1'' = Some demo_payment"
  by (simp_all add: demo_db_defs demo_row_defs find_payment_def demo_payment_def)

section \<open>A second claim, and a worker\<close>

text \<open>The worker that claimed the refund dies; after its lease another one takes the refund over.\<close>

definition demo_reclaimed :: Refund where
  "demo_reclaimed = bump demo_claimed (claim_reconcile_set 40 ''lease_61'' 70 demo_claimed)"

definition demo_db5 :: db where
  "demo_db5 = put_refund demo_claimed demo_reclaimed demo_db3"

lemma demo_reclaim_step:
  "ClaimRefund (calm 40 6 ''a'') demo_db3 ClaimReconcile 40 30 5 = (Inr (Some demo_reclaimed), demo_db5)"
  by (simp add: ClaimRefund_def claim_tx_def run_tx_def claim_pick_def claim_condition_def claim_due_def
      query_row_def scanRefund_def update_refund_def guard_refund_update_def refund_checks_def
      emit_refund_outbox_def insert_outbox_row_def refund_events_def refund_event_kind_def
      demo_db_defs demo_row_defs claim_reconcile_set_def time_add_def demo_reclaimed_def demo_db5_def
      utf8_length_def max_int32_def max_int64_def)

definition demo_opts :: Options where
  "demo_opts = DefaultOptions\<lparr>woLeaseDuration := 30, woRequestTimeout := 15\<rparr>"

definition demo_provider :: "unit Provider" where
  "demo_provider =
     \<lparr>pvSubmit = (\<lambda>w r. (Inr \<lparr>prOperationID = rID r, prStatus = Succeeded, prRetryable = False, prErrorCode = ''''\<rparr>, w)),
      pvLookup = (\<lambda>w i. (Inr \<lparr>prOperationID = i, prStatus = NotFound, prRetryable = False, prErrorCode = ''''\<rparr>, w))\<rparr>"

definition demo_attempt :: "env \<Rightarrow> go_time \<Rightarrow> db attempt_env" where
  "demo_attempt e t =
     \<lparr>atClaim = e, atClaimedAt = t, atOthers = (\<lambda>d. d), atRand = 0, atNow = t + 2, atSave = calm (t + 2) 7 ''b''\<rparr>"

lemma demo_attempt_simps [simp]:
  "atClaim (demo_attempt e t) = e" "atClaimedAt (demo_attempt e t) = t" "atOthers (demo_attempt e t) = (\<lambda>d. d)"
  "atRand (demo_attempt e t) = 0" "atNow (demo_attempt e t) = t + 2" "atSave (demo_attempt e t) = calm (t + 2) 7 ''b''"
  by (simp_all add: demo_attempt_def)

lemma demo_opts_simps [simp]:
  "woLeaseDuration demo_opts = 30" "woMaxAttempts demo_opts = 5" "Validate demo_opts = None"
  by (simp_all add: demo_opts_def DefaultOptions_def Validate_def wrap64_id int64_def min_int64_def max_int64_def
      Second_def Minute_def)

lemma demo_inv: "refunds_inv 5 demo_db3" "refunds_inv 5 demo_db5"
proof -
  show "refunds_inv 5 demo_db3"
    using reachable_inv [OF demo_reachable(3)] by (simp add: demo_put sys_inv_def db_inv_def)
  have "ClaimRefund (calm 40 6 ''a'') (sdb (demo_sys demo_db3)) ClaimReconcile 40 30 5 = (Inr (Some demo_reclaimed), demo_db5)"
    using demo_reclaim_step by (simp add: demo_put)
  from reachable.step [OF demo_reachable(3) sys_step.claim [OF this]]
  have "reachable demo_sha 5 (demo_sys demo_db5)" by (simp add: demo_put)
  from reachable_inv [OF this] show "refunds_inv 5 demo_db5" by (simp add: demo_put sys_inv_def db_inv_def)
qed

lemma demo_ids2 [simp]: "dec 4 = ''4''" "hex_encode ''b'' = ''62''"
  by code_simp+

lemma demo_fresh:
  "fresh_event demo_claimed demo_db3" "fresh_event demo_reclaimed demo_db5"
  "fresh_reconciliation (calm t q ''b'') demo_db5"
  by (simp_all add: fresh_event_def fresh_reconciliation_def demo_db5_def demo_reclaimed_def demo_db_defs demo_row_defs
      refund_events_def refund_event_kind_def refund_event_def payment_event_def claim_reconcile_set_def)

lemma demo_counts:
  "rCheckFailures demo_claimed = 0" "rVersion demo_claimed = 2" "rCheckFailures demo_reclaimed = 0"
  "rVersion demo_reclaimed = 3" "refunds demo_db5 = [demo_reclaimed]"
  by (simp_all add: demo_reclaimed_def demo_db5_def claim_reconcile_set_def demo_row_defs demo_db_defs)

lemma demo_run: "run demo_sha 5 (demo_sys demo_db2) (demo_sys demo_db4)"
proof -
  have "ClaimRefund (calm 10 3 ''a'') (sdb (demo_sys demo_db2)) ClaimSubmit 10 30 5 = (Inr (Some demo_claimed), demo_db3)"
    using demo_claim_step by (simp add: demo_put)
  then have "sys_step demo_sha 5 (demo_sys demo_db2) ((demo_sys demo_db2)\<lparr>sdb := demo_db3\<rparr>)"
    by (rule sys_step.claim) simp
  moreover have "ApplyRefundOutcome (calm 12 4 ''a'') (sdb (demo_sys demo_db3)) demo_claimed demo_outcome 12 = (Inr (), demo_db4)"
    using demo_outcome_step by (simp add: demo_put)
  then have "sys_step demo_sha 5 (demo_sys demo_db3) ((demo_sys demo_db3)\<lparr>sdb := demo_db4\<rparr>)"
    by (rule sys_step.apply_outcome)
  ultimately show ?thesis by (simp add: demo_put)
qed

section \<open>A payment with an idempotency key\<close>

definition demo_keyed :: Payment where
  "demo_keyed =
     \<lparr>pID = ''p2'', pAmount = 40, pCurrency = ''RUB'', pStatus = PaymentPending,
      pIdempotencyKey = ''k9'', pCreatedAt = 50, pUpdatedAt = 50\<rparr>"

definition demo_db6 :: db where
  "demo_db6 =
     demo_db1\<lparr>payments_tables := (payments_tables demo_db1)(pt \<mapsto> [demo_payment, demo_keyed]),
       idempotency_keys := key_rows ''alice'' demo_keyed ''h1'',
       outbox_events := outbox_events demo_db1 @
         [payment_event (calm 50 8 ''a'') ''alice'' EventPaymentCreated ''p2'' (created_payload demo_keyed) 50]\<rparr>"

lemma demo_ids3 [simp]: "nextStorageID (calm 50 8 rnd) ''evt'' = ''evt_50_8''" "nextStorageID (calm 60 9 rnd) ''evt'' = ''evt_60_9''"
  "nextStorageID (calm 61 10 rnd) ''evt'' = ''evt_61_10''"
proof -
  have "dec 50 = ''50''" "dec 8 = ''8''" "dec 60 = ''60''" "dec 9 = ''9''" "dec 61 = ''61''" "dec 10 = ''10''"
    by code_simp+
  then show "nextStorageID (calm 50 8 rnd) ''evt'' = ''evt_50_8''" "nextStorageID (calm 60 9 rnd) ''evt'' = ''evt_60_9''"
    "nextStorageID (calm 61 10 rnd) ''evt'' = ''evt_61_10''"
    by (simp_all add: nextStorageID_def)
qed

lemma demo_keyed_step:
  "CreatePayment demo_sha (calm 50 8 ''a'') \<lparr>pool = demo_db1, ensuredUsers = {''alice''}\<rparr> ''alice'' demo_keyed ''h1'' =
     (Inr (demo_keyed, True), \<lparr>pool = demo_db6, ensuredUsers = {''alice''}\<rparr>)"
  by (simp add: CreatePayment_def ensureUserSchema_def run_tx_def Let_def create_payment_tx_def create_payment_insert_def
      find_idem_key_def insert_payment_row_def insertPaymentCreatedOutboxEvent_def insertOutboxEvent_def
      insert_outbox_row_def demo_payment_def demo_keyed_def demo_db1_def demo_db6_def payment_event_def created_payload_def
      key_rows_def empty_db_def int64_def min_int64_def max_int64_def)

lemma demo_keyed_reachable: "reachable demo_sha 5 (demo_sys demo_db6)"
proof -
  have "CreatePayment demo_sha (calm 50 8 ''a'') (proc (demo_sys demo_db1) 0) ''alice'' demo_keyed ''h1'' =
     (Inr (demo_keyed, True), \<lparr>pool = demo_db6, ensuredUsers = {''alice''}\<rparr>)"
    using demo_keyed_step by (simp add: demo_put)
  from reachable.step [OF demo_reachable(1) sys_step.create_payment [OF this]] show ?thesis by (simp add: demo_put)
qed

definition demo_db7 :: db where
  "demo_db7 =
     demo_db6\<lparr>payments_tables := (payments_tables demo_db6)(pt \<mapsto> [demo_payment, cancelled_at 60 demo_keyed]),
       outbox_events := outbox_events demo_db6 @
         [payment_event (calm 60 9 ''a'') ''alice'' EventPaymentCancelled ''p2'' (PaymentCancelledJSON \<lparr>pxID = ''p2'', pxCancelledAt = 60\<rparr>) 60]\<rparr>"

lemma demo_cancel_step:
  "CancelPayment demo_sha (calm 60 9 ''a'') \<lparr>pool = demo_db6, ensuredUsers = {''alice''}\<rparr> ''alice'' ''p2'' 60 =
     (Inr (), \<lparr>pool = demo_db7, ensuredUsers = {''alice''}\<rparr>)"
  by (simp add: CancelPayment_def ensureUserSchema_def run_tx_def Let_def cancel_payment_tx_def cancel_payment_check_def
      cancel_payment_write_def getPayment_def query_row_def insertPaymentCancelledOutboxEvent_def insertOutboxEvent_def
      insert_outbox_row_def update_where_def demo_payment_def demo_keyed_def demo_db1_def demo_db6_def demo_db7_def
      payment_event_def cancelled_at_def)

end
