(* ===== verification/ServeMux.thy ===== *)
theory ServeMux
  imports Prelude
begin

text \<open>
  \<open>http.ServeMux\<close> as the two routers of the program use it (\<open>internal/httpapi/router.go\<close>,
  \<open>internal/mockprovider/server.go\<close>): patterns of a method and a path with at most one wildcard, matched segment by
  segment against the escaped path of the request, each segment unescaped first. No two patterns of a router match
  the same request, so the order of the list does not matter. Requests with the method \<open>CONNECT\<close> are left out.

  The lemmas give the segments of a path built by joining, which is how the matches of concrete routes are computed.
\<close>

section \<open>Unescaping\<close>

definition unhex :: "char \<Rightarrow> nat option" where
  "unhex c =
     (let n = of_char c :: nat in
      if 48 \<le> n \<and> n < 58 then Some (n - 48) else if 65 \<le> n \<and> n < 71 then Some (n - 55)
      else if 97 \<le> n \<and> n < 103 then Some (n - 87) else None)"

fun PathUnescape :: "string \<Rightarrow> string option" where
  "PathUnescape [] = Some []"
| "PathUnescape (c # cs) =
     (if c \<noteq> CHR ''%'' then map_option ((#) c) (PathUnescape cs)
      else case cs of
             h # l # rest \<Rightarrow>
               (case (unhex h, unhex l) of
                  (Some a, Some b) \<Rightarrow> map_option ((#) (char_of (16 * a + b))) (PathUnescape rest)
                | _ \<Rightarrow> None)
           | _ \<Rightarrow> None)"

section \<open>Patterns\<close>

datatype pat_seg = Lit string | Wild

text \<open>A handler takes the text of the wildcard, the empty string when its pattern has none (\<open>PathValue\<close>).\<close>

record 'h mux_pattern =
  mpMethod :: string
  mpPath :: "pat_seg list"
  mpHandler :: "string \<Rightarrow> 'h"

text \<open>
  A wildcard does not match the end of a path that ends with a slash. The router reads that end as the
  segment \<open>/\<close>, so a segment that unescapes to a slash is not matched either.
\<close>

fun match_path :: "pat_seg list \<Rightarrow> string list \<Rightarrow> string option" where
  "match_path [] [] = Some ''''"
| "match_path (Lit l # ps) (s # ss) = (if s = l then match_path ps ss else None)"
| "match_path (Wild # ps) (s # ss) = (if s = ''/'' then None else map_option (\<lambda>_. s) (match_path ps ss))"
| "match_path _ _ = None"

text \<open>The segments after the leading slash, unescaped.\<close>

definition unescape_segment :: "string \<Rightarrow> string" where
  "unescape_segment s = (case PathUnescape s of None \<Rightarrow> s | Some t \<Rightarrow> t)"

definition path_segments :: "string list \<Rightarrow> string list" where
  "path_segments raw = map unescape_segment (butlast raw) @ [if last raw = '''' then ''/'' else unescape_segment (last raw)]"

definition clean_segments :: "string list \<Rightarrow> bool" where
  "clean_segments raw \<longleftrightarrow> list_all (\<lambda>s. s \<notin> {'''', ''.'', ''..''}) (butlast raw) \<and> last raw \<notin> {''.'', ''..''}"

definition method_matches :: "string \<Rightarrow> string \<Rightarrow> bool" where
  "method_matches wanted method \<longleftrightarrow> wanted = method \<or> wanted = ''GET'' \<and> method = ''HEAD''"

fun find_pattern :: "'h mux_pattern list \<Rightarrow> string \<Rightarrow> string list \<Rightarrow> 'h option" where
  "find_pattern [] method segs = None"
| "find_pattern (p # ps) method segs =
     (case match_path (mpPath p) segs of
        Some i \<Rightarrow> if method_matches (mpMethod p) method then Some (mpHandler p i) else find_pattern ps method segs
      | None \<Rightarrow> find_pattern ps method segs)"

text \<open>The left side is the status of the router's own answer.\<close>

definition serve_mux :: "'h mux_pattern list \<Rightarrow> string \<Rightarrow> string \<Rightarrow> int + 'h" where
  "serve_mux ps method path =
     (case split_on (CHR ''/'') path of
        first # s # ss \<Rightarrow>
          if first \<noteq> '''' \<or> \<not> clean_segments (s # ss) then Inl 301
          else
            (case find_pattern ps method (path_segments (s # ss)) of
               Some h \<Rightarrow> Inr h
             | None \<Rightarrow>
               if list_ex (\<lambda>p. match_path (mpPath p) (path_segments (s # ss)) \<noteq> None) ps then Inl 405 else Inl 404)
      | _ \<Rightarrow> Inl 301)"

definition pattern :: "string \<Rightarrow> pat_seg list \<Rightarrow> (string \<Rightarrow> 'h) \<Rightarrow> 'h mux_pattern" where
  "pattern method path h = \<lparr>mpMethod = method, mpPath = path, mpHandler = h\<rparr>"

lemma pattern_simps [simp]:
  "mpMethod (pattern method path h) = method" "mpPath (pattern method path h) = path" "mpHandler (pattern method path h) = h"
  by (simp_all add: pattern_def)

lemma serve_mux_Inl: "serve_mux ps method path = Inl code \<Longrightarrow> code \<in> {301, 404, 405}"
  by (auto simp: serve_mux_def split: list.splits if_splits option.splits)

lemma find_pattern_Some:
  "find_pattern ps method segs = Some h \<Longrightarrow>
     \<exists>p \<in> set ps. \<exists>i. match_path (mpPath p) segs = Some i \<and> method_matches (mpMethod p) method \<and> h = mpHandler p i"
  by (induction ps) (auto split: option.splits if_splits)

lemma serve_mux_Inr:
  assumes "serve_mux ps method path = Inr h"
  shows "\<exists>p \<in> set ps. \<exists>i. method_matches (mpMethod p) method \<and> h = mpHandler p i"
  using assms find_pattern_Some [of ps] by (auto simp: serve_mux_def split: list.splits if_splits option.splits) blast+

text \<open>The first segment of a path.\<close>

lemma split_path:
  assumes "CHR ''/'' \<notin> set a"
  shows "split_on (CHR ''/'') (CHR ''/'' # a) = ['''', a]"
    and "split_on (CHR ''/'') (CHR ''/'' # a @ CHR ''/'' # rest) = '''' # a # split_on (CHR ''/'') rest"
  using assms by (simp_all add: split_on_no split_on_append)

end
