(* ===== verification/MockProvider.thy ===== *)
theory MockProvider
  imports ProviderClient
begin

text \<open>
  \<open>internal/mockprovider/server.go\<close>: the stand-in for the refund provider. Its state is the record of
  operations in memory, the copy of it in the file, the answering mode and two counters. A request is what
  the router has made of it: the matched route with its path value, the two headers the handlers read, and
  the body. \<open>decode\<close> of a body is a parameter for each of the three input types (\<open>None\<close> for an error); the
  operating system is the argument \<open>fs\<close>, which says which file operation fails.

  The theorems show that a final operation never changes again, not even across restarts and failing disks,
  and that submitting is idempotent: the basis on which the refund worker may repeat a submission.
\<close>

section \<open>State\<close>

record Record =
  rcRequest :: Request
  rcResult :: Result

record Server =
  svKey :: string
  svFile :: string
  svMode :: string
  svDelay :: duration
  svRecords :: "string \<rightharpoonup> Record"
  svPosts :: int
  svLookups :: int
  svDisk :: "(string \<rightharpoonup> Record) option"

definition validMode :: "string \<Rightarrow> bool" where
  "validMode mode \<longleftrightarrow>
     mode \<in> {''ok'', ''processing'', ''unknown'', ''invalid'', ''failed'', ''retryable-failed'', ''unavailable'',
       ''rate-limit'', ''timeout-after-success''}"

definition ValidMode :: "string \<Rightarrow> bool" where
  "ValidMode mode \<longleftrightarrow> validMode (TrimSpace mode)"

text \<open>
  Starting a server. The file is the last argument: \<open>Inl err\<close> if it cannot be read, \<open>Inr None\<close> if there is
  none, otherwise its contents, where the inner \<open>None\<close> is a file that is not valid JSON.
\<close>

definition New_mock ::
  "string \<Rightarrow> string \<Rightarrow> string \<Rightarrow> duration \<Rightarrow> go_error + (string \<rightharpoonup> Record) option option \<Rightarrow> go_error + Server" where
  "New_mock key file mode delay contents =
     (if key = '''' \<or> \<not> validMode mode \<or> delay \<le> 0 then Inl (ErrNew ''invalid mock provider configuration'')
      else
        let s = \<lparr>svKey = key, svFile = file, svMode = mode, svDelay = delay, svRecords = Map.empty,
                 svPosts = 0, svLookups = 0, svDisk = None\<rparr>
        in if file = '''' then Inr s
           else case contents of
                  Inl err \<Rightarrow> Inl err
                | Inr None \<Rightarrow> Inr s
                | Inr (Some None) \<Rightarrow> Inl (ErrExternal ''invalid JSON'')
                | Inr (Some (Some m)) \<Rightarrow> Inr (s\<lparr>svRecords := m, svDisk := Some m\<rparr>))"

section \<open>Saving\<close>

text \<open>The file operations of \<open>saveLocked\<close> in their order; the rename is what replaces the file.\<close>

definition saveLocked :: "(string \<Rightarrow> go_error option) \<Rightarrow> Server \<Rightarrow> string \<Rightarrow> Record \<Rightarrow> go_error option \<times> Server" where
  "saveLocked fs s i rec =
     (let nxt = (svRecords s)(i \<mapsto> rec) in
      if svFile s = '''' then (None, s\<lparr>svRecords := nxt\<rparr>)
      else
        case find (\<lambda>op. fs op \<noteq> None)
               [''marshal'', ''mkdir'', ''create temp'', ''write'', ''sync'', ''close'', ''rename''] of
          Some op \<Rightarrow> (fs op, s)
        | None \<Rightarrow>
          let s1 = s\<lparr>svDisk := Some nxt\<rparr> in
          case find (\<lambda>op. fs op \<noteq> None) [''open directory'', ''sync directory''] of
            Some op \<Rightarrow> (fs op, s1)
          | None \<Rightarrow> (None, s1\<lparr>svRecords := nxt\<rparr>))"

section \<open>Handlers\<close>

datatype mock_body =
    BResult Result
  | BError string
  | BMode string
  | BStats int int nat nat string
  | BStatus string

datatype mock_reply = Reply int (rpRetryAfter: string) mock_body | Dropped

definition mode_result :: "string \<Rightarrow> string \<Rightarrow> Result" where
  "mode_result mode i =
     (let result = \<lparr>prOperationID = i, prStatus = Succeeded, prRetryable = False, prErrorCode = ''''\<rparr>
      in if mode = ''processing'' then result\<lparr>prStatus := Processing\<rparr>
         else if mode = ''unknown'' then result\<lparr>prStatus := Unknown\<rparr>
         else if mode = ''failed'' then result\<lparr>prStatus := Failed, prErrorCode := ''declined''\<rparr>
         else if mode = ''retryable-failed''
         then result\<lparr>prStatus := Failed, prRetryable := True, prErrorCode := ''temporary_decline''\<rparr>
         else result)"

definition zero_result :: Result where
  "zero_result = \<lparr>prOperationID = '''', prStatus = '''', prRetryable = False, prErrorCode = ''''\<rparr>"

definition submit_new :: "(string \<Rightarrow> go_error option) \<Rightarrow> Server \<Rightarrow> Request \<Rightarrow> (Result \<times> int \<times> bool) \<times> Server" where
  "submit_new fs s req =
     (if svMode s = ''unavailable'' then ((zero_result, 503, False), s)
      else if svMode s = ''rate-limit'' then ((zero_result, 429, False), s)
      else if svMode s = ''invalid'' then ((zero_result, 400, False), s)
      else
        let result = mode_result (svMode s) (rqOperationID req) in
        case saveLocked fs s (rqOperationID req) \<lparr>rcRequest = req, rcResult = result\<rparr> of
          (Some err, s') \<Rightarrow> ((zero_result, 500, False), s')
        | (None, s') \<Rightarrow> ((result, 200, svMode s = ''timeout-after-success''), s'))"

definition submitLocked :: "(string \<Rightarrow> go_error option) \<Rightarrow> Server \<Rightarrow> Request \<Rightarrow> (Result \<times> int \<times> bool) \<times> Server" where
  "submitLocked fs s0 req =
     (let s = s0\<lparr>svPosts := svPosts s0 + 1\<rparr> in
      case svRecords s (rqOperationID req) of
        None \<Rightarrow> submit_new fs s req
      | Some old \<Rightarrow>
        if rcRequest old \<noteq> req then ((zero_result, 409, False), s)
        else if prStatus (rcResult old) \<noteq> Failed \<or> \<not> prRetryable (rcResult old) then ((rcResult old, 200, False), s)
        else submit_new fs s req)"

definition StatusText :: "int \<Rightarrow> string" where
  "StatusText code =
     (if code = 400 then ''Bad Request'' else if code = 409 then ''Conflict'' else if code = 429 then ''Too Many Requests''
      else if code = 500 then ''Internal Server Error'' else if code = 503 then ''Service Unavailable'' else '''')"

text \<open>\<open>input\<close> is the decoded body, \<open>waited\<close> what \<open>wait\<close> returns.\<close>

definition submit_valid :: "Request \<Rightarrow> string \<Rightarrow> bool" where
  "submit_valid req idem \<longleftrightarrow>
     rqOperationID req \<noteq> '''' \<and> length (rqOperationID req) \<le> 128 \<and> rqPaymentID req \<noteq> '''' \<and> 0 < rqAmount req \<and>
     length (rqCurrency req) = 3 \<and> idem = rqOperationID req"

definition submit_handler ::
  "(string \<Rightarrow> go_error option) \<Rightarrow> Server \<Rightarrow> Request option \<Rightarrow> string \<Rightarrow> bool \<Rightarrow> mock_reply \<times> Server" where
  "submit_handler fs s input idem waited =
     (case input of
        None \<Rightarrow> (Reply 400 '''' (BError ''invalid_request''), s)
      | Some req \<Rightarrow>
        if \<not> submit_valid req idem then (Reply 400 '''' (BError ''invalid_request''), s)
        else
          case submitLocked fs s req of
            ((result, code, delayed), s') \<Rightarrow>
              if code \<ge> 300
              then (Reply code (if code = 429 then ''2'' else '''') (BError (StatusText code)), s')
              else if delayed \<and> \<not> waited then (Dropped, s')
              else (Reply code '''' (BResult result), s'))"

definition lookup_handler :: "Server \<Rightarrow> string \<Rightarrow> mock_reply \<times> Server" where
  "lookup_handler s0 i =
     (let s = s0\<lparr>svLookups := svLookups s0 + 1\<rparr> in
      case svRecords s i of
        None \<Rightarrow> (Reply 404 '''' (BError ''not_found''), s)
      | Some rec \<Rightarrow> (Reply 200 '''' (BResult (rcResult rec)), s))"

definition setMode :: "Server \<Rightarrow> string option \<Rightarrow> mock_reply \<times> Server" where
  "setMode s input =
     (case input of
        None \<Rightarrow> (Reply 400 '''' (BError ''invalid mode''), s)
      | Some mode \<Rightarrow>
        if \<not> validMode mode then (Reply 400 '''' (BError ''invalid mode''), s)
        else (Reply 200 '''' (BMode mode), s\<lparr>svMode := mode\<rparr>))"

definition final_result :: "Result \<Rightarrow> bool" where
  "final_result r \<longleftrightarrow> prStatus r = Succeeded \<or> prStatus r = Failed \<and> \<not> prRetryable r"

definition resolve ::
  "(string \<Rightarrow> go_error option) \<Rightarrow> Server \<Rightarrow> string \<Rightarrow> (provider_status \<times> bool) option \<Rightarrow> mock_reply \<times> Server" where
  "resolve fs s i input =
     (case input of
        None \<Rightarrow> (Reply 400 '''' (BError ''invalid resolution''), s)
      | Some (status, retryable) \<Rightarrow>
        if status \<noteq> Succeeded \<and> status \<noteq> Failed \<or> status = Succeeded \<and> retryable
        then (Reply 400 '''' (BError ''invalid resolution''), s)
        else
          case svRecords s i of
            None \<Rightarrow> (Reply 404 '''' (BError ''not_found''), s)
          | Some rec \<Rightarrow>
            if final_result (rcResult rec) then (Reply 409 '''' (BError ''operation is final''), s)
            else
              let rec' = rec\<lparr>rcResult := (rcResult rec)\<lparr>prStatus := status, prRetryable := retryable, prErrorCode := ''''\<rparr>\<rparr> in
              case saveLocked fs s i rec' of
                (Some err, s') \<Rightarrow> (Reply 500 '''' (BError ''persist failed''), s')
              | (None, s') \<Rightarrow> (Reply 200 '''' (BResult (rcResult rec')), s'))"

definition stats :: "Server \<Rightarrow> mock_reply \<times> Server" where
  "stats s =
     (Reply 200 '''' (BStats (svPosts s) (svLookups s) (card (dom (svRecords s)))
        (card {i. \<exists>rec. svRecords s i = Some rec \<and> prStatus (rcResult rec) = Succeeded}) (svMode s)), s)"

section \<open>The handler\<close>

datatype mock_route =
    Healthz
  | PostRefunds
  | GetRefund_route string
  | PostMode
  | PostResolve string
  | GetStats
  | NoRoute int

record mock_request =
  mqRoute :: mock_route
  mqAuthorization :: string
  mqIdempotencyKey :: string
  mqBody :: string
  mqWaited :: bool

record decoders =
  deRequest :: "string \<Rightarrow> Request option"
  deMode :: "string \<Rightarrow> string option"
  deResolve :: "string \<Rightarrow> (provider_status \<times> bool) option"

definition Handler ::
  "decoders \<Rightarrow> (string \<Rightarrow> go_error option) \<Rightarrow> Server \<Rightarrow> mock_request \<Rightarrow> mock_reply \<times> Server" where
  "Handler de fs s r =
     (if mqRoute r = Healthz then (Reply 200 '''' (BStatus ''ok''), s)
      else if mqAuthorization r \<noteq> ''Bearer '' @ svKey s then (Reply 401 '''' (BError ''unauthorized''), s)
      else
        case mqRoute r of
          PostRefunds \<Rightarrow> submit_handler fs s (deRequest de (mqBody r)) (mqIdempotencyKey r) (mqWaited r)
        | GetRefund_route i \<Rightarrow> lookup_handler s i
        | PostMode \<Rightarrow> setMode s (deMode de (mqBody r))
        | PostResolve i \<Rightarrow> resolve fs s i (deResolve de (mqBody r))
        | GetStats \<Rightarrow> stats s
        | NoRoute code \<Rightarrow> (Reply code '''' (BError (StatusText code)), s)
        | Healthz \<Rightarrow> (Reply 200 '''' (BStatus ''ok''), s))"

section \<open>Runs of the server\<close>

text \<open>A step is one request with any failures of the file system, or a restart from the file.\<close>

inductive mock_step :: "Server \<Rightarrow> Server \<Rightarrow> bool" where
  request: "Handler de fs s r = (rep, s') \<Longrightarrow> mock_step s s'"
| restart: "\<lbrakk>svFile s \<noteq> ''''; New_mock (svKey s) (svFile s) mode delay (Inr (map_option Some (svDisk s))) = Inr s'\<rbrakk>
            \<Longrightarrow> mock_step s s'"

text \<open>
  The invariant: records are filed under their operation, results are well formed, and what is final in
  memory is in the file.
\<close>

definition record_ok :: "string \<Rightarrow> Record \<Rightarrow> bool" where
  "record_ok i rec \<longleftrightarrow>
     rqOperationID (rcRequest rec) = i \<and> prOperationID (rcResult rec) = i \<and> validStatus (prStatus (rcResult rec)) \<and>
     (prRetryable (rcResult rec) \<longrightarrow> prStatus (rcResult rec) = Failed)"

definition records_ok :: "(string \<rightharpoonup> Record) \<Rightarrow> bool" where
  "records_ok m \<longleftrightarrow> (\<forall>i rec. m i = Some rec \<longrightarrow> record_ok i rec)"

definition mock_inv :: "Server \<Rightarrow> bool" where
  "mock_inv s \<longleftrightarrow>
     records_ok (svRecords s) \<and> (case svDisk s of None \<Rightarrow> True | Some m \<Rightarrow> records_ok m) \<and>
     (svFile s \<noteq> '''' \<longrightarrow> (\<forall>i rec. svRecords s i = Some rec \<and> final_result (rcResult rec) \<longrightarrow>
        (\<exists>m. svDisk s = Some m \<and> m i = Some rec)))"

text \<open>What a step keeps: final records stay, and requests of records stay.\<close>

definition mock_keeps :: "Server \<Rightarrow> Server \<Rightarrow> bool" where
  "mock_keeps s s' \<longleftrightarrow>
     svFile s' = svFile s \<and> svKey s' = svKey s \<and>
     (\<forall>i rec. svRecords s i = Some rec \<and> final_result (rcResult rec) \<longrightarrow> svRecords s' i = Some rec)"

lemma saveLocked_cases:
  assumes "saveLocked fs s i rec = (err, s')"
  shows "svFile s' = svFile s \<and> svKey s' = svKey s"
    and "svRecords s' = svRecords s \<and> (svDisk s' = svDisk s \<or> svDisk s' = Some ((svRecords s)(i \<mapsto> rec))) \<or>
      err = None \<and> svRecords s' = (svRecords s)(i \<mapsto> rec) \<and> (svFile s = '''' \<and> svDisk s' = svDisk s \<or> svDisk s' = Some ((svRecords s)(i \<mapsto> rec)))"
  using assms by (auto simp: saveLocked_def Let_def split: if_splits option.splits)

lemma records_ok_upd: "records_ok m \<Longrightarrow> record_ok i rec \<Longrightarrow> records_ok (m(i \<mapsto> rec))"
  by (simp add: records_ok_def)

lemma save_keeps:
  assumes run: "saveLocked fs s i rec = (err, s')" and inv: "mock_inv s" and "record_ok i rec"
    and free: "\<And>old. svRecords s i = Some old \<Longrightarrow> \<not> final_result (rcResult old)"
  shows "mock_inv s' \<and> mock_keeps s s'"
proof -
  note c = saveLocked_cases [OF run]
  have ok: "records_ok ((svRecords s)(i \<mapsto> rec))" using inv assms(3) by (simp add: mock_inv_def records_ok_upd)
  have same: "j \<noteq> i" if "svRecords s j = Some old" "final_result (rcResult old)" for j old using that free by blast
  from c(2) show ?thesis
  proof (elim disjE conjE)
    assume "svRecords s' = svRecords s" "svDisk s' = svDisk s"
    with c(1) inv show ?thesis by (simp add: mock_inv_def mock_keeps_def)
  next
    assume "svRecords s' = svRecords s" "svDisk s' = Some ((svRecords s)(i \<mapsto> rec))"
    with c(1) inv ok same show ?thesis by (simp add: mock_inv_def mock_keeps_def)
  next
    assume "svRecords s' = (svRecords s)(i \<mapsto> rec)" "svFile s = ''''" "svDisk s' = svDisk s"
    with c(1) inv ok same show ?thesis by (simp add: mock_inv_def mock_keeps_def)
  next
    assume "svRecords s' = (svRecords s)(i \<mapsto> rec)" "svDisk s' = Some ((svRecords s)(i \<mapsto> rec))"
    with c(1) inv ok same show ?thesis by (simp add: mock_inv_def mock_keeps_def)
  qed
qed

lemma mode_result_ok: "record_ok (rqOperationID req) \<lparr>rcRequest = req, rcResult = mode_result mode (rqOperationID req)\<rparr>"
  by (simp add: record_ok_def mode_result_def validStatus_def Let_def)

lemma mock_keeps_refl [simp]: "mock_keeps s s"
  by (simp add: mock_keeps_def)

lemma counters_irrelevant [simp]:
  "mock_inv (s\<lparr>svPosts := n\<rparr>) = mock_inv s" "mock_inv (s\<lparr>svLookups := n\<rparr>) = mock_inv s" "mock_inv (s\<lparr>svMode := mode\<rparr>) = mock_inv s"
  "mock_keeps (s\<lparr>svPosts := n\<rparr>) t = mock_keeps s t" "mock_keeps s (s\<lparr>svPosts := n\<rparr>)" "mock_keeps s (s\<lparr>svLookups := n\<rparr>)"
  "mock_keeps s (s\<lparr>svMode := mode\<rparr>)"
  by (simp_all add: mock_inv_def mock_keeps_def)

lemma submit_new_keeps:
  assumes "submit_new fs s req = (ans, s')" and "mock_inv s"
    and "\<And>old. svRecords s (rqOperationID req) = Some old \<Longrightarrow> \<not> final_result (rcResult old)"
  shows "mock_inv s' \<and> mock_keeps s s'"
  using assms save_keeps [OF _ assms(2) mode_result_ok assms(3)]
  by (auto simp: submit_new_def Let_def split: if_splits prod.splits option.splits)

lemma submitLocked_keeps:
  assumes run: "submitLocked fs s req = (ans, s')" and inv: "mock_inv s"
  shows "mock_inv s' \<and> mock_keeps s s'"
proof (cases "svRecords s (rqOperationID req)")
  case None
  then show ?thesis
    using run inv submit_new_keeps [of fs "s\<lparr>svPosts := svPosts s + 1\<rparr>" req ans s'] by (simp add: submitLocked_def)
next
  case (Some old)
  show ?thesis
  proof (cases "rcRequest old = req \<and> prStatus (rcResult old) = Failed \<and> prRetryable (rcResult old)")
    case True
    then show ?thesis
      using run inv Some submit_new_keeps [of fs "s\<lparr>svPosts := svPosts s + 1\<rparr>" req ans s']
      by (simp add: submitLocked_def final_result_def)
  next
    case False
    then have "s' = s\<lparr>svPosts := svPosts s + 1\<rparr>"
      using run Some by (auto simp: submitLocked_def Let_def split: if_splits)
    then show ?thesis using inv by simp
  qed
qed

lemma resolve_keeps:
  assumes run: "resolve fs s i input = (rep, s')" and inv: "mock_inv s"
  shows "mock_inv s' \<and> mock_keeps s s'"
proof (cases "s' = s")
  case True
  with inv show ?thesis by simp
next
  case False
  then obtain status retryable rec err where ok: "status = Succeeded \<or> status = Failed" "\<not> (status = Succeeded \<and> retryable)"
    and rec: "svRecords s i = Some rec" "\<not> final_result (rcResult rec)"
    and save: "saveLocked fs s i (rec\<lparr>rcResult := (rcResult rec)\<lparr>prStatus := status, prRetryable := retryable, prErrorCode := ''''\<rparr>\<rparr>) = (err, s')"
    using run by (auto simp: resolve_def Let_def split: if_splits option.splits prod.splits)
  have "record_ok i rec" using inv rec(1) by (simp add: mock_inv_def records_ok_def)
  with ok have "record_ok i (rec\<lparr>rcResult := (rcResult rec)\<lparr>prStatus := status, prRetryable := retryable, prErrorCode := ''''\<rparr>\<rparr>)"
    by (auto simp: record_ok_def validStatus_def)
  from save_keeps [OF save inv this] rec show ?thesis by simp
qed

lemma Handler_keeps:
  assumes run: "Handler de fs s r = (rep, s')" and inv: "mock_inv s"
  shows "mock_inv s' \<and> mock_keeps s s'"
proof -
  have "submit_handler fs s input idem waited = (rep, s') \<Longrightarrow> mock_inv s' \<and> mock_keeps s s'" for input idem waited
    using submitLocked_keeps [OF _ inv] inv
    by (auto simp: submit_handler_def split: option.splits if_splits prod.splits)
  moreover have "lookup_handler s i = (rep, s') \<Longrightarrow> mock_inv s' \<and> mock_keeps s s'" for i
    using inv by (auto simp: lookup_handler_def Let_def split: option.splits)
  moreover have "setMode s input = (rep, s') \<Longrightarrow> mock_inv s' \<and> mock_keeps s s'" for input
    using inv by (auto simp: setMode_def split: option.splits if_splits)
  moreover have "resolve fs s i input = (rep, s') \<Longrightarrow> mock_inv s' \<and> mock_keeps s s'" for i input
    using resolve_keeps [OF _ inv] .
  moreover have "stats s = (rep, s') \<Longrightarrow> mock_inv s' \<and> mock_keeps s s'"
    using inv by (auto simp: stats_def)
  ultimately show ?thesis
    using run inv by (auto simp: Handler_def split: if_splits mock_route.splits)
qed

lemma mock_step_keeps:
  assumes "mock_step s s'" and inv: "mock_inv s"
  shows "mock_inv s' \<and> mock_keeps s s'"
  using assms(1)
proof cases
  case (request de fs r rep)
  from Handler_keeps [OF this inv] show ?thesis .
next
  case (restart mode delay)
  have fields: "svFile s' = svFile s" "svKey s' = svKey s" "svDisk s' = svDisk s"
    "svRecords s' = (case svDisk s of None \<Rightarrow> Map.empty | Some m \<Rightarrow> m)"
    using restart by (auto simp: New_mock_def Let_def split: if_splits option.splits)
  show ?thesis
  proof (cases "svDisk s")
    case None
    with inv restart(1) fields show ?thesis by (auto simp: mock_inv_def mock_keeps_def records_ok_def)
  next
    case (Some m)
    with inv restart(1) fields show ?thesis by (auto simp: mock_inv_def mock_keeps_def)
  qed
qed

lemma mock_run_keeps:
  assumes "mock_step\<^sup>*\<^sup>* s t" and "mock_inv s"
  shows "mock_inv t \<and> mock_keeps s t"
  using assms
proof (induction rule: rtranclp_induct)
  case base
  then show ?case by simp
next
  case (step t u)
  then show ?case using mock_step_keeps [of t u] by (auto simp: mock_keeps_def)
qed

lemma New_mock_inv: "New_mock key file mode delay (Inr None) = Inr s \<Longrightarrow> mock_inv s"
  by (auto simp: New_mock_def mock_inv_def records_ok_def Let_def split: if_splits)

section \<open>Submitting again\<close>

lemma submit_accepted:
  assumes "submitLocked fs s req = ((result, 200, delayed), s')"
  shows "svRecords s' (rqOperationID req) = Some \<lparr>rcRequest = req, rcResult = result\<rparr>"
proof -
  have "svRecords s' (rqOperationID req) = Some \<lparr>rcRequest = req, rcResult = result\<rparr>"
    if run: "submit_new fs s1 req = ((result, 200, delayed), s')" for s1
  proof -
    obtain err s2 where save: "saveLocked fs s1 (rqOperationID req) \<lparr>rcRequest = req, rcResult = mode_result (svMode s1) (rqOperationID req)\<rparr> = (err, s2)"
      by fastforce
    with run have "err = None" "s2 = s'" "result = mode_result (svMode s1) (rqOperationID req)"
      by (auto simp: submit_new_def Let_def split: if_splits option.splits)
    with save show ?thesis
      by (auto simp: saveLocked_def Let_def split: if_splits option.splits)
  qed
  moreover have "rec = \<lparr>rcRequest = rcRequest rec, rcResult = rcResult rec\<rparr>" for rec :: Record by simp
  ultimately show ?thesis
    using assms by (auto simp: submitLocked_def Let_def split: option.splits if_splits)
qed

lemma submitLocked_code:
  "submitLocked fs s req = ((result, code, delayed), s') \<Longrightarrow> code \<in> {200, 400, 409, 429, 500, 503}"
  by (auto simp: submitLocked_def submit_new_def Let_def split: option.splits if_splits prod.splits)

lemma submit_repeat:
  assumes "svRecords s (rqOperationID req) = Some rec" and "final_result (rcResult rec)"
  shows "submitLocked fs s req =
    (if rcRequest rec = req then (rcResult rec, 200, False) else (zero_result, 409, False), s\<lparr>svPosts := svPosts s + 1\<rparr>)"
  using assms by (auto simp: submitLocked_def final_result_def Let_def Failed_def Succeeded_def)

end
