(* ===== verification/ProviderLink.thy ===== *)
theory ProviderLink
  imports MockProvider ServeMux
begin

text \<open>
  The provider client and the mock provider put together: the routes of \<open>Server.Handler\<close> as
  \<open>http.ServeMux\<close> matches them, and a transport that carries the client's requests to the server. The
  network is free to lose a request or a reply. The JSON encodings are the fields of \<open>codec\<close>; the theorems
  name what they need of them.

  The theorems show that the path the client builds leads to the record of exactly the operation asked for,
  and that a submission the client accepts is on record at the server with the request's data.
\<close>

section \<open>Routes\<close>

definition mock_patterns :: "mock_route mux_pattern list" where
  "mock_patterns =
     [pattern ''POST'' [Lit ''refunds''] (\<lambda>_. PostRefunds), pattern ''GET'' [Lit ''refunds'', Wild] GetRefund_route,
      pattern ''POST'' [Lit ''admin'', Lit ''mode''] (\<lambda>_. PostMode),
      pattern ''POST'' [Lit ''admin'', Lit ''refunds'', Wild, Lit ''resolve''] PostResolve,
      pattern ''GET'' [Lit ''admin'', Lit ''stats''] (\<lambda>_. GetStats)]"

definition mux_route :: "string \<Rightarrow> string \<Rightarrow> mock_route" where
  "mux_route method path =
     (if method = MethodGet \<and> PathUnescape path = Some ''/healthz'' then Healthz
      else case serve_mux mock_patterns method path of Inl code \<Rightarrow> NoRoute code | Inr route \<Rightarrow> route)"

section \<open>The transport\<close>

record codec =
  cdDecoders :: decoders
  cdRequest :: "Request \<Rightarrow> string"
  cdReply :: "mock_body \<Rightarrow> string"
  cdResult :: "string \<Rightarrow> Result option"

record network =
  nwFiles :: "string \<Rightarrow> go_error option"
  nwWaited :: bool
  nwLostRequest :: "string option"
  nwLostReply :: "string option"

definition header :: "http_request \<Rightarrow> string \<Rightarrow> string" where
  "header r name = (case map_of (hqHeaders r) name of None \<Rightarrow> '''' | Some v \<Rightarrow> v)"

definition mock_request_of :: "codec \<Rightarrow> network \<Rightarrow> string \<Rightarrow> http_request \<Rightarrow> mock_request" where
  "mock_request_of cd nw path r =
     \<lparr>mqRoute = mux_route (hqMethod r) path, mqAuthorization = header r ''Authorization'',
      mqIdempotencyKey = header r ''Idempotency-Key'',
      mqBody = (case hqBody r of None \<Rightarrow> '''' | Some q \<Rightarrow> cdRequest cd q), mqWaited = nwWaited nw\<rparr>"

text \<open>\<open>base\<close> is the URL the server is reached at; any other URL reaches nobody.\<close>

definition mock_transport :: "codec \<Rightarrow> network \<Rightarrow> string \<Rightarrow> Server transport" where
  "mock_transport cd nw base s r =
     (case (nwLostRequest nw, strip_prefix base (hqURL r)) of
        (None, Some path) \<Rightarrow>
          (case Handler (cdDecoders cd) (nwFiles nw) s (mock_request_of cd nw path r) of
             (Dropped, s') \<Rightarrow> (Inl (ErrExternal ''connection closed''), s')
           | (Reply code after body, s') \<Rightarrow>
               (case nwLostReply nw of
                  Some msg \<Rightarrow> (Inl (ErrExternal msg), s')
                | None \<Rightarrow>
                    (Inr \<lparr>hrStatusCode = code, hrRetryAfter = after, hrBody = cdReply cd body, hrBodyError = None\<rparr>, s')))
      | (Some msg, _) \<Rightarrow> (Inl (ErrExternal msg), s)
      | (None, None) \<Rightarrow> (Inl (ErrExternal ''no such host''), s))"

definition mock_client_env :: "codec \<Rightarrow> network \<Rightarrow> Client \<Rightarrow> go_time \<Rightarrow> (string \<Rightarrow> go_time option) \<Rightarrow> Server client_env" where
  "mock_client_env cd nw c now pt =
     \<lparr>ceUnmarshal = cdResult cd, ceParseTime = pt, ceNow = now, ceNewRequest = (\<lambda>_. None),
      ceDo = mock_transport cd nw (clBase c)\<rparr>"

lemma mock_client_env_simps [simp]:
  "ceUnmarshal (mock_client_env cd nw c now pt) = cdResult cd" "ceNewRequest (mock_client_env cd nw c now pt) = (\<lambda>_. None)"
  "ceDo (mock_client_env cd nw c now pt) = mock_transport cd nw (clBase c)"
  "ceParseTime (mock_client_env cd nw c now pt) = pt" "ceNow (mock_client_env cd nw c now pt) = now"
  by (simp_all add: mock_client_env_def)

text \<open>
  \<open>encoding/json\<close>: what was encoded decodes to itself, if it decodes at all. (The texts are those of
  PostgreSQL columns, which hold valid UTF-8.)
\<close>

definition codec_sound :: "codec \<Rightarrow> bool" where
  "codec_sound cd \<longleftrightarrow>
     (\<forall>q q'. deRequest (cdDecoders cd) (cdRequest cd q) = Some q' \<longrightarrow> q' = q) \<and>
     (\<forall>x y. cdResult cd (cdReply cd (BResult x)) = Some y \<longrightarrow> y = x)"

section \<open>Path escaping\<close>

lemma unhex_upper_hex: "n < 16 \<Longrightarrow> unhex (upper_hex n) = Some n"
  by (auto simp: unhex_def upper_hex_def Let_def)

lemma char_split: "char_of (16 * (of_char c div 16) + of_char c mod 16 :: nat) = c"
  by (simp add: mult_div_mod_eq)

lemma percent_unsafe [simp]: "\<not> path_safe (CHR ''%'')"
  by (simp add: path_safe_def ascii_letter_def is_digit_def)

lemma PathEscape_Cons:
  "PathEscape (c # cs) = (if path_safe c then [c]
     else [CHR ''%'', upper_hex (of_char c div 16), upper_hex (of_char c mod 16)]) @ PathEscape cs"
  by (simp add: PathEscape_def)

lemma PathUnescape_PathEscape: "PathUnescape (PathEscape s) = Some s"
proof (induction s)
  case Nil
  then show ?case by (simp add: PathEscape_def)
next
  case (Cons c s)
  have "(of_char c :: nat) div 16 < 16" using nat_of_char_less_256 [of c] by linarith
  then have hex: "unhex (upper_hex (of_char c div 16)) = Some (of_char c div 16)"
    "unhex (upper_hex (of_char c mod 16)) = Some (of_char c mod 16)"
    by (simp_all add: unhex_upper_hex)
  show ?case
  proof (cases "path_safe c")
    case True
    then have "c \<noteq> CHR ''%''" by auto
    with True Cons show ?thesis by (simp add: PathEscape_Cons)
  next
    case False
    then show ?thesis using Cons hex by (simp add: PathEscape_Cons char_split)
  qed
qed

lemma upper_hex_no_slash: "n < 16 \<Longrightarrow> upper_hex n \<noteq> CHR ''/''"
  using unhex_upper_hex [of n] by (auto simp: unhex_def)

lemma PathEscape_no_slash: "CHR ''/'' \<notin> set (PathEscape s)"
proof (induction s)
  case Nil
  then show ?case by (simp add: PathEscape_def)
next
  case (Cons c s)
  have "(of_char c :: nat) div 16 < 16" using nat_of_char_less_256 [of c] by linarith
  then have "upper_hex (of_char c div 16) \<noteq> CHR ''/''" "upper_hex (of_char c mod 16) \<noteq> CHR ''/''"
    using upper_hex_no_slash by auto
  moreover have "\<not> path_safe (CHR ''/'')" by (simp add: path_safe_def ascii_letter_def is_digit_def)
  ultimately show ?case using Cons by (auto simp: PathEscape_Cons)
qed

text \<open>The empty identifier, the dot segments and a single slash are the only ones the client's path does not reach.\<close>

lemma PathUnescape_append: "CHR ''%'' \<notin> set s \<Longrightarrow> PathUnescape (s @ t) = map_option (\<lambda>x. s @ x) (PathUnescape t)"
  by (induction s; cases "PathUnescape t") auto

lemma lookup_path:
  "split_on (CHR ''/'') (''/refunds/'' @ PathEscape i) = ['''', ''refunds'', PathEscape i]"
  "PathUnescape (''/refunds/'' @ PathEscape i) \<noteq> Some ''/healthz''"
  "unescape_segment (PathEscape i) = i" "unescape_segment ''refunds'' = ''refunds''"
  using split_path(2) [of "''refunds''" "PathEscape i"]
  by (simp_all add: split_on_no PathEscape_no_slash PathUnescape_append PathUnescape_PathEscape unescape_segment_def)

lemma PathEscape_eq: "PathEscape i = s \<Longrightarrow> PathUnescape s = Some i"
  using PathUnescape_PathEscape by metis

lemma lookup_segments:
  assumes "split_on (CHR ''/'') path = ['''', ''refunds'', s]" and "s \<notin> {'''', ''.'', ''..''}" and "unescape_segment s \<noteq> ''/''"
  shows "serve_mux mock_patterns ''GET'' path = Inr (GetRefund_route (unescape_segment s))"
  using assms lookup_path(4)
  by (simp add: serve_mux_def path_segments_def clean_segments_def mock_patterns_def method_matches_def)

lemma lookup_route:
  assumes "i \<noteq> ''''" and "i \<noteq> ''.''" and "i \<noteq> ''..''" and "i \<noteq> ''/''"
  shows "mux_route MethodGet (''/refunds/'' @ PathEscape i) = GetRefund_route i"
proof -
  from PathEscape_eq [of i "''''"] PathEscape_eq [of i "''.''"] PathEscape_eq [of i "''..''"]
  have "PathEscape i \<notin> {'''', ''.'', ''..''}" using assms by auto
  from lookup_segments [OF lookup_path(1) this] assms(4) lookup_path(2,3) show ?thesis
    by (auto simp: mux_route_def MethodGet_def)
qed

lemma submit_route [simp]: "mux_route MethodPost ''/refunds'' = PostRefunds"
  by (simp add: mux_route_def serve_mux_def path_segments_def clean_segments_def mock_patterns_def unescape_segment_def
      MethodGet_def MethodPost_def method_matches_def)

section \<open>What the client learns\<close>

definition request_of :: "Refund \<Rightarrow> Request" where
  "request_of r = \<lparr>rqOperationID = rID r, rqPaymentID = rPaymentID r, rqAmount = rAmount r, rqCurrency = rCurrency r\<rparr>"

lemma lookup_route_any:
  "mux_route MethodGet (''/refunds/'' @ PathEscape i) = GetRefund_route i \<or>
   (\<exists>code. mux_route MethodGet (''/refunds/'' @ PathEscape i) = NoRoute code \<and> 300 \<le> code)"
proof (cases "i \<in> {'''', ''.'', ''..'', ''/''}")
  case True
  have "PathEscape '''' = ''''" "PathEscape ''.'' = ''.''" "PathEscape ''..'' = ''..''" "PathEscape ''/'' = ''%2F''" by code_simp+
  moreover have slash: "unescape_segment ''%2F'' = ''/''" by code_simp
  ultimately have "serve_mux mock_patterns MethodGet (''/refunds/'' @ PathEscape i) \<in> {Inl 301, Inl 404}"
    using True lookup_path(4) by (auto simp: serve_mux_def mock_patterns_def path_segments_def clean_segments_def)
  then show ?thesis using lookup_path(2) [of i] by (auto simp: mux_route_def)
next
  case False
  then show ?thesis using lookup_route by blast
qed

text \<open>An accepted answer comes from a handler that replied with a result.\<close>

lemma client_call_mock:
  assumes "client_call (mock_client_env cd nw c now pt) c s method path i body = (Inr res, s')"
    and sound: "codec_sound cd" and res: "prStatus res \<noteq> NotFound"
  shows "\<exists>r code after x. Handler (cdDecoders cd) (nwFiles nw) s r = (Reply code after x, s') \<and> code < 300 \<and> 200 \<le> code \<and>
    cdResult cd (cdReply cd x) = Some res \<and> mqRoute r = mux_route method path \<and>
    mqBody r = (case body of None \<Rightarrow> '''' | Some q \<Rightarrow> cdRequest cd q)"
proof -
  let ?r = "\<lparr>hqMethod = method, hqURL = clBase c @ path,
    hqHeaders = [(''Authorization'', ''Bearer '' @ clKey c), (''Content-Type'', ''application/json'')] @
      (if method = MethodPost then [(''Idempotency-Key'', i)] else []), hqBody = body\<rparr>"
  obtain hr where hr: "mock_transport cd nw (clBase c) s ?r = (Inr hr, s')"
    and ans: "client_answer (cdResult cd) pt now method i hr = Inr res"
    using assms(1) by (auto simp: client_call_def split: prod.splits sum.splits)
  from hr obtain code after x where h: "Handler (cdDecoders cd) (nwFiles nw) s (mock_request_of cd nw path ?r) = (Reply code after x, s')"
    and hr_eq: "hr = \<lparr>hrStatusCode = code, hrRetryAfter = after, hrBody = cdReply cd x, hrBodyError = None\<rparr>"
    by (auto simp: mock_transport_def split: option.splits prod.splits mock_reply.splits)
  have "200 \<le> code \<and> code < 300 \<and> cdResult cd (cdReply cd x) = Some res"
    using ans res by (auto simp: hr_eq client_answer_def read_limited_def split: if_splits sum.splits option.splits)
  with h show ?thesis by (intro exI [of _ "mock_request_of cd nw path ?r"] exI) (auto simp: mock_request_of_def)
qed

lemma submit_recorded:
  assumes run: "Submit (mock_client_env cd nw c now pt) c s r = (Inr res, s')" and sound: "codec_sound cd"
  shows "svRecords s' (rID r) = Some \<lparr>rcRequest = request_of r, rcResult = res\<rparr>"
proof -
  have "answer_ok False (rID r) (Inr res)" using http_provider.submit_ok [OF run] .
  then have "prStatus res \<noteq> NotFound" by (auto simp: answer_ok_def validStatus_def)
  from client_call_mock [OF run [unfolded Submit_def] sound this]
  obtain q code after x where h: "Handler (cdDecoders cd) (nwFiles nw) s q = (Reply code after x, s')" "code < 300"
    and x: "cdResult cd (cdReply cd x) = Some res" and q: "mqRoute q = PostRefunds" "mqBody q = cdRequest cd (request_of r)"
    by (auto simp: request_of_def)
  from h q obtain req y delayed where req: "deRequest (cdDecoders cd) (cdRequest cd (request_of r)) = Some req"
    and sub: "submitLocked (nwFiles nw) s req = ((y, code, delayed), s')" and y: "x = BResult y"
    by (auto simp: Handler_def submit_handler_def split: if_splits option.splits prod.splits)
  have "req = request_of r" "y = res" using sound req x y by (auto simp: codec_sound_def)
  moreover have "code = 200" using submitLocked_code [OF sub] h(2) by auto
  ultimately show ?thesis using submit_accepted [of "nwFiles nw" s req y delayed s'] sub by (simp add: request_of_def)
qed

lemma lookup_recorded:
  assumes run: "Lookup (mock_client_env cd nw c now pt) c s i = (Inr res, s')" and sound: "codec_sound cd"
    and res: "prStatus res \<noteq> NotFound"
  shows "\<exists>rec. svRecords s i = Some rec \<and> rcResult rec = res \<and> svRecords s' = svRecords s \<and> svDisk s' = svDisk s"
proof -
  from client_call_mock [OF run [unfolded Lookup_def] sound res]
  obtain q code after x where h: "Handler (cdDecoders cd) (nwFiles nw) s q = (Reply code after x, s')" "code < 300"
    and x: "cdResult cd (cdReply cd x) = Some res" and q: "mqRoute q = mux_route MethodGet (''/refunds/'' @ PathEscape i)"
    by auto
  have "mqRoute q = GetRefund_route i"
    using lookup_route_any [of i] h q by (auto simp: Handler_def split: if_splits)
  with h obtain rec where "svRecords s i = Some rec" "x = BResult (rcResult rec)" "svRecords s' = svRecords s" "svDisk s' = svDisk s"
    by (auto simp: Handler_def lookup_handler_def Let_def split: if_splits option.splits)
  with x sound show ?thesis by (auto simp: codec_sound_def)
qed

text \<open>With an intact network and a result that survives the encoding, a lookup returns the record's result.\<close>

lemma lookup_finds:
  assumes rec: "svRecords s i = Some rec" "record_ok i rec" and i: "i \<notin> {'''', ''.'', ''..'', ''/''}"
    and net: "nwLostRequest nw = None" "nwLostReply nw = None" and key: "clKey c = svKey s"
    and json: "cdResult cd (cdReply cd (BResult (rcResult rec))) = Some (rcResult rec)"
      "length (cdReply cd (BResult (rcResult rec))) \<le> 65536"
  shows "Lookup (mock_client_env cd nw c now pt) c s i = (Inr (rcResult rec), s\<lparr>svLookups := svLookups s + 1\<rparr>)"
proof -
  have route: "mux_route MethodGet (''/refunds/'' @ PathEscape i) = GetRefund_route i"
    using lookup_route i by simp
  have ok: "prOperationID (rcResult rec) = i" "validStatus (prStatus (rcResult rec))"
    "\<not> (prStatus (rcResult rec) \<noteq> Failed \<and> prRetryable (rcResult rec))"
    using rec(2) by (auto simp: record_ok_def)
  show ?thesis
    using route ok rec(1) net key json
    by (simp add: Lookup_def client_call_def mock_transport_def mock_request_of_def header_def Handler_def
        lookup_handler_def client_answer_def read_limited_def)
qed

end
