(* ===== verification/Agreement.thy ===== *)
theory Agreement
  imports RefundEngine ProviderLink
begin

text \<open>
  Database, refund workers, provider client and mock provider together. Every call of a worker is a step of
  its own, so that any number of workers interleave freely, with each other, with the API and with restarts
  and operators of the provider: a worker claims a refund, calls the provider about it, and stores what
  \<open>decide\<close> makes of the answer. Claims and answers that workers hold in memory are part of the state; they
  are never forgotten, which only allows more.

  The invariant ties the two sides together: what the database calls refunded is refunded at the provider.
\<close>

section \<open>Steps\<close>

record linked =
  lkSys :: sys
  lkServer :: Server
  lkClaims :: "(claim_kind \<times> Refund) set"
  lkAnswers :: "(Refund \<times> (go_error + Result) \<times> bool) set"

definition completes_none :: "db \<Rightarrow> db \<Rightarrow> bool" where
  "completes_none d d' \<longleftrightarrow> (\<forall>r \<in> set (refunds d'). rStatus r = RefundSucceeded \<longrightarrow> r \<in> set (refunds d))"

text \<open>What a worker stores for an answer, as \<open>ProcessOnce\<close> and \<open>ReconcileOnce\<close> do.\<close>

definition stored_outcome :: "Options \<Rightarrow> nat \<Rightarrow> Refund \<Rightarrow> go_error + Result \<Rightarrow> go_time \<Rightarrow> bool \<Rightarrow> Outcome" where
  "stored_outcome opts k c ans now lookup =
     (if lookup then reconciled c ans (decide opts k c ans now True) else decide opts k c ans now False)"

inductive linked_step :: "(string \<Rightarrow> string) \<Rightarrow> int \<Rightarrow> codec \<Rightarrow> linked \<Rightarrow> linked \<Rightarrow> bool" for sha M cd where
  claim: "\<lbrakk>ClaimRefund e (sdb (lkSys l)) kind now lease m = (Inr (Some c), d); m \<le> M\<rbrakk>
    \<Longrightarrow> linked_step sha M cd l (l\<lparr>lkSys := (lkSys l)\<lparr>sdb := d\<rparr>, lkClaims := insert (kind, c) (lkClaims l)\<rparr>)"
| submit: "\<lbrakk>(ClaimSubmit, c) \<in> lkClaims l; Submit (mock_client_env cd nw cl now pt) cl (lkServer l) c = (ans, s)\<rbrakk>
    \<Longrightarrow> linked_step sha M cd l (l\<lparr>lkServer := s, lkAnswers := insert (c, ans, False) (lkAnswers l)\<rparr>)"
| lookup: "\<lbrakk>(ClaimReconcile, c) \<in> lkClaims l; Lookup (mock_client_env cd nw cl now pt) cl (lkServer l) (rID c) = (ans, s)\<rbrakk>
    \<Longrightarrow> linked_step sha M cd l (l\<lparr>lkServer := s, lkAnswers := insert (c, ans, True) (lkAnswers l)\<rparr>)"
| store: "\<lbrakk>(c, ans, lookup) \<in> lkAnswers l;
     ApplyRefundOutcome e (sdb (lkSys l)) c (stored_outcome opts k c ans now lookup) now = (r, d)\<rbrakk>
    \<Longrightarrow> linked_step sha M cd l (l\<lparr>lkSys := (lkSys l)\<lparr>sdb := d\<rparr>\<rparr>)"
| other: "\<lbrakk>sys_step sha M (lkSys l) s; completes_none (sdb (lkSys l)) (sdb s)\<rbrakk>
    \<Longrightarrow> linked_step sha M cd l (l\<lparr>lkSys := s\<rparr>)"
| operator: "\<lbrakk>Handler (cdDecoders cd) fs (lkServer l) r = (rep, s); mqRoute r \<noteq> PostRefunds\<rbrakk>
    \<Longrightarrow> linked_step sha M cd l (l\<lparr>lkServer := s\<rparr>)"
| restart: "\<lbrakk>svFile (lkServer l) \<noteq> '''';
     New_mock (svKey (lkServer l)) (svFile (lkServer l)) mode delay (Inr (map_option Some (svDisk (lkServer l)))) = Inr s\<rbrakk>
    \<Longrightarrow> linked_step sha M cd l (l\<lparr>lkServer := s\<rparr>)"

definition linked_init :: "Server \<Rightarrow> linked" where
  "linked_init s = \<lparr>lkSys = sys_init, lkServer = s, lkClaims = {}, lkAnswers = {}\<rparr>"

section \<open>The provider's side\<close>

definition paid :: "Server \<Rightarrow> string \<Rightarrow> bool" where
  "paid s i \<longleftrightarrow> (\<exists>rec. svRecords s i = Some rec \<and> prStatus (rcResult rec) = Succeeded)"

lemma paid_kept: "mock_keeps s s' \<Longrightarrow> paid s i \<Longrightarrow> paid s' i"
  unfolding paid_def mock_keeps_def final_result_def by blast

definition filed :: "Server \<Rightarrow> (string \<times> Record) set" where
  "filed s = {(i, rec). svRecords s i = Some rec \<or> (\<exists>m. svDisk s = Some m \<and> m i = Some rec)}"

lemma save_filed:
  assumes "saveLocked fs s i rec = (err, s')"
  shows "filed s' \<subseteq> insert (i, rec) (filed s)"
  using saveLocked_cases(2) [OF assms]
  by (elim disjE conjE) (simp_all add: filed_def, auto split: if_splits)

lemma filed_counters [simp]:
  "filed (s\<lparr>svPosts := n\<rparr>) = filed s" "filed (s\<lparr>svLookups := n\<rparr>) = filed s" "filed (s\<lparr>svMode := mode\<rparr>) = filed s"
  by (simp_all add: filed_def)

lemma submit_new_filed:
  assumes "submit_new fs s req = (ans, s')" and "(i, rec) \<in> filed s'"
  shows "(i, rec) \<in> filed s \<or> rcRequest rec = req \<and> rqOperationID req = i"
  using assms
  by (auto simp: submit_new_def Let_def split: if_splits prod.splits option.splits dest!: save_filed)

lemma submitLocked_filed:
  assumes "submitLocked fs s req = (ans, s')" and "(i, rec) \<in> filed s'"
  shows "(i, rec) \<in> filed s \<or> rcRequest rec = req \<and> rqOperationID req = i"
  using assms submit_new_filed [of fs "s\<lparr>svPosts := svPosts s + 1\<rparr>" req ans s' i rec]
  by (auto simp: submitLocked_def Let_def split: option.splits if_splits)

lemma resolve_filed:
  assumes "resolve fs s j input = (rep, s')" and "(i, rec) \<in> filed s'"
  shows "\<exists>rec0. (i, rec0) \<in> filed s \<and> rcRequest rec = rcRequest rec0"
  using assms
  by (fastforce simp: resolve_def Let_def filed_def split: option.splits if_splits prod.splits
      dest!: save_filed [THEN subsetD, of _ _ _ _ _ _ "(i, rec)"])

lemma Handler_filed:
  assumes run: "Handler de fs s r = (rep, s')" and new: "(i, rec) \<in> filed s'"
  shows "(\<exists>rec0. (i, rec0) \<in> filed s \<and> rcRequest rec = rcRequest rec0) \<or>
    mqRoute r = PostRefunds \<and> deRequest de (mqBody r) = Some (rcRequest rec) \<and> rqOperationID (rcRequest rec) = i"
proof -
  have submit: "(i, rec) \<in> filed s \<or> input = Some (rcRequest rec) \<and> rqOperationID (rcRequest rec) = i"
    if "submit_handler fs s input idem waited = (rep, s')" for input idem waited
    using that new
    by (auto simp: submit_handler_def split: option.splits if_splits prod.splits dest!: submitLocked_filed)
  have same: "filed s' = filed s"
    if "lookup_handler s j = (rep, s') \<or> setMode s m = (rep, s') \<or> stats s = (rep, s')" for j m
    using that by (auto simp: lookup_handler_def setMode_def stats_def Let_def split: option.splits if_splits)
  show ?thesis
  proof (cases "mqRoute r")
    case PostRefunds
    then show ?thesis using run new submit by (fastforce simp: Handler_def split: if_splits)
  next
    case (PostResolve j)
    then show ?thesis using run new resolve_filed by (fastforce simp: Handler_def split: if_splits)
  qed (use run new same in \<open>auto simp: Handler_def split: if_splits\<close>)
qed

lemma client_call_server:
  assumes "client_call (mock_client_env cd nw c now pt) c s method path i body = (ans, s')"
  shows "s' = s \<or> (\<exists>r rep. Handler (cdDecoders cd) (nwFiles nw) s r = (rep, s') \<and> mqRoute r = mux_route method path \<and>
    mqBody r = (case body of None \<Rightarrow> '''' | Some q \<Rightarrow> cdRequest cd q))"
proof -
  from assms obtain res r where tr: "mock_transport cd nw (clBase c) s r = (res, s')" and r: "hqURL r = clBase c @ path"
      "hqMethod r = method" "hqBody r = body"
    by (auto simp: client_call_def split: prod.splits sum.splits)
  from tr r have "s' = s \<or> (\<exists>rep. Handler (cdDecoders cd) (nwFiles nw) s (mock_request_of cd nw path r) = (rep, s'))"
    by (auto simp: mock_transport_def split: option.splits prod.splits mock_reply.splits)
  then show ?thesis using r by (auto simp: mock_request_of_def)
qed

text \<open>What a call of the client can do to the server.\<close>

lemma call_keeps:
  assumes "client_call (mock_client_env cd nw c now pt) c s method path i body = (ans, s')" and "mock_inv s"
  shows "mock_inv s' \<and> mock_keeps s s'"
  using client_call_server [OF assms(1)] assms(2) Handler_keeps by auto

lemma submit_filed:
  assumes run: "Submit (mock_client_env cd nw c now pt) c s r = (ans, s')" and sound: "codec_sound cd"
    and new: "(i, rec) \<in> filed s'"
  shows "(\<exists>rec0. (i, rec0) \<in> filed s \<and> rcRequest rec = rcRequest rec0) \<or> i = rID r \<and> rcRequest rec = request_of r"
proof -
  from client_call_server [OF run [unfolded Submit_def]] show ?thesis
  proof (elim disjE exE conjE)
    assume "s' = s"
    with new show ?thesis by auto
  next
    fix q rep
    assume h: "Handler (cdDecoders cd) (nwFiles nw) s q = (rep, s')"
      and body: "mqBody q = (case Some \<lparr>rqOperationID = rID r, rqPaymentID = rPaymentID r, rqAmount = rAmount r, rqCurrency = rCurrency r\<rparr>
        of None \<Rightarrow> '''' | Some q \<Rightarrow> cdRequest cd q)"
    have "mqBody q = cdRequest cd (request_of r)" using body by (simp add: request_of_def)
    then have "deRequest (cdDecoders cd) (mqBody q) = Some x \<Longrightarrow> x = request_of r" for x
      using sound by (simp add: codec_sound_def)
    with Handler_filed [OF h new] show ?thesis by (auto simp: request_of_def)
  qed
qed

lemma lookup_filed:
  assumes run: "Lookup (mock_client_env cd nw c now pt) c s j = (ans, s')" and new: "(i, rec) \<in> filed s'"
  shows "\<exists>rec0. (i, rec0) \<in> filed s \<and> rcRequest rec = rcRequest rec0"
  using client_call_server [OF run [unfolded Lookup_def]]
proof (elim disjE exE conjE)
  assume "s' = s"
  with new show ?thesis by auto
next
  fix q rep
  assume h: "Handler (cdDecoders cd) (nwFiles nw) s q = (rep, s')"
    and "mqRoute q = mux_route MethodGet (''/refunds/'' @ PathEscape j)"
  with lookup_route_any [of j] have "mqRoute q \<noteq> PostRefunds" by auto
  with Handler_filed [OF h new] show ?thesis by auto
qed

section \<open>The database's side\<close>

lemma claim_completes_none:
  assumes "ClaimRefund e d kind now lease m = (res, d')"
  shows "completes_none d d'"
proof (cases "kind = ClaimSubmit \<or> kind = ClaimReconcile")
  case True
  with assms have "run_tx nowrap e ''begin claim'' ''commit claim'' d (claim_tx e kind now lease m) = (res, d')"
    by (auto simp: ClaimRefund_def split: if_splits)
  then show ?thesis
    using run_tx_atomic [of nowrap e _ _ d _ res d']
    by (fastforce simp: completes_none_def set_update_where elim!: claim_tx_effect [OF _ order_refl True])
next
  case False
  with assms show ?thesis by (auto simp: ClaimRefund_def completes_none_def)
qed

lemma apply_completes:
  assumes "ApplyRefundOutcome e d c out now = (res, d')" and "r \<in> set (refunds d')" and "rStatus r = RefundSucceeded"
  shows "r \<in> set (refunds d) \<or> rID r = rID c \<and> oStatus out = RefundSucceeded"
proof -
  have "d' = d \<or> (\<exists>x. apply_outcome_tx e c out now d = Inr (x, Some d'))"
    using run_tx_atomic [OF assms(1) [unfolded ApplyRefundOutcome_def]] .
  then show ?thesis
  proof (elim disjE exE)
    fix x
    assume tx: "apply_outcome_tx e c out now d = Inr (x, Some d')"
    show ?thesis
      by (rule apply_outcome_tx_effect [OF tx])
        (use assms(2,3) in \<open>auto simp: set_update_where outcome_set_def bump_def dest!: find_Some_set\<close>)
  qed (use assms in simp)
qed

lemma stored_succeeded:
  assumes "oStatus (stored_outcome opts k c ans now lookup) = RefundSucceeded"
  shows "\<exists>res. ans = Inr res \<and> prOperationID res = rID c \<and> prStatus res = Succeeded"
  using assms by (auto simp: stored_outcome_def reconciled_def decide_succeeded split: if_splits)

section \<open>The invariant\<close>

definition has_refund :: "db \<Rightarrow> string \<Rightarrow> Request \<Rightarrow> bool" where
  "has_refund d i q \<longleftrightarrow> (\<exists>r \<in> set (refunds d). rID r = i \<and> request_of r = q)"

lemma has_refund_step:
  assumes "refunds_step M d d'" and "has_refund d i q"
  shows "has_refund d' i q"
proof -
  from assms(2) obtain r where r: "r \<in> set (refunds d)" "rID r = i" "request_of r = q" by (auto simp: has_refund_def)
  from assms(1) r(1) obtain r' where r': "r' \<in> set (refunds d')" "r' = r \<or> refund_row_step M r r'"
    unfolding refunds_step_def by blast
  then have "rID r' = rID r \<and> request_of r' = request_of r"
    using refund_row_step_identity [of M r r'] by (auto simp: same_identity_def request_of_def)
  with r r' show ?thesis by (auto simp: has_refund_def)
qed

definition known :: "db \<Rightarrow> linked \<Rightarrow> bool" where
  "known d l \<longleftrightarrow>
     (\<forall>kind c. (kind, c) \<in> lkClaims l \<longrightarrow> has_refund d (rID c) (request_of c)) \<and>
     (\<forall>i rec. (i, rec) \<in> filed (lkServer l) \<longrightarrow> has_refund d i (rcRequest rec))"

definition settled :: "linked \<Rightarrow> bool" where
  "settled l \<longleftrightarrow>
     (\<forall>c res lookup. (c, Inr res, lookup) \<in> lkAnswers l \<and> prOperationID res = rID c \<and> prStatus res = Succeeded \<longrightarrow>
        paid (lkServer l) (rID c)) \<and>
     (\<forall>r \<in> set (refunds (sdb (lkSys l))). rStatus r = RefundSucceeded \<longrightarrow> paid (lkServer l) (rID r))"

definition linked_inv :: "(string \<Rightarrow> string) \<Rightarrow> int \<Rightarrow> linked \<Rightarrow> bool" where
  "linked_inv sha M l \<longleftrightarrow>
     sys_inv sha M (lkSys l) \<and> mock_inv (lkServer l) \<and> known (sdb (lkSys l)) l \<and> settled l"

lemma linked_db_step:
  assumes inv: "linked_inv sha M l" and M: "0 \<le> M" and step: "sys_step sha M (lkSys l) s"
    and complete: "\<And>r. r \<in> set (refunds (sdb s)) \<Longrightarrow> rStatus r = RefundSucceeded \<Longrightarrow>
      r \<in> set (refunds (sdb (lkSys l))) \<or> paid (lkServer l) (rID r)"
    and claims: "\<And>kind c. (kind, c) \<in> new \<Longrightarrow> has_refund (sdb s) (rID c) (request_of c)"
  shows "linked_inv sha M (l\<lparr>lkSys := s, lkClaims := new \<union> lkClaims l\<rparr>)"
proof -
  note g = sys_step_good [OF step _ M]
  have s: "sys_inv sha M s" "refunds_step M (sdb (lkSys l)) (sdb s)"
    using g inv by (auto simp: linked_inv_def good_def)
  have "paid (lkServer l) (rID r)" if "r \<in> set (refunds (sdb s))" "rStatus r = RefundSucceeded" for r
    using complete [OF that] that inv unfolding linked_inv_def settled_def by blast
  moreover have "has_refund (sdb s) i q" if "has_refund (sdb (lkSys l)) i q" for i q
    by (rule has_refund_step [OF s(2) that])
  ultimately show ?thesis
    using inv claims s(1) unfolding linked_inv_def known_def settled_def by auto
qed

lemma linked_server_step:
  assumes inv: "linked_inv sha M l" and srv: "mock_inv s" "mock_keeps (lkServer l) s"
    and filed: "\<And>i rec. (i, rec) \<in> filed s \<Longrightarrow>
      (\<exists>rec0. (i, rec0) \<in> filed (lkServer l) \<and> rcRequest rec = rcRequest rec0) \<or> has_refund (sdb (lkSys l)) i (rcRequest rec)"
    and answers: "\<And>c res lookup. (c, Inr res, lookup) \<in> new \<Longrightarrow> prOperationID res = rID c \<Longrightarrow> prStatus res = Succeeded \<Longrightarrow>
      paid s (rID c)"
  shows "linked_inv sha M (l\<lparr>lkServer := s, lkAnswers := new \<union> lkAnswers l\<rparr>)"
proof -
  have "known (sdb (lkSys l)) (l\<lparr>lkServer := s, lkAnswers := new \<union> lkAnswers l\<rparr>)"
    using inv filed unfolding linked_inv_def known_def by fastforce
  moreover have "paid s (rID c)"
    if "(c, Inr res, lookup) \<in> lkAnswers l" "prOperationID res = rID c" "prStatus res = Succeeded" for c res lookup
    using inv paid_kept [OF srv(2)] that unfolding linked_inv_def settled_def by blast
  moreover have "paid s (rID r)" if "r \<in> set (refunds (sdb (lkSys l)))" "rStatus r = RefundSucceeded" for r
    using inv paid_kept [OF srv(2)] that unfolding linked_inv_def settled_def by blast
  ultimately have "known (sdb (lkSys l)) (l\<lparr>lkServer := s, lkAnswers := new \<union> lkAnswers l\<rparr>) \<and>
      settled (l\<lparr>lkServer := s, lkAnswers := new \<union> lkAnswers l\<rparr>)"
    using answers unfolding settled_def by simp blast
  then show ?thesis using inv srv(1) by (simp add: linked_inv_def)
qed

lemma linked_step_inv:
  assumes step: "linked_step sha M cd l l'" and inv: "linked_inv sha M l" and M: "0 \<le> M" and sound: "codec_sound cd"
  shows "linked_inv sha M l'"
  using step
proof cases
  case (claim e kind now lease m c d)
  note cs = claim_Some [OF claim(2)]
  have "linked_inv sha M (l\<lparr>lkSys := (lkSys l)\<lparr>sdb := d\<rparr>, lkClaims := {(kind, c)} \<union> lkClaims l\<rparr>)"
  proof (rule linked_db_step [OF inv M sys_step.claim [OF claim(2,3)]])
    show "r \<in> set (refunds (sdb (lkSys l))) \<or> paid (lkServer l) (rID r)"
      if "r \<in> set (refunds (sdb ((lkSys l)\<lparr>sdb := d\<rparr>)))" "rStatus r = RefundSucceeded" for r
      using claim_completes_none [OF claim(2)] that by (auto simp: completes_none_def)
    show "has_refund (sdb ((lkSys l)\<lparr>sdb := d\<rparr>)) (rID c') (request_of c')" if "(k, c') \<in> {(kind, c)}" for k c'
      using cs that by (auto simp: has_refund_def)
  qed
  with claim(1) show ?thesis by simp
next
  case (submit c nw cl now pt ans s)
  have "linked_inv sha M (l\<lparr>lkServer := s, lkAnswers := {(c, ans, False)} \<union> lkAnswers l\<rparr>)"
  proof (rule linked_server_step [OF inv])
    show "mock_inv s" "mock_keeps (lkServer l) s"
      using call_keeps [OF submit(3) [unfolded Submit_def]] inv by (auto simp: linked_inv_def)
    have "has_refund (sdb (lkSys l)) (rID c) (request_of c)" using inv submit(2) by (auto simp: linked_inv_def known_def)
    then show "(\<exists>rec0. (i, rec0) \<in> filed (lkServer l) \<and> rcRequest rec = rcRequest rec0) \<or>
      has_refund (sdb (lkSys l)) i (rcRequest rec)" if "(i, rec) \<in> filed s" for i rec
      using submit_filed [OF submit(3) sound that] by auto
    show "paid s (rID c')" if "(c', Inr res, look) \<in> {(c, ans, False)}" "prStatus res = Succeeded" for c' res look
      using submit_recorded [of cd nw cl now pt "lkServer l" c res s] submit(3) sound that by (auto simp: paid_def)
  qed
  with submit(1) show ?thesis by simp
next
  case (lookup c nw cl now pt ans s)
  have "linked_inv sha M (l\<lparr>lkServer := s, lkAnswers := {(c, ans, True)} \<union> lkAnswers l\<rparr>)"
  proof (rule linked_server_step [OF inv])
    show "mock_inv s" "mock_keeps (lkServer l) s"
      using call_keeps [OF lookup(3) [unfolded Lookup_def]] inv by (auto simp: linked_inv_def)
    show "(\<exists>rec0. (i, rec0) \<in> filed (lkServer l) \<and> rcRequest rec = rcRequest rec0) \<or>
      has_refund (sdb (lkSys l)) i (rcRequest rec)" if "(i, rec) \<in> filed s" for i rec
      using lookup_filed [OF lookup(3) that] by auto
    show "paid s (rID c')" if "(c', Inr res, look) \<in> {(c, ans, True)}" "prStatus res = Succeeded" for c' res look
      using lookup_recorded [of cd nw cl now pt "lkServer l" "rID c" res s] lookup(3) sound that by (auto simp: paid_def)
  qed
  with lookup(1) show ?thesis by simp
next
  case (store c ans look e opts k now r d)
  have "linked_inv sha M (l\<lparr>lkSys := (lkSys l)\<lparr>sdb := d\<rparr>, lkClaims := {} \<union> lkClaims l\<rparr>)"
  proof (rule linked_db_step [OF inv M sys_step.apply_outcome [OF store(3)]])
    show "x \<in> set (refunds (sdb (lkSys l))) \<or> paid (lkServer l) (rID x)"
      if "x \<in> set (refunds (sdb ((lkSys l)\<lparr>sdb := d\<rparr>)))" "rStatus x = RefundSucceeded" for x
    proof -
      have "paid (lkServer l) (rID c)" if "oStatus (stored_outcome opts k c ans now look) = RefundSucceeded"
        using stored_succeeded [OF that] inv store(2) unfolding linked_inv_def settled_def by blast
      then show ?thesis using apply_completes [OF store(3), of x] that by auto
    qed
  qed simp
  with store(1) show ?thesis by simp
next
  case (other s)
  have "linked_inv sha M (l\<lparr>lkSys := s, lkClaims := {} \<union> lkClaims l\<rparr>)"
    by (rule linked_db_step [OF inv M other(2)]) (use other(3) in \<open>auto simp: completes_none_def\<close>)
  with other(1) show ?thesis by simp
next
  case (operator fs r rep s)
  have "linked_inv sha M (l\<lparr>lkServer := s, lkAnswers := {} \<union> lkAnswers l\<rparr>)"
    by (rule linked_server_step [OF inv])
      (use Handler_keeps [OF operator(2)] Handler_filed [OF operator(2)] operator(3) inv in \<open>auto simp: linked_inv_def\<close>)
  with operator(1) show ?thesis by simp
next
  case (restart mode delay s)
  note k = mock_step_keeps [OF mock_step.restart [OF restart(2,3)]]
  have "filed s \<subseteq> filed (lkServer l)"
    using restart(3) by (auto simp: New_mock_def Let_def filed_def split: if_splits option.splits)
  then have "linked_inv sha M (l\<lparr>lkServer := s, lkAnswers := {} \<union> lkAnswers l\<rparr>)"
    by (intro linked_server_step [OF inv]) (use k inv in \<open>auto simp: linked_inv_def\<close>)
  with restart(1) show ?thesis by simp
qed

lemma linked_init_inv:
  assumes "New_mock key file mode delay (Inr None) = Inr s"
  shows "linked_inv sha M (linked_init s)"
proof -
  have "filed s = {}" using assms by (auto simp: New_mock_def Let_def filed_def split: if_splits)
  then show ?thesis
    using New_mock_inv [OF assms] sys_inv_init
    by (auto simp: linked_inv_def linked_init_def known_def settled_def sys_init_def empty_db_def)
qed

lemma linked_run_inv:
  assumes "(linked_step sha M cd)\<^sup>*\<^sup>* l l'" and "linked_inv sha M l" and "0 \<le> M" and "codec_sound cd"
  shows "linked_inv sha M l'"
  using assms by (induction rule: rtranclp_induct) (auto intro: linked_step_inv)

end
