(* ===== verification/ScenarioProvider.thy ===== *)
theory ScenarioProvider
  imports Scenario Agreement
begin

text \<open>
  The run of \<open>Scenario\<close> with the mock provider at the other end: the claimed refund is submitted through the
  client, the server records it as succeeded, and the worker stores the outcome.
\<close>

definition demo_result :: Result where
  "demo_result = \<lparr>prOperationID = ''refund_1'', prStatus = Succeeded, prRetryable = False, prErrorCode = ''''\<rparr>"

definition demo_codec :: codec where
  "demo_codec =
     \<lparr>cdDecoders =
        \<lparr>deRequest = (\<lambda>s. if s = ''Q'' then Some (request_of demo_claimed) else None), deMode = (\<lambda>_. None), deResolve = (\<lambda>_. None)\<rparr>,
      cdRequest = (\<lambda>q. if q = request_of demo_claimed then ''Q'' else ''?''),
      cdReply = (\<lambda>b. if b = BResult demo_result then ''R'' else ''?''),
      cdResult = (\<lambda>s. if s = ''R'' then Some demo_result else None)\<rparr>"

definition demo_network :: network where
  "demo_network = \<lparr>nwFiles = (\<lambda>_. None), nwWaited = True, nwLostRequest = None, nwLostReply = None\<rparr>"

definition demo_client :: Client where
  "demo_client = \<lparr>clBase = ''http://provider'', clKey = ''secret''\<rparr>"

definition demo_server :: Server where
  "demo_server =
     \<lparr>svKey = ''secret'', svFile = ''ops.json'', svMode = ''ok'', svDelay = 5, svRecords = Map.empty, svPosts = 0,
      svLookups = 0, svDisk = None\<rparr>"

definition demo_record :: Record where
  "demo_record = \<lparr>rcRequest = request_of demo_claimed, rcResult = demo_result\<rparr>"

definition demo_server1 :: Server where
  "demo_server1 = demo_server\<lparr>svRecords := [''refund_1'' \<mapsto> demo_record], svPosts := 1, svDisk := Some [''refund_1'' \<mapsto> demo_record]\<rparr>"

lemma demo_codec_sound: "codec_sound demo_codec"
  by (simp add: codec_sound_def demo_codec_def)

lemma demo_server_new: "New_mock ''secret'' ''ops.json'' ''ok'' 5 (Inr None) = Inr demo_server"
  by (simp add: New_mock_def demo_server_def validMode_def)

lemma demo_request_fields:
  "request_of demo_claimed = \<lparr>rqOperationID = ''refund_1'', rqPaymentID = ''p1'', rqAmount = 60, rqCurrency = ''RUB''\<rparr>"
  by (simp add: request_of_def demo_row_defs)

lemma demo_submitLocked:
  "submitLocked (\<lambda>_. None) demo_server (request_of demo_claimed) = ((demo_result, 200, False), demo_server1)"
  by (simp add: submitLocked_def submit_new_def saveLocked_def mode_result_def demo_server_def demo_server1_def
      demo_record_def demo_result_def demo_request_fields Let_def)

lemma demo_post:
  assumes "nwFiles nw = (\<lambda>_. None)" "nwLostRequest nw = None"
  shows "Submit (mock_client_env demo_codec nw demo_client 11 (\<lambda>_. None)) demo_client demo_server demo_claimed =
    (case nwLostReply nw of None \<Rightarrow> Inr demo_result | Some msg \<Rightarrow> Inl (provider_error (''provider transport error: '' @ msg)),
     demo_server1)"
proof -
  have rid: "rID demo_claimed = ''refund_1''" by (simp add: demo_row_defs)
  have req: "\<lparr>rqOperationID = ''refund_1'', rqPaymentID = rPaymentID demo_claimed, rqAmount = rAmount demo_claimed,
      rqCurrency = rCurrency demo_claimed\<rparr> = request_of demo_claimed"
    by (simp add: request_of_def demo_row_defs)
  have ok: "submit_valid (request_of demo_claimed) ''refund_1''" by (simp add: submit_valid_def demo_request_fields)
  have key: "svKey demo_server = clKey demo_client" by (simp add: demo_server_def demo_client_def)
  have res: "prOperationID demo_result = ''refund_1''" "prStatus demo_result = Succeeded" "prRetryable demo_result = False"
    by (simp_all add: demo_result_def)
  show ?thesis
    using assms ok key res demo_submitLocked
    by (simp add: Submit_def client_call_def req rid mock_transport_def mock_request_of_def
        header_def Handler_def submit_handler_def demo_codec_def client_answer_def read_limited_def validStatus_def
        split: option.splits)
qed

section \<open>The linked run\<close>

definition demo_opts18 :: Options where
  "demo_opts18 = demo_opts\<lparr>woCheckInterval := 18\<rparr>"

lemma demo_stored: "stored_outcome demo_opts18 0 demo_claimed (Inr demo_result) 12 False = demo_outcome"
proof -
  have "prOperationID demo_result = rID demo_claimed" by (simp add: demo_result_def demo_row_defs)
  then show ?thesis
    by (simp add: stored_outcome_def decide_def decide_result_def demo_result_def demo_outcome_def demo_opts18_def time_add_def)
qed

definition demo_linked :: linked where
  "demo_linked =
     \<lparr>lkSys = demo_sys demo_db4, lkServer = demo_server1, lkClaims = {(ClaimSubmit, demo_claimed)},
      lkAnswers = {(demo_claimed, Inr demo_result, False)}\<rparr>"

lemma demo_none: "completes_none (sdb sys_init) demo_db1" "completes_none demo_db1 demo_db2"
  by (simp_all add: completes_none_def demo_db_defs demo_row_defs sys_init_def)

lemma demo_linked_run: "(linked_step demo_sha 5 demo_codec)\<^sup>*\<^sup>* (linked_init demo_server) demo_linked"
proof -
  let ?step = "linked_step demo_sha 5 demo_codec"
  let ?l = "\<lambda>d s cs as. \<lparr>lkSys = demo_sys d, lkServer = s, lkClaims = cs, lkAnswers = as\<rparr>"
  have pay: "sys_step demo_sha 5 sys_init (demo_sys demo_db1)"
  proof -
    have "put_proc sys_init 0 \<lparr>pool = demo_db1, ensuredUsers = {''alice''}\<rparr> = demo_sys demo_db1"
      by (simp add: put_proc_def demo_sys_def sys_init_def)
    then show ?thesis using sys_step.create_payment [OF demo_pay_step, of 5] by simp
  qed
  have refund: "sys_step demo_sha 5 (demo_sys demo_db1) (demo_sys demo_db2)"
    using sys_step.create_refund [of demo_sha "calm 5 2 ''a''" "demo_sys demo_db1" 0 demo_request _ _ 5] demo_refund_step
    by (simp add: demo_put)
  have "?step (linked_init demo_server) (?l demo_db1 demo_server {} {})"
    using linked_step.other [of demo_sha 5 "linked_init demo_server" "demo_sys demo_db1" demo_codec] pay demo_none(1)
    by (simp add: linked_init_def demo_put)
  moreover have "?step (?l demo_db1 demo_server {} {}) (?l demo_db2 demo_server {} {})"
    using linked_step.other [of demo_sha 5 "?l demo_db1 demo_server {} {}" "demo_sys demo_db2" demo_codec] refund demo_none(2)
    by (simp add: demo_put)
  moreover have "?step (?l demo_db2 demo_server {} {}) (?l demo_db3 demo_server {(ClaimSubmit, demo_claimed)} {})"
    using linked_step.claim [of "calm 10 3 ''a''" "?l demo_db2 demo_server {} {}" ClaimSubmit 10 30 5 demo_claimed demo_db3 5
        demo_sha demo_codec] demo_claim_step
    by (simp add: demo_put)
  moreover have "?step (?l demo_db3 demo_server {(ClaimSubmit, demo_claimed)} {})
      (?l demo_db3 demo_server1 {(ClaimSubmit, demo_claimed)} {(demo_claimed, Inr demo_result, False)})"
    using linked_step.submit [of demo_claimed "?l demo_db3 demo_server {(ClaimSubmit, demo_claimed)} {}" demo_codec demo_network
        demo_client 11 "\<lambda>_. None" "Inr demo_result" demo_server1 demo_sha 5] demo_post [of demo_network]
    by (simp add: demo_network_def)
  moreover have "?step (?l demo_db3 demo_server1 {(ClaimSubmit, demo_claimed)} {(demo_claimed, Inr demo_result, False)}) demo_linked"
    using linked_step.store [of demo_claimed "Inr demo_result" False
        "?l demo_db3 demo_server1 {(ClaimSubmit, demo_claimed)} {(demo_claimed, Inr demo_result, False)}" "calm 12 4 ''a''"
        demo_opts18 0 12 "Inr ()" demo_db4 demo_sha 5 demo_codec] demo_outcome_step demo_stored
    by (simp add: demo_put demo_linked_def)
  ultimately show ?thesis by (meson converse_rtranclp_into_rtranclp rtranclp.rtrancl_refl)
qed

lemma demo_server_step: "mock_step demo_server demo_server1"
proof -
  have "Handler (cdDecoders demo_codec) (\<lambda>_. None) demo_server
      \<lparr>mqRoute = PostRefunds, mqAuthorization = ''Bearer secret'', mqIdempotencyKey = ''refund_1'', mqBody = ''Q'', mqWaited = True\<rparr> =
    (Reply 200 '''' (BResult demo_result), demo_server1)"
    using demo_submitLocked
    by (simp add: Handler_def submit_handler_def demo_codec_def submit_valid_def demo_request_fields)
      (simp add: demo_server_def)
  then show ?thesis by (rule mock_step.request)
qed

lemma demo_done_fields: "rID demo_done = ''refund_1''" "rStatus demo_done = RefundSucceeded"
  by (simp_all add: demo_row_defs)

end
