(* ===== verification/OutboxWorker.thy ===== *)
theory OutboxWorker
  imports OutboxStore "HOL-Library.Sublist"
begin

text \<open>
  \<open>internal/worker/worker.go\<close>: the worker that delivers outbox events to webhooks. It locks a batch of due
  events, sends each to the active subscriptions that have not received it yet, logs every delivery, and
  marks the event delivered, schedules a retry, or moves it to the dead letters.

  What an iteration takes from outside is in the records \<open>target_env\<close> and \<open>event_env\<close>: clock readings, the
  counter of delivery identifiers, the time a call took, failures of the driver and of building a request,
  and what other processes do to the database meanwhile. The webhooks are a function on the state \<open>'w\<close> of the
  outside world. The JSON body of a request is the envelope it encodes. Logging is left out.
\<close>

section \<open>Options\<close>

record OutboxOptions =
  ooBatchSize :: int
  ooPollInterval :: duration
  ooLockFor :: duration
  ooHTTPTimeout :: duration
  ooMaxAttempts :: int
  ooInitialBackoff :: duration
  ooMaxBackoff :: duration

definition normalizeOptions :: "OutboxOptions \<Rightarrow> OutboxOptions" where
  "normalizeOptions opts =
     \<lparr>ooBatchSize = (if ooBatchSize opts \<le> 0 then 10 else ooBatchSize opts),
      ooPollInterval = (if ooPollInterval opts \<le> 0 then 2 * Second else ooPollInterval opts),
      ooLockFor = (if ooLockFor opts \<le> 0 then 30 * Second else ooLockFor opts),
      ooHTTPTimeout = (if ooHTTPTimeout opts \<le> 0 then 5 * Second else ooHTTPTimeout opts),
      ooMaxAttempts = (if ooMaxAttempts opts \<le> 0 then 5 else ooMaxAttempts opts),
      ooInitialBackoff = (if ooInitialBackoff opts \<le> 0 then 2 * Second else ooInitialBackoff opts),
      ooMaxBackoff = (if ooMaxBackoff opts \<le> 0 then Minute else ooMaxBackoff opts)\<rparr>"

section \<open>Backoff\<close>

function outbox_backoff_loop :: "int \<Rightarrow> duration \<Rightarrow> int \<Rightarrow> duration \<Rightarrow> duration" where
  "outbox_backoff_loop attempt mx i delay =
     (if i < attempt then
        let delay' = wrap64 (delay * 2) in
        if delay' \<ge> mx then mx else outbox_backoff_loop attempt mx (i + 1) delay'
      else if delay > mx then mx else delay)"
  by pat_completeness auto
termination
  by (relation "measure (\<lambda>(attempt, mx, i, delay). nat (attempt - i))") auto

declare outbox_backoff_loop.simps [simp del]

definition outbox_backoff :: "int \<Rightarrow> duration \<Rightarrow> duration \<Rightarrow> duration" where
  "outbox_backoff attempt initial mx = outbox_backoff_loop (if attempt < 1 then 1 else attempt) mx 1 initial"

section \<open>The repository\<close>

text \<open>The interface \<open>Repository\<close> on a repository state \<open>'d\<close>, and the store as the program passes it.\<close>

record 'd OutboxRepository =
  orFetch :: "env \<Rightarrow> 'd \<Rightarrow> int \<Rightarrow> go_time \<Rightarrow> duration \<Rightarrow> (go_error + OutboxEvent list) \<times> 'd"
  orListSubscriptions :: "env \<Rightarrow> 'd \<Rightarrow> string \<Rightarrow> (go_error + WebhookSubscription list) \<times> 'd"
  orListDelivered :: "env \<Rightarrow> 'd \<Rightarrow> string \<Rightarrow> go_error + string set"
  orRecord :: "env \<Rightarrow> 'd \<Rightarrow> WebhookDelivery \<Rightarrow> (go_error + unit) \<times> 'd"
  orMarkDelivered :: "env \<Rightarrow> 'd \<Rightarrow> string \<Rightarrow> go_time \<Rightarrow> (go_error + unit) \<times> 'd"
  orScheduleRetry :: "env \<Rightarrow> 'd \<Rightarrow> string \<Rightarrow> go_time \<Rightarrow> string \<Rightarrow> go_time \<Rightarrow> (go_error + unit) \<times> 'd"
  orMarkDeadLetter :: "env \<Rightarrow> 'd \<Rightarrow> string \<Rightarrow> string \<Rightarrow> go_time \<Rightarrow> (go_error + unit) \<times> 'd"

definition outbox_repository_of :: "(string \<Rightarrow> string) \<Rightarrow> Store OutboxRepository" where
  "outbox_repository_of sha =
     \<lparr>orFetch = (\<lambda>e st limit now lockFor. on_pool st (FetchDueOutboxEvents e (pool st) limit now lockFor)),
      orListSubscriptions = ListSubscriptions sha,
      orListDelivered = (\<lambda>e st i. ListDeliveredSubscriptionIDs e (pool st) i),
      orRecord = (\<lambda>e st x. on_pool st (RecordWebhookDelivery e (pool st) x)),
      orMarkDelivered = (\<lambda>e st i now. on_pool st (MarkOutboxEventDelivered e (pool st) i now)),
      orScheduleRetry = (\<lambda>e st i nxt msg now. on_pool st (ScheduleOutboxEventRetry e (pool st) i nxt msg now)),
      orMarkDeadLetter = (\<lambda>e st i msg now. on_pool st (MarkOutboxEventDeadLetter e (pool st) i msg now))\<rparr>"

section \<open>Sending\<close>

record webhook_request =
  whURL :: string
  whHeaders :: "(string \<times> string) list"
  whBody :: WebhookEnvelope

type_synonym 'w webhooks = "'w \<Rightarrow> webhook_request \<Rightarrow> (go_error + int) \<times> 'w"

record DeliveryResult =
  drHTTPStatus :: int
  drDuration :: duration
  drErr :: "go_error option"

record 'd target_env =
  teMarshal :: "go_error option"
  teNewRequest :: "string \<Rightarrow> go_error option"
  teDuration :: duration
  teNano :: int
  teSeq :: "64 word"
  teNow :: go_time
  teOthers :: "'d \<Rightarrow> 'd"
  teEnv :: env

definition envelope_of :: "OutboxEvent \<Rightarrow> WebhookEnvelope" where
  "envelope_of event =
     \<lparr>weEventID = eID event, weEventType = eEventType event, weAggregateType = eAggregateType event,
      weAggregateID = eAggregateID event, weUserID = eUserID event, weAttempt = eAttempts event,
      weOccurredAt = eCreatedAt event, wePayload = ePayload event\<rparr>"

definition webhook_request_of :: "OutboxEvent \<Rightarrow> WebhookSubscription \<Rightarrow> webhook_request" where
  "webhook_request_of event target =
     \<lparr>whURL = sURL target,
      whHeaders = [(''Content-Type'', ''application/json''), (''User-Agent'', ''PTrans-Webhooks/1.0''),
        (''X-PTrans-Event-ID'', eID event), (''X-PTrans-Event-Type'', eEventType event)],
      whBody = envelope_of event\<rparr>"

definition sendWebhook ::
  "'d target_env \<Rightarrow> 'w webhooks \<Rightarrow> 'w \<Rightarrow> OutboxEvent \<Rightarrow> WebhookSubscription \<Rightarrow> DeliveryResult \<times> 'w" where
  "sendWebhook te do w event target =
     (case teMarshal te of
        Some err \<Rightarrow> (\<lparr>drHTTPStatus = 0, drDuration = 0, drErr = Some (wrapf ''marshal webhook envelope'' err)\<rparr>, w)
      | None \<Rightarrow>
        (case teNewRequest te (sURL target) of
           Some err \<Rightarrow> (\<lparr>drHTTPStatus = 0, drDuration = 0, drErr = Some (wrapf ''create webhook request'' err)\<rparr>, w)
         | None \<Rightarrow>
           (case do w (webhook_request_of event target) of
              (Inl err, w') \<Rightarrow> (\<lparr>drHTTPStatus = 0, drDuration = teDuration te, drErr = Some err\<rparr>, w')
            | (Inr code, w') \<Rightarrow>
              if code < 200 \<or> code \<ge> 300
              then (\<lparr>drHTTPStatus = code, drDuration = teDuration te,
                     drErr = Some (ErrNew (''unexpected webhook status '' @ dec code))\<rparr>, w')
              else (\<lparr>drHTTPStatus = code, drDuration = teDuration te, drErr = None\<rparr>, w'))))"

definition nextDeliveryID :: "'d target_env \<Rightarrow> string" where
  "nextDeliveryID te = ''del_'' @ dec (teNano te) @ ''_'' @ dec (uint (teSeq te))"

section \<open>One event\<close>

definition failure_text :: "WebhookSubscription \<Rightarrow> go_error \<Rightarrow> string" where
  "failure_text target err = ''subscription='' @ sID target @ '' url='' @ sURL target @ '' error='' @ error_text err"

definition delivery_of :: "'d target_env \<Rightarrow> OutboxEvent \<Rightarrow> WebhookSubscription \<Rightarrow> DeliveryResult \<Rightarrow> WebhookDelivery" where
  "delivery_of te event target result =
     \<lparr>dID = nextDeliveryID te, dEventID = eID event, dSubscriptionID = sID target, dTargetURL = sURL target,
      dStatus = (case drErr result of Some _ \<Rightarrow> WebhookDeliveryFailed | None \<Rightarrow> WebhookDeliverySucceeded),
      dHTTPStatus = drHTTPStatus result,
      dError = (case drErr result of Some err \<Rightarrow> error_text err | None \<Rightarrow> ''''),
      dAttempt = eAttempts event, dDurationMS = drDuration result sdiv 1000000, dCreatedAt = teNow te\<rparr>"

fun deliver_all ::
  "'d OutboxRepository \<Rightarrow> 'w webhooks \<Rightarrow> OutboxEvent \<Rightarrow> (nat \<Rightarrow> 'd target_env) \<Rightarrow> WebhookSubscription list \<Rightarrow>
   'd \<times> 'w \<Rightarrow> (go_error + string list) \<times> 'd \<times> 'w" where
  "deliver_all repo do event te [] s = (Inr [], s)"
| "deliver_all repo do event te (target # targets) s =
     (case sendWebhook (te 0) do (snd s) event target of
        (result, w) \<Rightarrow>
          (case orRecord repo (teEnv (te 0)) (teOthers (te 0) (fst s)) (delivery_of (te 0) event target result) of
             (Inl err, d) \<Rightarrow> (Inl (wrapf ''record webhook delivery'' err), d, w)
           | (Inr _, d) \<Rightarrow>
             (case deliver_all repo do event (\<lambda>n. te (Suc n)) targets (d, w) of
                (Inl err, s') \<Rightarrow> (Inl err, s')
              | (Inr failures, s') \<Rightarrow>
                (Inr ((case drErr result of Some err \<Rightarrow> [failure_text target err] | None \<Rightarrow> []) @ failures), s'))))"

fun join :: "string \<Rightarrow> string list \<Rightarrow> string" where
  "join sep [] = ''''"
| "join sep [x] = x"
| "join sep (x # y # ys) = x @ sep @ join sep (y # ys)"

record 'd event_env =
  oeSubscriptions :: env
  oeDelivered :: env
  oeTargets :: "nat \<Rightarrow> 'd target_env"
  oeOthers :: "'d \<Rightarrow> 'd"
  oeNow :: go_time
  oeFinish :: env

definition pending_targets :: "string set \<Rightarrow> WebhookSubscription list \<Rightarrow> WebhookSubscription list" where
  "pending_targets delivered subscriptions = filter (\<lambda>sub. sActive sub \<and> sID sub \<notin> delivered) subscriptions"

definition error_of :: "(go_error + unit) \<times> 'd \<Rightarrow> go_error option \<times> 'd" where
  "error_of r = (case fst r of Inl err \<Rightarrow> Some err | Inr _ \<Rightarrow> None, snd r)"

definition failEvent ::
  "OutboxOptions \<Rightarrow> 'd OutboxRepository \<Rightarrow> 'd event_env \<Rightarrow> OutboxEvent \<Rightarrow> string \<Rightarrow> 'd \<Rightarrow> go_error option \<times> 'd" where
  "failEvent opts repo oe event message d =
     (if eAttempts event \<ge> ooMaxAttempts opts
      then error_of (orMarkDeadLetter repo (oeFinish oe) d (eID event) message (oeNow oe))
      else error_of (orScheduleRetry repo (oeFinish oe) d (eID event)
        (time_add (oeNow oe) (outbox_backoff (eAttempts event) (ooInitialBackoff opts) (ooMaxBackoff opts)))
        message (oeNow oe)))"

definition processEvent ::
  "OutboxOptions \<Rightarrow> 'd OutboxRepository \<Rightarrow> 'w webhooks \<Rightarrow> 'd event_env \<Rightarrow> OutboxEvent \<Rightarrow> 'd \<times> 'w \<Rightarrow>
   go_error option \<times> 'd \<times> 'w" where
  "processEvent opts repo do oe event s =
     (let finish = (\<lambda>r w. (fst r, snd r, w)) in
      case orListSubscriptions repo (oeSubscriptions oe) (fst s) (eUserID event) of
        (Inl err, d1) \<Rightarrow>
          finish (failEvent opts repo oe event (error_text (wrapf ''list active subscriptions'' err)) d1) (snd s)
      | (Inr subscriptions, d1) \<Rightarrow>
        (case orListDelivered repo (oeDelivered oe) d1 (eID event) of
           Inl err \<Rightarrow>
             finish (failEvent opts repo oe event (error_text (wrapf ''list delivered subscriptions'' err)) d1) (snd s)
         | Inr delivered \<Rightarrow>
           if pending_targets delivered subscriptions = []
           then finish (error_of (orMarkDelivered repo (oeFinish oe) d1 (eID event) (oeNow oe))) (snd s)
           else
             (case deliver_all repo do event (oeTargets oe) (pending_targets delivered subscriptions) (d1, snd s) of
                (Inl err, s2) \<Rightarrow> (Some err, s2)
              | (Inr failures, s2) \<Rightarrow>
                let d3 = oeOthers oe (fst s2) in
                if failures = []
                then finish (error_of (orMarkDelivered repo (oeFinish oe) d3 (eID event) (oeNow oe))) (snd s2)
                else finish (failEvent opts repo oe event (join ''; '' failures) d3) (snd s2))))"

section \<open>Batches\<close>

record 'd iteration =
  itNow :: go_time
  itFetch :: env
  itEvents :: "nat \<Rightarrow> 'd event_env"
  itDone :: bool

fun process_events ::
  "OutboxOptions \<Rightarrow> 'd OutboxRepository \<Rightarrow> 'w webhooks \<Rightarrow> (nat \<Rightarrow> 'd event_env) \<Rightarrow> OutboxEvent list \<Rightarrow> 'd \<times> 'w \<Rightarrow> 'd \<times> 'w" where
  "process_events opts repo do oe [] s = s"
| "process_events opts repo do oe (event # events) s =
     process_events opts repo do (\<lambda>n. oe (Suc n)) events (snd (processEvent opts repo do (oe 0) event s))"

definition ProcessOnce_outbox ::
  "OutboxOptions \<Rightarrow> 'd OutboxRepository \<Rightarrow> 'w webhooks \<Rightarrow> 'd iteration \<Rightarrow> 'd \<times> 'w \<Rightarrow> (int \<times> go_error option) \<times> 'd \<times> 'w" where
  "ProcessOnce_outbox opts repo do it s =
     (case orFetch repo (itFetch it) (fst s) (ooBatchSize opts) (itNow it) (ooLockFor opts) of
        (Inl err, d1) \<Rightarrow> ((0, Some err), d1, snd s)
      | (Inr events, d1) \<Rightarrow>
        ((int (length events), None), process_events opts repo do (itEvents it) events (d1, snd s)))"

text \<open>\<open>Run\<close> goes round until an iteration that found nothing ends with the context done.\<close>

fun Run_outbox ::
  "OutboxOptions \<Rightarrow> 'd OutboxRepository \<Rightarrow> 'w webhooks \<Rightarrow> 'd iteration list \<Rightarrow> 'd \<times> 'w \<Rightarrow> 'd \<times> 'w" where
  "Run_outbox opts repo do [] s = s"
| "Run_outbox opts repo do (it # its) s =
     (case ProcessOnce_outbox opts repo do it s of
        ((processed, _), s') \<Rightarrow>
          if processed > 0 then Run_outbox opts repo do its s'
          else if itDone it then s' else Run_outbox opts repo do its s')"

section \<open>The backoff doubles up to its cap\<close>

lemma outbox_backoff_loop_closed:
  assumes "0 < delay" "delay < 2 ^ 62" "0 < mx" "mx \<le> 2 ^ 62"
  shows "outbox_backoff_loop attempt mx i delay = min mx (delay * 2 ^ nat (attempt - i))"
  using assms
proof (induction attempt mx i delay rule: outbox_backoff_loop.induct)
  case (1 attempt mx i delay)
  show ?case
  proof (cases "i < attempt")
    case False
    then show ?thesis by (simp add: outbox_backoff_loop.simps [of attempt])
  next
    case True
    have wrap: "wrap64 (delay * 2) = delay * 2"
      using "1.prems" by (intro wrap64_id) (simp add: int64_def min_int64_def max_int64_def)
    have pow: "(2 :: int) ^ nat (attempt - i) = 2 * 2 ^ nat (attempt - (i + 1))"
      using True by (simp flip: power_Suc add: nat_diff_distrib' Suc_nat_eq_nat_zadd1)
    show ?thesis
    proof (cases "delay * 2 \<ge> mx")
      case cap: True
      also have "delay * 2 \<le> delay * 2 ^ nat (attempt - i)" using "1.prems" by (simp add: pow)
      finally show ?thesis using True cap wrap by (simp add: outbox_backoff_loop.simps [of attempt])
    next
      case False
      then show ?thesis
        using True wrap "1.IH" "1.prems" by (simp add: outbox_backoff_loop.simps [of attempt] pow mult.assoc)
    qed
  qed
qed

lemma outbox_backoff_closed:
  assumes "0 < initial" "initial < 2 ^ 62" "0 < mx" "mx \<le> 2 ^ 62"
  shows "outbox_backoff attempt initial mx = min mx (initial * 2 ^ nat (attempt - 1))"
  using outbox_backoff_loop_closed [OF assms, of _ 1] by (simp add: outbox_backoff_def)

section \<open>Selection of targets\<close>

lemma pending_targets_iff:
  "sub \<in> set (pending_targets delivered subs) \<longleftrightarrow> sub \<in> set subs \<and> sActive sub \<and> sID sub \<notin> delivered"
  by (auto simp: pending_targets_def)

text \<open>Requests go to the targets only, in their order and at most once each.\<close>

lemma sendWebhook_sent:
  assumes "\<And>w r. snd (do w r) = w @ [r]" and "sendWebhook te do w event target = (result, w')"
  shows "w' = w \<or> w' = w @ [webhook_request_of event target]"
  using assms(1) [of w "webhook_request_of event target"] assms(2)
  by (auto simp: sendWebhook_def split: option.splits prod.splits sum.splits if_splits)

lemma deliver_all_sent:
  assumes log: "\<And>w r. snd (do w r) = w @ [r]" and "deliver_all repo do event te targets s = (res, s')"
  shows "\<exists>ts. snd s' = snd s @ map (webhook_request_of event) ts \<and> subseq ts targets"
  using assms(2)
proof (induction targets arbitrary: te s res)
  case Nil
  then show ?case by (intro exI [of _ "[]"]) simp
next
  case (Cons target targets)
  obtain result w where send: "sendWebhook (te 0) do (snd s) event target = (result, w)" by (rule prod.exhaust)
  then obtain first where first: "w = snd s @ map (webhook_request_of event) first" "subseq first [target]"
    using sendWebhook_sent [OF log send] by (cases "w = snd s") (auto intro: that [of "[]"] that [of "[target]"])
  obtain r d where rec: "orRecord repo (teEnv (te 0)) (teOthers (te 0) (fst s)) (delivery_of (te 0) event target result) = (r, d)"
    by (rule prod.exhaust)
  show ?case
  proof (cases r)
    case (Inl err)
    then have "snd s' = w" using Cons.prems send rec by auto
    then show ?thesis using first list_emb_append_mono [OF first(2), of "[]" targets] by (intro exI [of _ first]) simp
  next
    case (Inr u)
    then obtain r2 where rest: "deliver_all repo do event (\<lambda>n. te (Suc n)) targets (d, w) = (r2, s')"
      using Cons.prems send rec by (auto split: prod.splits sum.splits)
    from Cons.IH [OF rest] obtain ts where "snd s' = w @ map (webhook_request_of event) ts" "subseq ts targets" by auto
    then show ?thesis using first list_emb_append_mono [OF first(2), of ts targets] by (intro exI [of _ "first @ ts"]) simp
  qed
qed

end
