(* ===== verification/OutboxEngine.thy ===== *)
theory OutboxEngine
  imports RefundEngine OutboxWorker
begin

text \<open>
  The outbox worker on top of a repository. The locale \<open>outbox_repository\<close> is the contract of the interface
  \<open>Repository\<close> of \<open>internal/worker\<close>: the changes its operations may make, and the delivery log, which
  remembers every success, is read back exactly and never shrinks. The interpretation on the PostgreSQL store
  places every execution of the worker inside the runs of \<open>System\<close>.
\<close>

section \<open>The contract\<close>

definition event_others_allowed :: "('d \<Rightarrow> 'd \<Rightarrow> bool) \<Rightarrow> 'd event_env \<Rightarrow> bool" where
  "event_others_allowed allowed oe \<longleftrightarrow>
     (\<forall>d. allowed\<^sup>*\<^sup>* d (oeOthers oe d)) \<and> (\<forall>n d. allowed\<^sup>*\<^sup>* d (teOthers (oeTargets oe n) d))"

locale outbox_repository =
  fixes repo :: "'d OutboxRepository"
    and allowed :: "'d \<Rightarrow> 'd \<Rightarrow> bool"
    and acked :: "'d \<Rightarrow> (string \<times> string) set"
    and finished :: "'d \<Rightarrow> string set"
  assumes fetch_allowed: "orFetch repo e d limit now lockFor = (r1, d') \<Longrightarrow> allowed d d'"
    and list_allowed: "orListSubscriptions repo e d u = (r2, d') \<Longrightarrow> allowed d d'"
    and record_allowed: "orRecord repo e d x = (r3, d') \<Longrightarrow> allowed d d'"
    and mark_allowed: "orMarkDelivered repo e d i now = (r3, d') \<Longrightarrow> allowed d d'"
    and retry_allowed: "orScheduleRetry repo e d i nxt msg now = (r3, d') \<Longrightarrow> allowed d d'"
    and dead_allowed: "orMarkDeadLetter repo e d i msg now = (r3, d') \<Longrightarrow> allowed d d'"
    and acked_mono: "allowed d d' \<Longrightarrow> acked d \<subseteq> acked d'"
    and acked_exact: "orListDelivered repo e d i = Inr subs \<Longrightarrow> s \<in> subs \<longleftrightarrow> (i, s) \<in> acked d"
    and record_acked:
      "orRecord repo e d x = (Inr v, d') \<Longrightarrow> dStatus x = WebhookDeliverySucceeded \<Longrightarrow>
         (dEventID x, dSubscriptionID x) \<in> acked d'"
    and retry_unfinished: "orScheduleRetry repo e d i nxt msg now = (Inr v, d') \<Longrightarrow> i \<notin> finished d'"
    and dead_unfinished: "orMarkDeadLetter repo e d i msg now = (Inr v, d') \<Longrightarrow> i \<notin> finished d'"
begin

lemma acked_star: "allowed\<^sup>*\<^sup>* d d' \<Longrightarrow> acked d \<subseteq> acked d'"
  by (induction rule: rtranclp_induct) (use acked_mono in blast)+

lemma error_of_allowed:
  assumes "\<And>r d'. x = (r, d') \<Longrightarrow> allowed d d'"
  shows "allowed d (snd (error_of x))"
  using assms [of "fst x" "snd x"] by (simp add: error_of_def)

lemma failEvent_allowed: "allowed d (snd (failEvent opts repo oe event msg d))"
  unfolding failEvent_def using error_of_allowed dead_allowed retry_allowed by simp

lemma deliver_all_allowed:
  assumes "\<And>n d. allowed\<^sup>*\<^sup>* d (teOthers (te n) d)" and "deliver_all repo do event te targets s = (res, s')"
  shows "allowed\<^sup>*\<^sup>* (fst s) (fst s')"
  using assms
proof (induction targets arbitrary: te s res)
  case Nil
  then show ?case by simp
next
  case (Cons target targets)
  obtain result w where send: "sendWebhook (te 0) do (snd s) event target = (result, w)" by fastforce
  obtain r d where rec: "orRecord repo (teEnv (te 0)) (teOthers (te 0) (fst s)) (delivery_of (te 0) event target result) = (r, d)"
    by fastforce
  have here: "allowed\<^sup>*\<^sup>* (fst s) d"
    using Cons.prems(1) [of "fst s" 0] record_allowed [OF rec] by (rule rtranclp.rtrancl_into_rtrancl)
  show ?case
  proof (cases r)
    case (Inl err)
    then show ?thesis using here send rec Cons.prems(2) by auto
  next
    case (Inr u)
    obtain r2 s2 where rest: "deliver_all repo do event (\<lambda>n. te (Suc n)) targets (d, w) = (r2, s2)" by (rule prod.exhaust)
    then have "s' = s2" and res: "\<exists>r3. deliver_all repo do event (\<lambda>n. te (Suc n)) targets (d, w) = (r3, s')"
      using Inr send rec Cons.prems(2) by (auto split: sum.splits)
    then have "allowed\<^sup>*\<^sup>* d (fst s')" using Cons.IH [of "\<lambda>n. te (Suc n)" "(d, w)"] Cons.prems(1) by auto
    then show ?thesis using here by simp
  qed
qed

text \<open>A target that was sent the event without an error is on record.\<close>

lemma deliver_all_acked:
  assumes "\<And>n d. allowed\<^sup>*\<^sup>* d (teOthers (te n) d)" and "deliver_all repo do event te targets s = (Inr [], s')"
    and "target \<in> set targets"
  shows "(eID event, sID target) \<in> acked (fst s')"
  using assms
proof (induction targets arbitrary: te s)
  case Nil
  then show ?case by simp
next
  case (Cons x targets)
  obtain result w where send: "sendWebhook (te 0) do (snd s) event x = (result, w)" by fastforce
  with Cons.prems(2) obtain d u where ok: "drErr result = None"
    and rec: "orRecord repo (teEnv (te 0)) (teOthers (te 0) (fst s)) (delivery_of (te 0) event x result) = (Inr u, d)"
    and rest: "deliver_all repo do event (\<lambda>n. te (Suc n)) targets (d, w) = (Inr [], s')"
    by (auto split: prod.splits sum.splits option.splits)
  have "(eID event, sID x) \<in> acked d"
    using record_acked [OF rec] ok by (simp add: delivery_of_def)
  moreover have "acked d \<subseteq> acked (fst s')"
    using acked_star [OF deliver_all_allowed [OF _ rest]] Cons.prems(1) by simp
  ultimately show ?case
    using Cons.IH [OF _ rest] Cons.prems(1,3) by auto
qed

text \<open>The three parts of processing an event, with the states in between.\<close>

lemma processEvent_cases:
  assumes run: "processEvent opts repo do oe event s = (err, s')"
  obtains (failed) d1 msg where "allowed (fst s) d1" "s' = (snd (failEvent opts repo oe event msg d1), snd s)"
      "err = fst (failEvent opts repo oe event msg d1)"
    | (none) subs d1 delivered where "orListSubscriptions repo (oeSubscriptions oe) (fst s) (eUserID event) = (Inr subs, d1)"
        "orListDelivered repo (oeDelivered oe) d1 (eID event) = Inr delivered" "pending_targets delivered subs = []"
        "s' = (snd (error_of (orMarkDelivered repo (oeFinish oe) d1 (eID event) (oeNow oe))), snd s)"
    | (stopped) subs d1 delivered err' where "orListSubscriptions repo (oeSubscriptions oe) (fst s) (eUserID event) = (Inr subs, d1)"
        "orListDelivered repo (oeDelivered oe) d1 (eID event) = Inr delivered"
        "deliver_all repo do event (oeTargets oe) (pending_targets delivered subs) (d1, snd s) = (Inl err', s')"
    | (sent) subs d1 delivered s2 where "orListSubscriptions repo (oeSubscriptions oe) (fst s) (eUserID event) = (Inr subs, d1)"
        "orListDelivered repo (oeDelivered oe) d1 (eID event) = Inr delivered"
        "deliver_all repo do event (oeTargets oe) (pending_targets delivered subs) (d1, snd s) = (Inr [], s2)"
        "s' = (snd (error_of (orMarkDelivered repo (oeFinish oe) (oeOthers oe (fst s2)) (eID event) (oeNow oe))), snd s2)"
    | (failures) subs d1 delivered fs s2 where "orListSubscriptions repo (oeSubscriptions oe) (fst s) (eUserID event) = (Inr subs, d1)"
        "orListDelivered repo (oeDelivered oe) d1 (eID event) = Inr delivered"
        "deliver_all repo do event (oeTargets oe) (pending_targets delivered subs) (d1, snd s) = (Inr fs, s2)" "fs \<noteq> []"
        "s' = (snd (failEvent opts repo oe event (join ''; '' fs) (oeOthers oe (fst s2))), snd s2)"
proof -
  obtain r1 d1 where l: "orListSubscriptions repo (oeSubscriptions oe) (fst s) (eUserID event) = (r1, d1)" by fastforce
  note a = list_allowed [OF l]
  show thesis
  proof (cases r1)
    case (Inl e1)
    then show thesis using run l a by (intro failed [of d1]) (auto simp: processEvent_def)
  next
    case (Inr subs)
    note l = l [unfolded Inr]
    show thesis
    proof (cases "orListDelivered repo (oeDelivered oe) d1 (eID event)")
      case (Inl e2)
      then show thesis using run l a by (intro failed [of d1]) (auto simp: processEvent_def)
    next
      case del: (Inr delivered)
      show thesis
      proof (cases "pending_targets delivered subs = []")
        case True
        then show thesis using run l del by (intro none [of subs d1 delivered]) (auto simp: processEvent_def)
      next
        case False
        obtain r2 s2 where all: "deliver_all repo do event (oeTargets oe) (pending_targets delivered subs) (d1, snd s) = (r2, s2)"
          by (rule prod.exhaust)
        show thesis
        proof (cases r2)
          case (Inl e3)
          then show thesis using run l del False all by (intro stopped [of subs d1 delivered e3]) (auto simp: processEvent_def)
        next
          case fs: (Inr fs)
          show thesis
          proof (cases "fs = []")
            case True
            then show thesis using run l del False all fs by (intro sent [of subs d1 delivered s2]) (auto simp: processEvent_def Let_def)
          next
            case False
            then show thesis
              using run l del \<open>pending_targets delivered subs \<noteq> []\<close> all fs
              by (intro failures [of subs d1 delivered fs s2]) (auto simp: processEvent_def Let_def)
          qed
        qed
      qed
    qed
  qed
qed

lemma processEvent_allowed:
  assumes run: "processEvent opts repo do oe event s = (err, s')" and others: "event_others_allowed allowed oe"
  shows "allowed\<^sup>*\<^sup>* (fst s) (fst s')"
proof -
  have o: "allowed\<^sup>*\<^sup>* d (oeOthers oe d)" and te: "allowed\<^sup>*\<^sup>* d (teOthers (oeTargets oe n) d)" for d n
    using others by (auto simp: event_others_allowed_def)
  have mark: "allowed d (snd (error_of (orMarkDelivered repo (oeFinish oe) d (eID event) (oeNow oe))))" for d
    by (rule error_of_allowed) (rule mark_allowed)
  have chain: "allowed\<^sup>*\<^sup>* (fst s) d4"
    if "allowed (fst s) d1" "allowed\<^sup>*\<^sup>* d1 d2" "allowed (oeOthers oe d2) d4" for d1 d2 d4
    using that o [of d2] by (meson converse_rtranclp_into_rtranclp rtranclp.rtrancl_into_rtrancl rtranclp_trans)
  from run show ?thesis
  proof (cases rule: processEvent_cases)
    case (failed d1 msg)
    then show ?thesis using failEvent_allowed [of d1 opts oe event msg] by (auto intro: converse_rtranclp_into_rtranclp)
  next
    case (none subs d1 delivered)
    then show ?thesis using list_allowed [OF none(1)] mark [of d1] by (auto intro: converse_rtranclp_into_rtranclp)
  next
    case (stopped subs d1 delivered err')
    then show ?thesis using list_allowed [OF stopped(1)] deliver_all_allowed [OF te stopped(3)]
      by (auto intro: converse_rtranclp_into_rtranclp)
  next
    case (sent subs d1 delivered s2)
    then show ?thesis using chain [OF list_allowed [OF sent(1)]] deliver_all_allowed [OF te sent(3)] mark by auto
  next
    case (failures subs d1 delivered fs s2)
    then show ?thesis using chain [OF list_allowed [OF failures(1)]] deliver_all_allowed [OF te failures(3)] failEvent_allowed by auto
  qed
qed

lemma failEvent_unfinished:
  assumes "fst (failEvent opts repo oe event msg d) = None"
  shows "eID event \<notin> finished (snd (failEvent opts repo oe event msg d))"
proof (cases "eAttempts event \<ge> ooMaxAttempts opts")
  case True
  obtain r d' where "orMarkDeadLetter repo (oeFinish oe) d (eID event) msg (oeNow oe) = (r, d')" by (rule prod.exhaust)
  with True assms dead_unfinished show ?thesis
    by (cases r) (auto simp: failEvent_def error_of_def)
next
  case False
  obtain r d' where "orScheduleRetry repo (oeFinish oe) d (eID event)
      (time_add (oeNow oe) (outbox_backoff (eAttempts event) (ooInitialBackoff opts) (ooMaxBackoff opts))) msg (oeNow oe) = (r, d')"
    by (rule prod.exhaust)
  with False assms retry_unfinished show ?thesis
    by (cases r) (auto simp: failEvent_def error_of_def)
qed

text \<open>An event ends up delivered only when every active subscription the worker saw has received it.\<close>

lemma processEvent_delivered:
  assumes run: "processEvent opts repo do oe event s = (None, s')" and others: "event_others_allowed allowed oe"
    and list: "orListSubscriptions repo (oeSubscriptions oe) (fst s) (eUserID event) = (Inr subs, d1)"
    and marked: "eID event \<in> finished (fst s')" and sub: "sub \<in> set subs" "sActive sub"
  shows "(eID event, sID sub) \<in> acked (fst s')"
proof -
  have o: "allowed\<^sup>*\<^sup>* d (oeOthers oe d)" and te: "allowed\<^sup>*\<^sup>* d (teOthers (oeTargets oe n) d)" for d n
    using others by (auto simp: event_others_allowed_def)
  have mark: "acked d \<subseteq> acked (snd (error_of (orMarkDelivered repo (oeFinish oe) d (eID event) (oeNow oe))))" for d
    by (rule acked_mono, rule error_of_allowed) (rule mark_allowed)
  from run show ?thesis
  proof (cases rule: processEvent_cases)
    case (failed d1 msg)
    then show ?thesis using failEvent_unfinished [of opts oe event msg d1] marked by simp
  next
    case (none subs' d1' delivered)
    with list sub have "sID sub \<in> delivered" by (auto simp: pending_targets_def filter_empty_conv)
    then show ?thesis using acked_exact [OF none(2)] mark [of d1'] none(4) by auto
  next
    case (stopped subs' d1' delivered err')
    with run list show ?thesis by (auto simp: processEvent_def Let_def split: if_splits)
  next
    case (sent subs' d1' delivered s2)
    have more: "acked d1' \<subseteq> acked (fst s2)" "acked (fst s2) \<subseteq> acked (oeOthers oe (fst s2))"
      using acked_star deliver_all_allowed [OF te sent(3)] o by auto
    have "(eID event, sID sub) \<in> acked (fst s2)"
    proof (cases "sID sub \<in> delivered")
      case True
      then show ?thesis using acked_exact [OF sent(2)] more by blast
    next
      case False
      then have "sub \<in> set (pending_targets delivered subs')" using sub list sent(1) by (simp add: pending_targets_iff)
      from deliver_all_acked [OF te sent(3) this] show ?thesis .
    qed
    then show ?thesis using more mark [of "oeOthers oe (fst s2)"] sent(4) by auto
  next
    case (failures subs' d1' delivered fs s2)
    have "fst (failEvent opts repo oe event (join ''; '' fs) (oeOthers oe (fst s2))) = None"
      using run failures by (auto simp: processEvent_def Let_def split: if_splits)
    from failEvent_unfinished [OF this] show ?thesis using marked failures(5) by simp
  qed
qed

lemma process_events_allowed:
  assumes "\<And>n. event_others_allowed allowed (oe n)"
  shows "allowed\<^sup>*\<^sup>* (fst s) (fst (process_events opts repo do oe events s))"
  using assms
proof (induction events arbitrary: oe s)
  case Nil
  then show ?case by simp
next
  case (Cons event events)
  obtain err s1 where p: "processEvent opts repo do (oe 0) event s = (err, s1)" by (rule prod.exhaust)
  from processEvent_allowed [OF p Cons.prems] have "allowed\<^sup>*\<^sup>* (fst s) (fst s1)" .
  also have "allowed\<^sup>*\<^sup>* (fst s1) (fst (process_events opts repo do (\<lambda>n. oe (Suc n)) events s1))"
    by (rule Cons.IH) (rule Cons.prems)
  finally show ?case by (simp add: p)
qed

lemma ProcessOnce_outbox_allowed:
  assumes "\<And>n. event_others_allowed allowed (itEvents it n)" and "ProcessOnce_outbox opts repo do it s = (res, s')"
  shows "allowed\<^sup>*\<^sup>* (fst s) (fst s')"
proof -
  obtain r d1 where f: "orFetch repo (itFetch it) (fst s) (ooBatchSize opts) (itNow it) (ooLockFor opts) = (r, d1)"
    by (rule prod.exhaust)
  have "allowed\<^sup>*\<^sup>* (fst s) d1" using fetch_allowed [OF f] by blast
  moreover have "allowed\<^sup>*\<^sup>* d1 (fst s')"
    using assms f process_events_allowed [of "itEvents it" "(d1, snd s)" opts do]
    by (cases r) (auto simp: ProcessOnce_outbox_def)
  ultimately show ?thesis by simp
qed

lemma Run_outbox_allowed:
  assumes "\<forall>it \<in> set its. \<forall>n. event_others_allowed allowed (itEvents it n)"
  shows "allowed\<^sup>*\<^sup>* (fst s) (fst (Run_outbox opts repo do its s))"
  using assms
proof (induction its arbitrary: s)
  case Nil
  then show ?case by simp
next
  case (Cons it its)
  obtain n err s1 where p: "ProcessOnce_outbox opts repo do it s = ((n, err), s1)" by (metis surj_pair)
  have "allowed\<^sup>*\<^sup>* (fst s) (fst s1)" using ProcessOnce_outbox_allowed [OF _ p] Cons.prems by simp
  moreover have "allowed\<^sup>*\<^sup>* (fst s1) (fst (Run_outbox opts repo do its s1))" using Cons by simp
  ultimately show ?case by (auto simp: p)
qed

end

section \<open>The store keeps the contract\<close>

text \<open>What the system can do to what one of its processes sees, from every state in which it sees it.\<close>

definition simulated_store :: "(string \<Rightarrow> string) \<Rightarrow> int \<Rightarrow> Store \<Rightarrow> Store \<Rightarrow> bool" where
  "simulated_store sha M st st' \<longleftrightarrow>
     (\<forall>s i. proc s i = st \<longrightarrow> (\<exists>t. run sha M s t \<and> proc t i = st')) \<and>
     set (webhook_deliveries (pool st)) \<subseteq> set (webhook_deliveries (pool st'))"

definition acked_in :: "Store \<Rightarrow> (string \<times> string) set" where
  "acked_in st = {(dEventID x, dSubscriptionID x) |x. x \<in> set (webhook_deliveries (pool st)) \<and> dStatus x = WebhookDeliverySucceeded}"

definition finished_in :: "Store \<Rightarrow> string set" where
  "finished_in st = {eID x |x. x \<in> set (outbox_events (pool st)) \<and> eStatus x = OutboxDelivered}"

lemma simulated_store_trans:
  "simulated_store sha M a b \<Longrightarrow> simulated_store sha M b c \<Longrightarrow> simulated_store sha M a c"
  unfolding simulated_store_def by (metis (no_types, lifting) rtranclp_trans subset_trans)

lemma simulated_store_refl: "simulated_store sha M a a"
  by (auto simp: simulated_store_def)

lemma simulated_store_star: "(simulated_store sha M)\<^sup>*\<^sup>* a b \<Longrightarrow> simulated_store sha M a b"
  by (induction rule: rtranclp_induct) (blast intro: simulated_store_refl simulated_store_trans)+

lemma simulated_pool:
  assumes "\<And>s. sdb s = pool st \<Longrightarrow> sys_step sha M s (s\<lparr>sdb := d\<rparr>)" and "outbox_effect (pool st) d"
  shows "simulated_store sha M st (st\<lparr>pool := d\<rparr>)"
proof -
  have "\<exists>t. run sha M s t \<and> proc t i = st\<lparr>pool := d\<rparr>" if "proc s i = st" for s i
    using that assms(1) [of s] by (intro exI [of _ "s\<lparr>sdb := d\<rparr>"]) (auto simp: proc_def)
  then show ?thesis using assms(2) by (auto simp: simulated_store_def outbox_effect_def)
qed

lemma ensureUserTablesTx_deliveries:
  "ensureUserTablesTx e u t d = Inr d' \<Longrightarrow> webhook_deliveries d' = webhook_deliveries d"
  by (auto simp: ensureUserTablesTx_def bindE_Inr insert_app_user_def Let_def split: if_splits)

lemma ListSubscriptions_deliveries:
  assumes "ListSubscriptions sha e st u = (r, st')"
  shows "webhook_deliveries (pool st') = webhook_deliveries (pool st)"
proof -
  obtain r1 s1 where en: "ensureUserSchema sha e st u = (r1, s1)" by (rule prod.exhaust)
  have "run_tx wrapf e lb lc d (\<lambda>d. bindE (ensureUserTablesTx e v t d) (\<lambda>d'. Inr ((), Some d'))) = (x, d') \<Longrightarrow>
      webhook_deliveries d' = webhook_deliveries d" for lb lc d v t x d'
    by (drule run_tx_atomic) (auto simp: bindE_Inr ensureUserTablesTx_deliveries)
  with en have "webhook_deliveries (pool s1) = webhook_deliveries (pool st)"
    by (auto simp: ensureUserSchema_def Let_def split: if_splits prod.splits sum.splits)
  then show ?thesis using assms en by (auto simp: ListSubscriptions_def split: sum.splits)
qed

lemma on_pool_eq: "on_pool st x = (r, st') \<Longrightarrow> x = (r, pool st')"
  by (cases x) (auto simp: on_pool_def)

lemma simulated_on_pool:
  assumes "on_pool st x = (r, st')" and "\<And>d s. x = (r, d) \<Longrightarrow> sdb s = pool st \<Longrightarrow> sys_step sha M s (s\<lparr>sdb := d\<rparr>)"
    and "\<And>d. x = (r, d) \<Longrightarrow> outbox_effect (pool st) d"
  shows "simulated_store sha M st st'"
proof -
  obtain d where d: "x = (r, d)" "st' = st\<lparr>pool := d\<rparr>" using assms(1) by (cases x) (auto simp: on_pool_def)
  then show ?thesis using simulated_pool [of st sha M d] assms(2,3) by auto
qed

lemma update_event_Inr:
  assumes "update_event e l i f d = (Inr v, d')"
  shows "outbox_events d' = update_where (\<lambda>x. eID x = i) f (outbox_events d)"
  using assms by (auto simp: update_event_def autocommit_def split: option.splits sum.splits prod.splits if_splits)

lemma record_Inr:
  assumes "RecordWebhookDelivery e d x = (Inr v, d')"
  shows "\<exists>y \<in> set (webhook_deliveries d'). dEventID y = dEventID x \<and> dSubscriptionID y = dSubscriptionID x \<and> dStatus y = dStatus x"
  using assms
  by (auto simp: RecordWebhookDelivery_def autocommit_def insert_delivery_def
      split: option.splits sum.splits prod.splits if_splits)

lemma finished_update:
  assumes "outbox_events (pool st) = update_where (\<lambda>x. eID x = i) f evs" and "\<And>x. eStatus (f x) \<noteq> OutboxDelivered"
  shows "i \<notin> finished_in st"
  using assms by (auto simp: finished_in_def set_update_where)

interpretation outbox_store: outbox_repository "outbox_repository_of sha" "simulated_store sha M" acked_in finished_in for sha M
proof (unfold_locales, goal_cases)
  case (1 e d limit now lockFor r1 d')
  then have "on_pool d (FetchDueOutboxEvents e (pool d) limit now lockFor) = (r1, d')" by (simp add: outbox_repository_of_def)
  then show ?case
    by (rule simulated_on_pool) (auto intro: sys_step.fetch_events fetch_effect)
next
  case (2 e d u r2 d')
  then have l: "ListSubscriptions sha e d u = (r2, d')" by (simp add: outbox_repository_of_def)
  have "\<exists>t. run sha M s t \<and> proc t i = d'" if "proc s i = d" for s i
    using sys_step.list_subscriptions [of sha e s i u r2 d' M] l that
    by (intro exI [of _ "put_proc s i d'"]) (auto simp: proc_def put_proc_def)
  then show ?case using ListSubscriptions_deliveries [OF l] by (auto simp: simulated_store_def)
next
  case (3 e d x r3 d')
  then have "on_pool d (RecordWebhookDelivery e (pool d) x) = (r3, d')" by (simp add: outbox_repository_of_def)
  then show ?case
    by (rule simulated_on_pool) (auto intro: sys_step.record_delivery record_effect)
next
  case (4 e d i now r3 d')
  then have "on_pool d (MarkOutboxEventDelivered e (pool d) i now) = (r3, d')" by (simp add: outbox_repository_of_def)
  then show ?case
    by (rule simulated_on_pool) (auto intro: sys_step.mark_delivered mark_effects)
next
  case (5 e d i nxt msg now r3 d')
  then have "on_pool d (ScheduleOutboxEventRetry e (pool d) i nxt msg now) = (r3, d')" by (simp add: outbox_repository_of_def)
  then show ?case
    by (rule simulated_on_pool) (auto intro: sys_step.schedule_retry mark_effects)
next
  case (6 e d i msg now r3 d')
  then have "on_pool d (MarkOutboxEventDeadLetter e (pool d) i msg now) = (r3, d')" by (simp add: outbox_repository_of_def)
  then show ?case
    by (rule simulated_on_pool) (auto intro: sys_step.mark_dead mark_effects)
next
  case (7 d d')
  then show ?case by (auto simp: simulated_store_def acked_in_def)
next
  case (8 e d i subs s)
  then show ?case
    by (auto simp: outbox_repository_of_def ListDeliveredSubscriptionIDs_def bindE_Inr acked_in_def)
next
  case (9 e d x v d')
  then have "RecordWebhookDelivery e (pool d) x = (Inr v, pool d')"
    using on_pool_eq [of d "RecordWebhookDelivery e (pool d) x" "Inr v" d'] by (simp add: outbox_repository_of_def)
  from record_Inr [OF this] 9(2) show ?case unfolding acked_in_def by (clarsimp, metis)
next
  case (10 e d i nxt msg now v d')
  then have "ScheduleOutboxEventRetry e (pool d) i nxt msg now = (Inr v, pool d')"
    using on_pool_eq [of d "ScheduleOutboxEventRetry e (pool d) i nxt msg now" "Inr v" d'] by (simp add: outbox_repository_of_def)
  then have ev: "outbox_events (pool d') = update_where (\<lambda>x. eID x = i) (retry_set nxt msg now) (outbox_events (pool d))"
    unfolding ScheduleOutboxEventRetry_def by (rule update_event_Inr)
  show ?case by (rule finished_update [OF ev]) (simp add: retry_set_def)
next
  case (11 e d i msg now v d')
  then have "MarkOutboxEventDeadLetter e (pool d) i msg now = (Inr v, pool d')"
    using on_pool_eq [of d "MarkOutboxEventDeadLetter e (pool d) i msg now" "Inr v" d'] by (simp add: outbox_repository_of_def)
  then have ev: "outbox_events (pool d') = update_where (\<lambda>x. eID x = i) (dead_letter_set msg now) (outbox_events (pool d))"
    unfolding MarkOutboxEventDeadLetter_def by (rule update_event_Inr)
  show ?case by (rule finished_update [OF ev]) (simp add: dead_letter_set_def)
qed

section \<open>An undisturbed event is settled\<close>

definition quiet_targets :: "(nat \<Rightarrow> Store target_env) \<Rightarrow> nat \<Rightarrow> db \<Rightarrow> bool" where
  "quiet_targets te n d \<longleftrightarrow>
     (\<forall>k. teOthers (te k) = (\<lambda>st. st) \<and> fault_free (teEnv (te k)) \<and> 0 \<le> teDuration (te k)) \<and>
     (\<forall>k < n. nextDeliveryID (te k) \<notin> dID ` set (webhook_deliveries d)) \<and>
     inj_on (\<lambda>k. nextDeliveryID (te k)) {..<n}"

lemma quiet_targets_less: "quiet_targets te n d \<Longrightarrow> m \<le> n \<Longrightarrow> quiet_targets te m d"
  unfolding quiet_targets_def by (meson inj_on_subset lessThan_subset_iff order_less_le_trans)

lemma quiet_targets_Suc:
  assumes "quiet_targets te (Suc n) d" and "webhook_deliveries d' = webhook_deliveries d @ [x]" and "dID x = nextDeliveryID (te 0)"
  shows "quiet_targets (\<lambda>k. te (Suc k)) n d'"
proof -
  have inj: "inj_on (\<lambda>k. nextDeliveryID (te k)) {..<Suc n}" using assms(1) by (simp add: quiet_targets_def)
  have "nextDeliveryID (te (Suc k)) \<noteq> nextDeliveryID (te 0)" if "k < n" for k
    using inj_onD [OF inj, of "Suc k" 0] that by auto
  moreover have "inj_on (\<lambda>k. nextDeliveryID (te (Suc k))) {..<n}"
    using inj by (auto simp: inj_on_def)
  ultimately show ?thesis using assms by (auto simp: quiet_targets_def)
qed

lemma sendWebhook_duration: "0 \<le> teDuration te \<Longrightarrow> sendWebhook te do w event target = (result, w') \<Longrightarrow> 0 \<le> drDuration result"
  by (auto simp: sendWebhook_def split: option.splits prod.splits sum.splits if_splits)

lemma record_ok_store:
  assumes "quiet_targets te (Suc n) (pool st)" and "0 \<le> drDuration result" and "1 \<le> eAttempts event"
    and "\<exists>row \<in> set (outbox_events (pool st)). eID row = eID event"
  shows "\<exists>x. RecordWebhookDelivery (teEnv (te 0)) (pool st) (delivery_of (te 0) event target result) =
      (Inr (), (pool st)\<lparr>webhook_deliveries := webhook_deliveries (pool st) @ [x]\<rparr>) \<and>
    dID x = nextDeliveryID (te 0) \<and> dSubscriptionID x = sID target \<and> dEventID x = eID event \<and>
    (dStatus x = WebhookDeliverySucceeded \<longleftrightarrow> drErr result = None)"
proof -
  let ?x = "delivery_of (te 0) event target result"
  let ?y = "?x\<lparr>dHTTPStatus := (if dHTTPStatus ?x > 0 then dHTTPStatus ?x else 0)\<rparr>"
  have "0 \<le> drDuration result sdiv 1000000"
    using assms(2) by (simp add: signed_divide_int_def sgn_if)
  moreover have "\<not> (\<exists>y \<in> set (webhook_deliveries (pool st)). dID y = nextDeliveryID (te 0))"
    using assms(1) by (force simp: quiet_targets_def)
  ultimately have "insert_delivery ?y (pool st) = Inr ((), (pool st)\<lparr>webhook_deliveries := webhook_deliveries (pool st) @ [?y]\<rparr>)"
    using assms(3,4) by (auto simp: insert_delivery_def delivery_of_def split: option.splits)
  moreover have "fault_free (teEnv (te 0))" using assms(1) by (simp add: quiet_targets_def)
  ultimately have "RecordWebhookDelivery (teEnv (te 0)) (pool st) ?x =
      (Inr (), (pool st)\<lparr>webhook_deliveries := webhook_deliveries (pool st) @ [?y]\<rparr>)"
    by (simp add: RecordWebhookDelivery_def autocommit_def)
  then show ?thesis
    by (intro exI [of _ ?y]) (auto simp: delivery_of_def split: option.splits)
qed

lemma deliver_all_settles:
  assumes "quiet_targets te (length targets) (pool st)" and "1 \<le> eAttempts event"
    and "\<exists>row \<in> set (outbox_events (pool st)). eID row = eID event"
  shows "\<exists>failures ds w'. deliver_all (outbox_repository_of sha) do event te targets (st, w) =
      (Inr failures, st\<lparr>pool := (pool st)\<lparr>webhook_deliveries := webhook_deliveries (pool st) @ ds\<rparr>\<rparr>, w') \<and>
    map dSubscriptionID ds = map sID targets \<and> (\<forall>x \<in> set ds. dEventID x = eID event) \<and>
    (failures = [] \<longleftrightarrow> (\<forall>x \<in> set ds. dStatus x = WebhookDeliverySucceeded))"
  using assms
proof (induction targets arbitrary: te st w)
  case Nil
  then show ?case by (intro exI [of _ "[]"]) simp
next
  case (Cons target targets)
  obtain result w1 where send: "sendWebhook (te 0) do w event target = (result, w1)" by (rule prod.exhaust)
  have q: "teOthers (te 0) = (\<lambda>st. st)" "0 \<le> teDuration (te 0)" using Cons.prems(1) by (simp_all add: quiet_targets_def)
  obtain x where x: "RecordWebhookDelivery (teEnv (te 0)) (pool st) (delivery_of (te 0) event target result) =
      (Inr (), (pool st)\<lparr>webhook_deliveries := webhook_deliveries (pool st) @ [x]\<rparr>)" "dID x = nextDeliveryID (te 0)"
      "dSubscriptionID x = sID target" "dEventID x = eID event" "dStatus x = WebhookDeliverySucceeded \<longleftrightarrow> drErr result = None"
    using record_ok_store [of te "length targets" st result event target] Cons.prems sendWebhook_duration [OF q(2) send] by auto
  let ?st = "st\<lparr>pool := (pool st)\<lparr>webhook_deliveries := webhook_deliveries (pool st) @ [x]\<rparr>\<rparr>"
  have "quiet_targets (\<lambda>k. te (Suc k)) (length targets) (pool ?st)"
    using quiet_targets_Suc [of te "length targets" "pool st" "pool ?st" x] Cons.prems(1) x(2) by simp
  with Cons.IH [of "\<lambda>k. te (Suc k)" ?st w1] Cons.prems(2,3)
  obtain failures ds w' where rest: "deliver_all (outbox_repository_of sha) do event (\<lambda>k. te (Suc k)) targets (?st, w1) =
      (Inr failures, ?st\<lparr>pool := (pool ?st)\<lparr>webhook_deliveries := webhook_deliveries (pool ?st) @ ds\<rparr>\<rparr>, w')"
    and ds: "map dSubscriptionID ds = map sID targets" "\<forall>y \<in> set ds. dEventID y = eID event"
      "failures = [] \<longleftrightarrow> (\<forall>y \<in> set ds. dStatus y = WebhookDeliverySucceeded)"
    by auto
  have rec: "orRecord (outbox_repository_of sha) (teEnv (te 0)) (teOthers (te 0) st) (delivery_of (te 0) event target result) = (Inr (), ?st)"
    using x(1) q(1) by (simp add: outbox_repository_of_def on_pool_def)
  show ?case
    using send rec rest ds x(3-5)
    by (intro exI [of _ "(case drErr result of Some err \<Rightarrow> [failure_text target err] | None \<Rightarrow> []) @ failures"]
        exI [of _ "x # ds"] exI [of _ w']) (auto split: option.splits)
qed

text \<open>The clause the event's row is updated with.\<close>

definition settle_set :: "OutboxOptions \<Rightarrow> go_time \<Rightarrow> OutboxEvent \<Rightarrow> bool \<Rightarrow> string \<Rightarrow> OutboxEvent \<Rightarrow> OutboxEvent" where
  "settle_set opts now event ok msg =
     (if ok then delivered_set now
      else if eAttempts event \<ge> ooMaxAttempts opts then dead_letter_set msg now
      else retry_set (time_add now (outbox_backoff (eAttempts event) (ooInitialBackoff opts) (ooMaxBackoff opts))) msg now)"

lemma update_event_ok:
  assumes "fault_free e" and "\<exists>row \<in> set (outbox_events d). eID row = i"
  shows "update_event e l i f d = (Inr (), d\<lparr>outbox_events := update_where (\<lambda>x. eID x = i) f (outbox_events d)\<rparr>)"
  using assms by (auto simp: update_event_def autocommit_def count_where_def filter_empty_conv)

lemma finish_ok:
  assumes "fault_free (oeFinish oe)" and "\<exists>row \<in> set (outbox_events (pool st)). eID row = eID event"
  shows "error_of (orMarkDelivered (outbox_repository_of sha) (oeFinish oe) st (eID event) (oeNow oe)) =
      (None, st\<lparr>pool := (pool st)\<lparr>outbox_events := update_where (\<lambda>x. eID x = eID event) (settle_set opts (oeNow oe) event True msg)
        (outbox_events (pool st))\<rparr>\<rparr>)"
    and "failEvent opts (outbox_repository_of sha) oe event msg st =
      (None, st\<lparr>pool := (pool st)\<lparr>outbox_events := update_where (\<lambda>x. eID x = eID event) (settle_set opts (oeNow oe) event False msg)
        (outbox_events (pool st))\<rparr>\<rparr>)"
  using assms
  by (simp_all add: failEvent_def settle_set_def error_of_def outbox_repository_of_def on_pool_def
      MarkOutboxEventDelivered_def MarkOutboxEventDeadLetter_def ScheduleOutboxEventRetry_def update_event_ok)

lemma processEvent_settles:
  assumes list: "ListSubscriptions sha (oeSubscriptions oe) st (eUserID event) = (Inr subs, st1)"
    and row: "\<exists>row \<in> set (outbox_events (pool st1)). eID row = eID event" and attempts: "1 \<le> eAttempts event"
    and quiet: "oeOthers oe = (\<lambda>st. st)" "fault_free (oeDelivered oe)" "fault_free (oeFinish oe)"
    and targets: "quiet_targets (oeTargets oe) (length subs) (pool st1)"
    and pend: "pend = pending_targets {s. (eID event, s) \<in> acked_in st1} subs"
  shows "\<exists>ds msg st' w'. processEvent opts (outbox_repository_of sha) do oe event (st, w) = (None, st', w') \<and>
    map dSubscriptionID ds = map sID pend \<and> (\<forall>x \<in> set ds. dEventID x = eID event) \<and>
    webhook_deliveries (pool st') = webhook_deliveries (pool st1) @ ds \<and>
    outbox_events (pool st') = update_where (\<lambda>x. eID x = eID event)
      (settle_set opts (oeNow oe) event (\<forall>x \<in> set ds. dStatus x = WebhookDeliverySucceeded) msg) (outbox_events (pool st1))"
proof -
  have l: "orListSubscriptions (outbox_repository_of sha) (oeSubscriptions oe) st (eUserID event) = (Inr subs, st1)"
    using list by (simp add: outbox_repository_of_def)
  have del: "orListDelivered (outbox_repository_of sha) (oeDelivered oe) st1 (eID event) = Inr {s. (eID event, s) \<in> acked_in st1}"
    using quiet(2) by (auto simp: outbox_repository_of_def ListDeliveredSubscriptionIDs_def acked_in_def intro!: exI)
  have "length pend \<le> length subs" by (simp add: pend pending_targets_def)
  then have te: "quiet_targets (oeTargets oe) (length pend) (pool st1)" by (rule quiet_targets_less [OF targets])
  from deliver_all_settles [OF te attempts row, of sha do w] obtain failures ds w' where
      all: "deliver_all (outbox_repository_of sha) do event (oeTargets oe) pend (st1, w) =
        (Inr failures, st1\<lparr>pool := (pool st1)\<lparr>webhook_deliveries := webhook_deliveries (pool st1) @ ds\<rparr>\<rparr>, w')"
    and ds: "map dSubscriptionID ds = map sID pend" "\<forall>x \<in> set ds. dEventID x = eID event"
      "failures = [] \<longleftrightarrow> (\<forall>x \<in> set ds. dStatus x = WebhookDeliverySucceeded)" by auto
  let ?st = "st1\<lparr>pool := (pool st1)\<lparr>webhook_deliveries := webhook_deliveries (pool st1) @ ds\<rparr>\<rparr>"
  note fin = finish_ok [OF quiet(3), of ?st event] and fin1 = finish_ok [OF quiet(3) row]
  show ?thesis
  proof (cases "pend = []")
    case True
    then show ?thesis
      using l del fin1(1) [of sha opts "''''"] pend
      by (intro exI [of _ "[]"] exI [of _ "''''"]) (simp add: processEvent_def)
  next
    case False
    have run: "processEvent opts (outbox_repository_of sha) do oe event (st, w) =
      (let r = (if failures = [] then error_of (orMarkDelivered (outbox_repository_of sha) (oeFinish oe) ?st (eID event) (oeNow oe))
        else failEvent opts (outbox_repository_of sha) oe event (join ''; '' failures) ?st) in (fst r, snd r, w'))"
      using l del all quiet(1) False pend by (simp add: processEvent_def Let_def)
    have ok: "(\<forall>x \<in> set ds. dStatus x = WebhookDeliverySucceeded) = (failures = [])" using ds(3) by simp
    have r: "(if failures = [] then error_of (orMarkDelivered (outbox_repository_of sha) (oeFinish oe) ?st (eID event) (oeNow oe))
        else failEvent opts (outbox_repository_of sha) oe event (join ''; '' failures) ?st) =
      (None, ?st\<lparr>pool := (pool ?st)\<lparr>outbox_events := update_where (\<lambda>x. eID x = eID event)
        (settle_set opts (oeNow oe) event (failures = []) (join ''; '' failures)) (outbox_events (pool ?st))\<rparr>\<rparr>)"
      using fin(1) [of sha opts "join ''; '' failures"] fin(2) [of opts sha "join ''; '' failures"] row by simp
    show ?thesis
      unfolding run r using ds(1,2) ok
      by (intro exI [of _ ds] exI [of _ "join ''; '' failures"]) (simp add: Let_def)
  qed
qed

lemma processEvent_sent:
  assumes log: "\<And>w r. snd (do w r) = w @ [r]" and run: "processEvent opts (outbox_repository_of sha) do oe event s = (err, s')"
    and list: "ListSubscriptions sha (oeSubscriptions oe) (fst s) (eUserID event) = (Inr subs, st1)"
  shows "\<exists>ts. snd s' = snd s @ map (webhook_request_of event) ts \<and> subseq ts (pending_targets {i. (eID event, i) \<in> acked_in st1} subs)"
proof -
  have l: "orListSubscriptions (outbox_repository_of sha) (oeSubscriptions oe) (fst s) (eUserID event) = (Inr subs, st1)"
    using list by (simp add: outbox_repository_of_def)
  have del: "delivered = {i. (eID event, i) \<in> acked_in st1}"
    if "orListDelivered (outbox_repository_of sha) (oeDelivered oe) st1 (eID event) = Inr delivered" for delivered
    using outbox_store.acked_exact [OF that] by auto
  have all: "\<exists>ts. snd s2 = snd s @ map (webhook_request_of event) ts \<and> subseq ts (pending_targets delivered subs)"
    if "deliver_all (outbox_repository_of sha) do event (oeTargets oe) (pending_targets delivered subs) (st1, snd s) = (r, s2)" for delivered r s2
    using deliver_all_sent [OF log that] by simp
  from run show ?thesis
  proof (cases rule: outbox_store.processEvent_cases [where M = 0])
    case (failed d1 msg)
    then show ?thesis by (intro exI [of _ "[]"]) simp
  next
    case (none subs' d1 delivered)
    then show ?thesis by (intro exI [of _ "[]"]) simp
  next
    case (stopped subs' d1 delivered err')
    with l del all show ?thesis by auto
  next
    case (sent subs' d1 delivered s2)
    with l del all show ?thesis by auto
  next
    case (failures subs' d1 delivered fs s2)
    with l del all show ?thesis by auto
  qed
qed

end
