(* ===== verification/ScenarioOutbox.thy ===== *)
theory ScenarioOutbox
  imports Scenario OutboxEngine
begin

text \<open>
  A delivery evaluated: the creation event of the payment of \<open>Scenario\<close>, locked for its first attempt, and
  one active webhook of \<open>alice\<close>, which answers with status 200.
\<close>

definition demo_sub :: WebhookSubscription where
  "demo_sub = \<lparr>sID = ''s1'', sURL = ''http://hook'', sActive = True, sCreateAt = 1, sUpdatedAt = 1\<rparr>"

definition demo_event :: OutboxEvent where
  "demo_event = outbox_lock_set 70 100 (payment_event (calm 0 1 ''a'') ''alice'' EventPaymentCreated ''p1'' (created_payload demo_payment) 0)"

definition demo_hook_store :: Store where
  "demo_hook_store =
     \<lparr>pool = demo_db1\<lparr>webhooks_tables := [wt \<mapsto> [demo_sub]], outbox_events := [demo_event]\<rparr>, ensuredUsers = {''alice''}\<rparr>"

definition demo_hooks :: "webhook_request list webhooks" where
  "demo_hooks log r = (Inr 200, log @ [r])"

definition demo_target_env :: "Store target_env" where
  "demo_target_env =
     \<lparr>teMarshal = None, teNewRequest = (\<lambda>_. None), teDuration = 3000000, teNano = 71, teSeq = 1, teNow = 71,
      teOthers = (\<lambda>st. st), teEnv = calm 71 12 ''a''\<rparr>"

definition demo_event_env :: "Store event_env" where
  "demo_event_env =
     \<lparr>oeSubscriptions = calm 70 11 ''a'', oeDelivered = calm 70 11 ''a'', oeTargets = (\<lambda>n. demo_target_env\<lparr>teSeq := of_nat n\<rparr>),
      oeOthers = (\<lambda>st. st), oeNow = 72, oeFinish = calm 72 13 ''a''\<rparr>"

definition demo_outbox_opts :: OutboxOptions where
  "demo_outbox_opts = normalizeOptions
     \<lparr>ooBatchSize = 0, ooPollInterval = 0, ooLockFor = 0, ooHTTPTimeout = 0, ooMaxAttempts = 0, ooInitialBackoff = 0, ooMaxBackoff = 0\<rparr>"

lemma demo_event_fields:
  "eID demo_event = ''evt_0_1''" "eUserID demo_event = ''alice''" "eAttempts demo_event = 1"
  by (simp_all add: demo_event_def outbox_lock_set_def payment_event_def)

lemma demo_list_subscriptions:
  "ListSubscriptions demo_sha (oeSubscriptions demo_event_env) demo_hook_store (eUserID demo_event) = (Inr [demo_sub], demo_hook_store)"
  by (simp add: ListSubscriptions_def ensureUserSchema_def demo_event_fields demo_hook_store_def demo_event_env_def
      quoteIdentifier_def identifier_char_def less_eq_char_def Let_def)

lemma demo_acked: "acked_in demo_hook_store = {}"
  by (simp add: acked_in_def demo_hook_store_def demo_db1_def empty_db_def)

lemma demo_pending: "pending_targets {i. (eID demo_event, i) \<in> acked_in demo_hook_store} [demo_sub] = [demo_sub]"
  by (simp add: pending_targets_def demo_acked demo_sub_def)

lemma demo_row: "\<exists>row \<in> set (outbox_events (pool demo_hook_store)). eID row = eID demo_event"
  by (simp add: demo_hook_store_def)

lemma demo_quiet: "quiet_targets (oeTargets demo_event_env) (length [demo_sub]) (pool demo_hook_store)"
  by (auto simp: quiet_targets_def demo_event_env_def demo_target_env_def demo_hook_store_def demo_db1_def empty_db_def inj_on_def)

lemma demo_event_env_simps [simp]:
  "oeOthers demo_event_env = (\<lambda>st. st)" "oeDelivered demo_event_env = calm 70 11 ''a''"
  "oeFinish demo_event_env = calm 72 13 ''a''" "oeNow demo_event_env = 72"
  by (simp_all add: demo_event_env_def)

lemma demo_others: "event_others_allowed (simulated_store sha M) demo_event_env"
  by (simp add: event_others_allowed_def demo_event_env_def demo_target_env_def)

lemma demo_delivered:
  "\<exists>st' w' row. processEvent demo_outbox_opts (outbox_repository_of demo_sha) demo_hooks demo_event_env demo_event (demo_hook_store, []) =
      (None, st', w') \<and> row \<in> set (outbox_events (pool st')) \<and> eID row = eID demo_event \<and> eStatus row = OutboxDelivered"
proof -
  let ?te = "oeTargets demo_event_env 0"
  have te: "teMarshal ?te = None" "teNewRequest ?te = (\<lambda>_. None)" "teOthers ?te = (\<lambda>st. st)" "teEnv ?te = calm 71 12 ''a''"
    "teDuration ?te = 3000000"
    by (simp_all add: demo_event_env_def demo_target_env_def)
  have send: "sendWebhook ?te demo_hooks [] demo_event demo_sub =
      (\<lparr>drHTTPStatus = 200, drDuration = 3000000, drErr = None\<rparr>, [webhook_request_of demo_event demo_sub])"
    by (simp add: sendWebhook_def te demo_hooks_def)
  obtain x where x: "RecordWebhookDelivery (calm 71 12 ''a'') (pool demo_hook_store)
      (delivery_of ?te demo_event demo_sub \<lparr>drHTTPStatus = 200, drDuration = 3000000, drErr = None\<rparr>) =
      (Inr (), (pool demo_hook_store)\<lparr>webhook_deliveries := webhook_deliveries (pool demo_hook_store) @ [x]\<rparr>)"
    using record_ok_store [of "oeTargets demo_event_env" 0 demo_hook_store "\<lparr>drHTTPStatus = 200, drDuration = 3000000, drErr = None\<rparr>"
        demo_event demo_sub] demo_quiet demo_row by (auto simp: te demo_event_fields)
  let ?st = "demo_hook_store\<lparr>pool := (pool demo_hook_store)\<lparr>webhook_deliveries := webhook_deliveries (pool demo_hook_store) @ [x]\<rparr>\<rparr>"
  have all: "deliver_all (outbox_repository_of demo_sha) demo_hooks demo_event (oeTargets demo_event_env) [demo_sub] (demo_hook_store, []) =
      (Inr [], ?st, [webhook_request_of demo_event demo_sub])"
    using send x te by (simp add: outbox_repository_of_def on_pool_def)
  have del: "orListDelivered (outbox_repository_of demo_sha) (calm 70 11 ''a'') demo_hook_store (eID demo_event) = Inr {}"
    by (simp add: outbox_repository_of_def ListDeliveredSubscriptionIDs_def demo_hook_store_def demo_db1_def empty_db_def)
  have list: "orListSubscriptions (outbox_repository_of demo_sha) (oeSubscriptions demo_event_env) demo_hook_store (eUserID demo_event) =
      (Inr [demo_sub], demo_hook_store)"
    using demo_list_subscriptions by (simp add: outbox_repository_of_def)
  have pend: "pending_targets {} [demo_sub] = [demo_sub]" by (simp add: pending_targets_def demo_sub_def)
  have fin: "error_of (orMarkDelivered (outbox_repository_of demo_sha) (calm 72 13 ''a'') ?st (eID demo_event) 72) =
      (None, ?st\<lparr>pool := (pool ?st)\<lparr>outbox_events := [delivered_set 72 demo_event]\<rparr>\<rparr>)"
    using finish_ok(1) [of demo_event_env ?st demo_event demo_sha demo_outbox_opts "''''"] demo_row
    by (simp add: settle_set_def) (simp add: demo_hook_store_def update_where_def)
  show ?thesis
    using list del pend all fin
    by (simp add: processEvent_def) (simp add: delivered_set_def)
qed

end
