(* ===== verification/Services.thy ===== *)
theory Services
  imports PaymentStore RefundStore
begin

text \<open>
  The services between the HTTP API and the store: \<open>internal/service/payment_service.go\<close>,
  \<open>webhook_service.go\<close>, \<open>id.go\<close> and \<open>internal/refunds/service.go\<close>. They validate and normalise requests,
  choose identifiers and request hashes, and call a repository; the repository interfaces are records over a
  repository state \<open>'d\<close>, and the store is their instance.

  The environment \<open>v\<close> holds what a service reads itself (clock, counter, random bytes), \<open>e\<close> is the one of the
  repository call. SHA-256 is the argument \<open>sha\<close>, the Unicode tables of \<open>strings.ToUpper\<close> the argument \<open>uni\<close>,
  \<open>url.Parse\<close> with the text of the parsed URL the argument \<open>parse\<close>, and \<open>json.Marshal\<close> of a refund request the
  argument \<open>json\<close>.
\<close>

section \<open>Identifiers\<close>

definition nextID :: "env \<Rightarrow> string \<Rightarrow> string" where
  "nextID v prefix = prefix @ ''_'' @ dec (env_nano v) @ ''_'' @ dec (uint (env_seq v))"

definition generatePaymentID :: "env \<Rightarrow> string" where "generatePaymentID v = nextID v ''pay''"
definition generateSubscriptionID :: "env \<Rightarrow> string" where "generateSubscriptionID v = nextID v ''sub''"
definition generateEventID :: "env \<Rightarrow> string" where "generateEventID v = nextID v ''evt''"

section \<open>Payments\<close>

record 'd PaymentRepository =
  pyCreatePayment :: "env \<Rightarrow> 'd \<Rightarrow> string \<Rightarrow> Payment \<Rightarrow> string \<Rightarrow> (go_error + Payment \<times> bool) \<times> 'd"
  pyGetPayment :: "env \<Rightarrow> 'd \<Rightarrow> string \<Rightarrow> string \<Rightarrow> (go_error + Payment) \<times> 'd"
  pyListPayments :: "env \<Rightarrow> 'd \<Rightarrow> string \<Rightarrow> PaymentListFilter \<Rightarrow> (go_error + Payment list \<times> int) \<times> 'd"
  pyCancelPayment :: "env \<Rightarrow> 'd \<Rightarrow> string \<Rightarrow> string \<Rightarrow> go_time \<Rightarrow> (go_error + unit) \<times> 'd"

definition payment_store :: "(string \<Rightarrow> string) \<Rightarrow> Store PaymentRepository" where
  "payment_store sha =
     \<lparr>pyCreatePayment = CreatePayment sha, pyGetPayment = GetPayment sha, pyListPayments = ListPayments sha,
      pyCancelPayment = CancelPayment sha\<rparr>"

record CreatePaymentInput =
  cpUserID :: string
  cpAmount :: int
  cpCurrency :: string
  cpIdempotencyKey :: string

definition normalizeCurrency :: "(string \<Rightarrow> string) \<Rightarrow> string \<Rightarrow> string" where
  "normalizeCurrency uni currency = ToUpper uni (TrimSpace currency)"

definition normalizePaymentStatus :: "(string \<Rightarrow> string) \<Rightarrow> string \<Rightarrow> string" where
  "normalizePaymentStatus uni status = ToUpper uni (TrimSpace status)"

definition isValidCurrency :: "string \<Rightarrow> bool" where
  "isValidCurrency currency \<longleftrightarrow>
     length currency = 3 \<and> list_all (\<lambda>c. 65 \<le> (of_char c :: nat) \<and> (of_char c :: nat) \<le> 90) currency"

definition IsValidPaymentStatus :: "string \<Rightarrow> bool" where
  "IsValidPaymentStatus status \<longleftrightarrow>
     status \<in> {PaymentCancelled, PaymentFailed, PaymentPending, PaymentProcessing, PaymentSucceeded}"

definition payment_request_text :: "int \<Rightarrow> string \<Rightarrow> string" where
  "payment_request_text amount currency = ''amount='' @ dec amount @ '';currency='' @ currency"

definition hashCreatePaymentRequest :: "(string \<Rightarrow> string) \<Rightarrow> int \<Rightarrow> string \<Rightarrow> string" where
  "hashCreatePaymentRequest sha amount currency = hex_encode (sha (payment_request_text amount currency))"

definition new_payment :: "env \<Rightarrow> CreatePaymentInput \<Rightarrow> string \<Rightarrow> Payment" where
  "new_payment v input currency =
     \<lparr>pID = generatePaymentID v, pAmount = cpAmount input, pCurrency = currency, pStatus = PaymentPending,
      pIdempotencyKey = TrimSpace (cpIdempotencyKey input), pCreatedAt = env_now v, pUpdatedAt = env_now v\<rparr>"

definition svc_CreatePayment ::
  "(string \<Rightarrow> string) \<Rightarrow> (string \<Rightarrow> string) \<Rightarrow> 'd PaymentRepository \<Rightarrow> env \<Rightarrow> env \<Rightarrow> 'd \<Rightarrow> CreatePaymentInput \<Rightarrow>
   (go_error + Payment \<times> bool) \<times> 'd" where
  "svc_CreatePayment sha uni repo v e d input =
     (if TrimSpace (cpUserID input) = '''' then (Inl ErrUserIDRequired, d)
      else if cpAmount input \<le> 0 then (Inl ErrInvalidAmount, d)
      else
        let currency = normalizeCurrency uni (cpCurrency input) in
        if \<not> isValidCurrency currency then (Inl ErrInvalidCurrency, d)
        else pyCreatePayment repo e d (cpUserID input) (new_payment v input currency)
          (hashCreatePaymentRequest sha (cpAmount input) currency))"

definition svc_GetPayment ::
  "'d PaymentRepository \<Rightarrow> env \<Rightarrow> 'd \<Rightarrow> string \<Rightarrow> string \<Rightarrow> (go_error + Payment) \<times> 'd" where
  "svc_GetPayment repo e d userID i =
     (if TrimSpace userID = '''' then (Inl ErrUserIDRequired, d) else pyGetPayment repo e d userID i)"

definition svc_ListPayments ::
  "(string \<Rightarrow> string) \<Rightarrow> 'd PaymentRepository \<Rightarrow> env \<Rightarrow> 'd \<Rightarrow> string \<Rightarrow> string \<Rightarrow> int \<Rightarrow> int \<Rightarrow>
   (go_error + Payment list \<times> int) \<times> 'd" where
  "svc_ListPayments uni repo e d userID status page sz =
     (if TrimSpace userID = '''' then (Inl ErrUserIDRequired, d)
      else if page < 1 \<or> sz < 1 then (Inl ErrInvalidPagination, d)
      else
        let status' = normalizePaymentStatus uni status in
        if status' \<noteq> '''' \<and> \<not> IsValidPaymentStatus status' then (Inl ErrInvalidStatusFilter, d)
        else pyListPayments repo e d userID \<lparr>plStatus = status', plPage = page, plSize = sz\<rparr>)"

definition svc_CancelPayment ::
  "'d PaymentRepository \<Rightarrow> env \<Rightarrow> env \<Rightarrow> 'd \<Rightarrow> string \<Rightarrow> string \<Rightarrow> (go_error + unit) \<times> 'd" where
  "svc_CancelPayment repo v e d userID i =
     (if TrimSpace userID = '''' then (Inl ErrUserIDRequired, d) else pyCancelPayment repo e d userID i (env_now v))"

section \<open>Webhook subscriptions\<close>

record 'd WebhookRepository =
  whrCreate :: "env \<Rightarrow> 'd \<Rightarrow> string \<Rightarrow> WebhookSubscription \<Rightarrow> (go_error + WebhookSubscription) \<times> 'd"
  whrList :: "env \<Rightarrow> 'd \<Rightarrow> string \<Rightarrow> (go_error + WebhookSubscription list) \<times> 'd"
  whrGet :: "env \<Rightarrow> 'd \<Rightarrow> string \<Rightarrow> string \<Rightarrow> (go_error + WebhookSubscription) \<times> 'd"
  whrSetActive :: "env \<Rightarrow> 'd \<Rightarrow> string \<Rightarrow> string \<Rightarrow> bool \<Rightarrow> go_time \<Rightarrow> (go_error + unit) \<times> 'd"

definition webhook_store :: "(string \<Rightarrow> string) \<Rightarrow> Store WebhookRepository" where
  "webhook_store sha =
     \<lparr>whrCreate = CreateSubscription sha, whrList = ListSubscriptions sha, whrGet = GetSubscription sha,
      whrSetActive = SetSubscriptionActive sha\<rparr>"

record CreateWebhookSubscriptionInput =
  cwUserID :: string
  cwURL :: string
  cwActive :: bool

record webhook_url =
  wuScheme :: string
  wuHost :: string
  wuString :: string

definition normalizeWebhookURL :: "(string \<Rightarrow> webhook_url option) \<Rightarrow> string \<Rightarrow> go_error + string" where
  "normalizeWebhookURL parse rawURL =
     (case parse (TrimSpace rawURL) of
        None \<Rightarrow> Inl ErrInvalidWebhookURL
      | Some u \<Rightarrow>
        if wuScheme u \<noteq> ''http'' \<and> wuScheme u \<noteq> ''https'' then Inl ErrInvalidWebhookURL
        else if wuHost u = '''' then Inl ErrInvalidWebhookURL
        else Inr (wuString u))"

definition svc_CreateSubscription ::
  "(string \<Rightarrow> webhook_url option) \<Rightarrow> 'd WebhookRepository \<Rightarrow> env \<Rightarrow> env \<Rightarrow> 'd \<Rightarrow> CreateWebhookSubscriptionInput \<Rightarrow>
   (go_error + WebhookSubscription) \<times> 'd" where
  "svc_CreateSubscription parse repo v e d input =
     (if TrimSpace (cwUserID input) = '''' then (Inl ErrUserIDRequired, d)
      else
        case normalizeWebhookURL parse (cwURL input) of
          Inl err \<Rightarrow> (Inl err, d)
        | Inr url \<Rightarrow>
          whrCreate repo e d (cwUserID input)
            \<lparr>sID = generateSubscriptionID v, sURL = url, sActive = cwActive input, sCreateAt = env_now v, sUpdatedAt = env_now v\<rparr>)"

definition svc_ListSubscriptions ::
  "'d WebhookRepository \<Rightarrow> env \<Rightarrow> 'd \<Rightarrow> string \<Rightarrow> (go_error + WebhookSubscription list) \<times> 'd" where
  "svc_ListSubscriptions repo e d userID =
     (if TrimSpace userID = '''' then (Inl ErrUserIDRequired, d) else whrList repo e d userID)"

definition svc_GetSubscription ::
  "'d WebhookRepository \<Rightarrow> env \<Rightarrow> 'd \<Rightarrow> string \<Rightarrow> string \<Rightarrow> (go_error + WebhookSubscription) \<times> 'd" where
  "svc_GetSubscription repo e d userID i =
     (if TrimSpace userID = '''' then (Inl ErrUserIDRequired, d) else whrGet repo e d userID i)"

definition svc_SetSubscriptionActive ::
  "'d WebhookRepository \<Rightarrow> env \<Rightarrow> env \<Rightarrow> 'd \<Rightarrow> string \<Rightarrow> string \<Rightarrow> bool \<Rightarrow> (go_error + unit) \<times> 'd" where
  "svc_SetSubscriptionActive repo v e d userID i active =
     (if TrimSpace userID = '''' then (Inl ErrUserIDRequired, d)
      else whrSetActive repo e d userID i active (env_now v))"

section \<open>Refunds\<close>

record 'd RefundRepository =
  rrCreateRefund :: "env \<Rightarrow> 'd \<Rightarrow> Refund \<Rightarrow> (go_error + Refund \<times> bool) \<times> 'd"
  rrGetRefund :: "env \<Rightarrow> 'd \<Rightarrow> string \<Rightarrow> string \<Rightarrow> go_error + Refund"
  rrListRefunds :: "env \<Rightarrow> 'd \<Rightarrow> string \<Rightarrow> ListFilter \<Rightarrow> go_error + Refund list"
  rrListReconciliations :: "env \<Rightarrow> 'd \<Rightarrow> string \<Rightarrow> string \<Rightarrow> int \<Rightarrow> int \<Rightarrow> go_error + ReconciliationResult list"
  rrRequestRefundRecheck :: "env \<Rightarrow> 'd \<Rightarrow> string \<Rightarrow> string \<Rightarrow> go_time \<Rightarrow> (go_error + Refund) \<times> 'd"

definition refund_repository_of :: "(string \<Rightarrow> string) \<Rightarrow> Store RefundRepository" where
  "refund_repository_of sha =
     \<lparr>rrCreateRefund = CreateRefund sha, rrGetRefund = (\<lambda>e st. GetRefund e (pool st)),
      rrListRefunds = (\<lambda>e st. ListRefunds e (pool st)),
      rrListReconciliations = (\<lambda>e st. ListReconciliations e (pool st)),
      rrRequestRefundRecheck = (\<lambda>e st user i now. on_pool st (RequestRefundRecheck e (pool st) user i now))\<rparr>"

definition new_refund :: "env \<Rightarrow> string \<Rightarrow> string \<Rightarrow> string \<Rightarrow> int \<Rightarrow> string \<Rightarrow> string \<Rightarrow> Refund" where
  "new_refund v i user payment amount key hash =
     \<lparr>rID = i, rUserID = user, rPaymentID = payment, rAmount = amount, rCurrency = '''', rStatus = RefundPending,
      rIdempotencyKey = key, rRequestHash = hash, rAttempts = 0, rCheckFailures = 0, rRetryable = False,
      rManualReview = False, rLastError = '''', rNextActionAt = env_now v, rProcessingStartedAt = None,
      rLeaseToken = '''', rLeaseUntil = None, rVersion = 0, rCreatedAt = env_now v, rUpdatedAt = env_now v\<rparr>"

definition refund_request_hash :: "(string \<Rightarrow> string) \<Rightarrow> (string \<Rightarrow> int \<Rightarrow> string) \<Rightarrow> string \<Rightarrow> int \<Rightarrow> string" where
  "refund_request_hash sha json payment amount = hex_encode (sha (json payment amount))"

definition svc_Create ::
  "(string \<Rightarrow> string) \<Rightarrow> (string \<Rightarrow> int \<Rightarrow> string) \<Rightarrow> 'd RefundRepository \<Rightarrow> env \<Rightarrow> env \<Rightarrow> 'd \<Rightarrow> string \<Rightarrow> string \<Rightarrow> int \<Rightarrow> string \<Rightarrow>
   (go_error + Refund \<times> bool) \<times> 'd" where
  "svc_Create sha json repo v e d user payment amount key0 =
     (if TrimSpace user = '''' then (Inl ErrUserIDRequired, d)
      else if amount \<le> 0 then (Inl ErrInvalidAmount, d)
      else
        let key = TrimSpace key0 in
        if key = '''' \<or> length key > 128 then (Inl ErrIdempotencyKeyRequired, d)
        else if payment = '''' \<or> length payment > 128 then (Inl ErrPaymentNotFound, d)
        else
          case NewID v ''refund'' of
            Inl err \<Rightarrow> (Inl err, d)
          | Inr i \<Rightarrow>
            rrCreateRefund repo e d
              (new_refund v i user payment amount key (refund_request_hash sha json payment amount)))"

definition svc_Get :: "'d RefundRepository \<Rightarrow> env \<Rightarrow> 'd \<Rightarrow> string \<Rightarrow> string \<Rightarrow> go_error + Refund" where
  "svc_Get repo e d user i = rrGetRefund repo e d user i"

definition svc_List :: "'d RefundRepository \<Rightarrow> env \<Rightarrow> 'd \<Rightarrow> string \<Rightarrow> ListFilter \<Rightarrow> go_error + Refund list" where
  "svc_List repo e d user f =
     (if lfLimit f < 1 \<or> lfLimit f > 100 \<or> lfOffset f < 0 then Inl ErrInvalidPagination
      else if lfStatus f \<noteq> '''' \<and> \<not> IsRefundStatus (lfStatus f) then Inl ErrInvalidStatusFilter
      else rrListRefunds repo e d user f)"

definition svc_Reconciliations ::
  "'d RefundRepository \<Rightarrow> env \<Rightarrow> 'd \<Rightarrow> string \<Rightarrow> string \<Rightarrow> int \<Rightarrow> int \<Rightarrow> go_error + ReconciliationResult list" where
  "svc_Reconciliations repo e d user i limit offset =
     (if limit < 1 \<or> limit > 100 \<or> offset < 0 then Inl ErrInvalidPagination
      else rrListReconciliations repo e d user i limit offset)"

definition svc_Recheck :: "'d RefundRepository \<Rightarrow> env \<Rightarrow> env \<Rightarrow> 'd \<Rightarrow> string \<Rightarrow> string \<Rightarrow> (go_error + Refund) \<times> 'd" where
  "svc_Recheck repo v e d user i = rrRequestRefundRecheck repo e d user i (env_now v)"

end
