(* ===== verification/ServiceLaws.thy ===== *)
theory ServiceLaws
  imports Services Idempotency
begin

text \<open>
  What the payment service adds to its repository. The locale \<open>payment_repository\<close> is the contract of
  \<open>PaymentRepository\<close>: which rows an operation may add or change and that answers come from the rows. Over
  every such repository the service keeps all payments well formed; the store satisfies the contract.

  The request hash is shown to determine the request, so that idempotency by hash is idempotency by content.
\<close>

section \<open>Well-formed payments\<close>

definition payment_wf :: "Payment \<Rightarrow> bool" where
  "payment_wf p \<longleftrightarrow>
     0 < pAmount p \<and> isValidCurrency (pCurrency p) \<and> (pStatus p = PaymentPending \<or> pStatus p = PaymentCancelled) \<and>
     TrimSpace (pIdempotencyKey p) = pIdempotencyKey p \<and> (\<exists>v. pID p = generatePaymentID v)"

lemma new_payment_wf:
  "0 < cpAmount input \<Longrightarrow> isValidCurrency currency \<Longrightarrow> payment_wf (new_payment v input currency)"
  by (auto simp: payment_wf_def new_payment_def)

lemma cancelled_wf: "payment_wf p \<Longrightarrow> payment_wf (cancelled_at t p)"
  by (simp add: payment_wf_def cancelled_at_def)

definition all_wf :: "Payment set \<Rightarrow> bool" where
  "all_wf ps \<longleftrightarrow> (\<forall>p \<in> ps. payment_wf p)"

lemma all_wf_subset: "all_wf ps \<Longrightarrow> qs \<subseteq> ps \<Longrightarrow> all_wf qs"
  by (auto simp: all_wf_def)

section \<open>The contract of the repository\<close>

locale payment_repository =
  fixes repo :: "'d PaymentRepository"
    and rows :: "'d \<Rightarrow> Payment set"
  assumes create_rows: "pyCreatePayment repo e d u p h = (r1, d') \<Longrightarrow> rows d' \<subseteq> insert p (rows d)"
    and create_result: "pyCreatePayment repo e d u p h = (Inr (q, b), d') \<Longrightarrow> q \<in> rows d'"
    and get_rows: "pyGetPayment repo e d u i = (r2, d') \<Longrightarrow> rows d' \<subseteq> rows d"
    and get_result: "pyGetPayment repo e d u i = (Inr q, d') \<Longrightarrow> q \<in> rows d'"
    and list_rows: "pyListPayments repo e d u f = (r3, d') \<Longrightarrow> rows d' \<subseteq> rows d"
    and list_result: "pyListPayments repo e d u f = (Inr (qs, n), d') \<Longrightarrow> set qs \<subseteq> rows d'"
    and cancel_rows: "pyCancelPayment repo e d u i t = (r4, d') \<Longrightarrow> rows d' \<subseteq> rows d \<union> cancelled_at t ` rows d"
begin

lemma svc_create_wf:
  assumes "svc_CreatePayment sha uni repo v e d input = (r, d')" and "all_wf (rows d)"
  shows "all_wf (rows d')" and "r = Inr (q, b) \<Longrightarrow> payment_wf q"
proof -
  have "d' = d \<and> (\<exists>err. r = Inl err) \<or>
    (\<exists>currency h. 0 < cpAmount input \<and> isValidCurrency currency \<and>
       pyCreatePayment repo e d (cpUserID input) (new_payment v input currency) h = (r, d'))"
    using assms(1) by (auto simp: svc_CreatePayment_def Let_def split: if_splits)
  then show wf: "all_wf (rows d')"
    using assms(2) create_rows new_payment_wf unfolding all_wf_def by fastforce
  assume "r = Inr (q, b)"
  then have "\<exists>currency h. pyCreatePayment repo e d (cpUserID input) (new_payment v input currency) h = (Inr (q, b), d')"
    using assms(1) by (auto simp: svc_CreatePayment_def Let_def split: if_splits)
  then show "payment_wf q" using wf create_result unfolding all_wf_def by blast
qed

lemma svc_get_wf:
  assumes "svc_GetPayment repo e d u i = (r, d')" and "all_wf (rows d)"
  shows "all_wf (rows d')" and "r = Inr q \<Longrightarrow> payment_wf q"
proof -
  have "rows d' \<subseteq> rows d" using assms(1) get_rows [of e d u i r d'] by (auto simp: svc_GetPayment_def split: if_splits)
  then show wf: "all_wf (rows d')" by (rule all_wf_subset [OF assms(2)])
  assume "r = Inr q"
  then have "pyGetPayment repo e d u i = (Inr q, d')" using assms(1) by (auto simp: svc_GetPayment_def split: if_splits)
  from get_result [OF this] wf show "payment_wf q" by (simp add: all_wf_def)
qed

lemma svc_list_wf:
  assumes "svc_ListPayments uni repo e d u status page sz = (r, d')" and "all_wf (rows d)"
  shows "all_wf (rows d')" and "r = Inr (qs, n) \<Longrightarrow> q \<in> set qs \<Longrightarrow> payment_wf q"
proof -
  have "rows d' = rows d \<or> (\<exists>f. pyListPayments repo e d u f = (r, d'))"
    using assms(1) by (auto simp: svc_ListPayments_def Let_def split: if_splits)
  then have "rows d' \<subseteq> rows d" using list_rows by blast
  then show wf: "all_wf (rows d')" by (rule all_wf_subset [OF assms(2)])
  assume "r = Inr (qs, n)" and q: "q \<in> set qs"
  then have "\<exists>f. pyListPayments repo e d u f = (Inr (qs, n), d')"
    using assms(1) by (auto simp: svc_ListPayments_def Let_def split: if_splits)
  then show "payment_wf q" using list_result wf q unfolding all_wf_def by blast
qed

lemma svc_cancel_wf:
  assumes "svc_CancelPayment repo v e d u i = (r, d')" and "all_wf (rows d)"
  shows "all_wf (rows d')"
proof -
  have "d' = d \<or> (\<exists>r. pyCancelPayment repo e d u i (env_now v) = (r, d'))"
    using assms(1) by (auto simp: svc_CancelPayment_def split: if_splits)
  then show ?thesis
    using assms(2) cancel_rows cancelled_wf unfolding all_wf_def by blast
qed

end

section \<open>The store keeps the contract\<close>

definition stored_payments :: "Store \<Rightarrow> Payment set" where
  "stored_payments st = {p. \<exists>tbl ps. payments_tables (pool st) tbl = Some ps \<and> p \<in> set ps}"

lemma ensureUserTablesTx_payments:
  assumes "ensureUserTablesTx e u t d = Inr d'" and "payments_tables d' tbl = Some ps" and "ps \<noteq> []"
  shows "payments_tables d tbl = Some ps"
  using assms
  by (auto simp: ensureUserTablesTx_def bindE_Inr insert_app_user_def Let_def create_table_def
      split: if_splits option.splits)

lemma ensureUserSchema_payments:
  assumes "ensureUserSchema sha e st u = (r, st')"
  shows "stored_payments st' \<subseteq> stored_payments st"
proof -
  have tx: "payments_tables d' tbl = Some ps \<Longrightarrow> ps \<noteq> [] \<Longrightarrow> payments_tables d tbl = Some ps"
    if "run_tx wrapf e lb lc d (\<lambda>d. bindE (ensureUserTablesTx e v t d) (\<lambda>d'. Inr ((), Some d'))) = (x, d')"
    for lb lc d v t x d' tbl ps
    using run_tx_atomic [OF that] ensureUserTablesTx_payments by (auto simp: bindE_Inr)
  have "payments_tables (pool st') tbl = Some ps \<Longrightarrow> ps \<noteq> [] \<Longrightarrow> payments_tables (pool st) tbl = Some ps" for tbl ps
    using assms tx by (auto simp: ensureUserSchema_def Let_def split: if_splits prod.splits sum.splits)
  then show ?thesis by (fastforce simp: stored_payments_def)
qed

lemma getPayment_stored: "getPayment e (pool st) tbl i = Inr q \<Longrightarrow> q \<in> stored_payments st"
  by (auto simp: getPayment_def bindE_Inr query_row_Inr stored_payments_def split: option.splits dest!: find_Some_set)

lemma create_payment_cases:
  assumes "CreatePayment sha e st u p h = (r, st')"
  obtains (refused) err where "r = Inl err" "stored_payments st' \<subseteq> stored_payments st"
    | (ran) s1 and tables :: userTables and d where "stored_payments s1 \<subseteq> stored_payments st" "st' = s1\<lparr>pool := d\<rparr>"
        "run_tx wrapf e ''begin create payment tx'' ''commit create payment tx'' (pool s1)
          (create_payment_tx e (utPayments tables) u p h) = (r, d)"
proof -
  obtain r1 s1 where en: "ensureUserSchema sha e st u = (r1, s1)" by (rule prod.exhaust)
  note sub = ensureUserSchema_payments [OF en]
  show thesis
  proof (cases r1)
    case (Inl err)
    with assms en sub show thesis by (intro refused) (auto simp: CreatePayment_def)
  next
    case (Inr tables)
    obtain r2 d where "run_tx wrapf e ''begin create payment tx'' ''commit create payment tx'' (pool s1)
        (create_payment_tx e (utPayments tables) u p h) = (r2, d)" by (rule prod.exhaust)
    with Inr assms en sub show thesis by (intro ran [of s1 d tables]) (auto simp: CreatePayment_def)
  qed
qed

lemma create_tx_rows:
  assumes "create_payment_tx e tbl u p h (pool st) = Inr (x, Some d)"
  shows "stored_payments (st\<lparr>pool := d\<rparr>) \<subseteq> insert p (stored_payments st)" and "p \<in> stored_payments (st\<lparr>pool := d\<rparr>)"
    and "x = (p, True)"
proof -
  show "stored_payments (st\<lparr>pool := d\<rparr>) \<subseteq> insert p (stored_payments st)"
    by (rule create_payment_tx_effect [OF assms]) (auto simp: stored_payments_def split: if_splits)
  show "p \<in> stored_payments (st\<lparr>pool := d\<rparr>)"
    by (rule create_payment_tx_effect [OF assms]) (auto simp: stored_payments_def intro!: exI [of _ tbl])
  show "x = (p, True)" by (rule create_payment_tx_effect [OF assms])
qed

lemma create_payment_rows:
  assumes "CreatePayment sha e st u p h = (r, st')"
  shows "stored_payments st' \<subseteq> insert p (stored_payments st)"
  using assms
proof (cases rule: create_payment_cases)
  case (ran s1 tables d)
  have "stored_payments (s1\<lparr>pool := d\<rparr>) \<subseteq> insert p (stored_payments s1)"
    using run_tx_atomic [OF ran(3)] create_tx_rows(1) [of e "utPayments tables" u p h s1 _ d] by fastforce
  with ran(1,2) show ?thesis by auto
qed auto

lemma create_payment_result:
  assumes "CreatePayment sha e st u p h = (Inr (q, b), st')"
  shows "q \<in> stored_payments st'"
  using assms
proof (cases rule: create_payment_cases)
  case (ran s1 tables d)
  then consider "create_payment_tx e (utPayments tables) u p h (pool s1) = Inr ((q, b), None)" "d = pool s1"
    | "create_payment_tx e (utPayments tables) u p h (pool s1) = Inr ((q, b), Some d)"
    by (auto simp: run_tx_Inr)
  then show ?thesis
  proof cases
    case 1
    then have "\<exists>i. getPayment e (pool s1) (utPayments tables) i = Inr q"
      by (auto simp: create_payment_tx_def create_payment_insert_def bindE_Inr split: if_splits option.splits)
    with 1 ran(2) getPayment_stored [of e s1] show ?thesis by auto
  next
    case 2
    with create_tx_rows [OF 2] ran(2) show ?thesis by simp
  qed
qed auto

lemma cancel_payment_rows:
  assumes "CancelPayment sha e st u i t = (r, st')"
  shows "stored_payments st' \<subseteq> stored_payments st \<union> cancelled_at t ` stored_payments st"
proof -
  obtain r1 s1 where en: "ensureUserSchema sha e st u = (r1, s1)" by (rule prod.exhaust)
  note sub = ensureUserSchema_payments [OF en]
  show ?thesis
  proof (cases r1)
    case (Inl err)
    with assms en sub show ?thesis by (auto simp: CancelPayment_def)
  next
    case (Inr tables)
    with assms en obtain d where tx: "run_tx wrapf e ''begin cancel payment tx'' ''commit cancel payment tx'' (pool s1)
        (cancel_payment_tx e (utPayments tables) u i t) = (r, d)" and st': "st' = s1\<lparr>pool := d\<rparr>"
      by (auto simp: CancelPayment_def split: prod.splits)
    have "stored_payments (s1\<lparr>pool := d\<rparr>) \<subseteq> stored_payments s1 \<union> cancelled_at t ` stored_payments s1"
      if "cancel_payment_tx e (utPayments tables) u i t (pool s1) = Inr (x, Some d)" for x
      by (rule cancel_payment_tx_effect [OF that])
        (auto simp: stored_payments_def set_update_where split: if_splits)
    then show ?thesis using run_tx_atomic [OF tx] sub st' by fastforce
  qed
qed

interpretation payment_db: payment_repository "payment_store sha" stored_payments for sha
proof (unfold_locales, goal_cases)
  case (1 e d u p h r1 d')
  then show ?case using create_payment_rows by (simp add: payment_store_def)
next
  case (2 e d u p h q b d')
  then show ?case using create_payment_result by (simp add: payment_store_def)
next
  case (3 e d u i r2 d')
  then show ?case
    using ensureUserSchema_payments by (auto simp: payment_store_def GetPayment_def split: prod.splits sum.splits)
next
  case (4 e d u i q d')
  then show ?case
    using getPayment_stored by (auto simp: payment_store_def GetPayment_def split: prod.splits sum.splits)
next
  case (5 e d u f r3 d')
  then show ?case
    using ensureUserSchema_payments by (auto simp: payment_store_def ListPayments_def split: prod.splits sum.splits)
next
  case (6 e d u f qs n d')
  then obtain tbl where "list_payments_rows e (pool d') tbl f = Inr (qs, n)"
    by (auto simp: payment_store_def ListPayments_def split: prod.splits sum.splits)
  then obtain ps where "payments_tables (pool d') tbl = Some ps" "set qs \<subseteq> set ps"
    by (fastforce simp: list_payments_rows_def list_payments_query_def bindE_Inr Let_def
        split: option.splits if_splits dest!: in_set_takeD in_set_dropD)
  then show ?case by (auto simp: stored_payments_def)
next
  case (7 e d u i t r4 d')
  then show ?case using cancel_payment_rows by (simp add: payment_store_def)
qed

section \<open>Sessions of the payment service\<close>

text \<open>Any sequence of calls of the service on a store that starts empty.\<close>

inductive payment_session :: "(string \<Rightarrow> string) \<Rightarrow> (string \<Rightarrow> string) \<Rightarrow> Store \<Rightarrow> bool" for sha uni where
  start: "payment_session sha uni \<lparr>pool = empty_db, ensuredUsers = {}\<rparr>"
| create: "payment_session sha uni st \<Longrightarrow> svc_CreatePayment sha uni (payment_store sha) v e st input = (r1, st') \<Longrightarrow>
    payment_session sha uni st'"
| get: "payment_session sha uni st \<Longrightarrow> svc_GetPayment (payment_store sha) e st u i = (r2, st') \<Longrightarrow> payment_session sha uni st'"
| list: "payment_session sha uni st \<Longrightarrow> svc_ListPayments uni (payment_store sha) e st u status page sz = (r3, st') \<Longrightarrow>
    payment_session sha uni st'"
| cancel: "payment_session sha uni st \<Longrightarrow> svc_CancelPayment (payment_store sha) v e st u i = (r4, st') \<Longrightarrow>
    payment_session sha uni st'"

lemma payment_session_wf: "payment_session sha uni st \<Longrightarrow> all_wf (stored_payments st)"
proof (induction rule: payment_session.induct)
  case start
  then show ?case by (simp add: all_wf_def stored_payments_def empty_db_def)
qed (auto intro: payment_db.svc_create_wf payment_db.svc_get_wf payment_db.svc_list_wf payment_db.svc_cancel_wf)

section \<open>The hashed text determines the request\<close>

lemma payment_request_text_inj:
  "payment_request_text a c = payment_request_text a' c' \<longleftrightarrow> a = a' \<and> c = c'"
proof
  assume "payment_request_text a c = payment_request_text a' c'"
  then have "dec a @ CHR '';'' # (''currency='' @ c) = dec a' @ CHR '';'' # (''currency='' @ c')"
    by (simp add: payment_request_text_def)
  from split_unique [OF this dec_no_semicolon dec_no_semicolon] show "a = a' \<and> c = c'"
    by (auto dest: dec_inj)
qed simp

lemma hex_digit_inj: "m < 16 \<Longrightarrow> n < 16 \<Longrightarrow> hex_digit m = hex_digit n \<Longrightarrow> m = n"
  by (auto simp: hex_digit_def split: if_splits dest!: arg_cong [of _ _ "of_char :: char \<Rightarrow> nat"])

lemma hex_encode_inj: "hex_encode a = hex_encode b \<longleftrightarrow> a = b"
proof
  assume "hex_encode a = hex_encode b"
  then show "a = b"
  proof (induction a arbitrary: b)
    case Nil
    then show ?case by (cases b) (simp_all add: hex_encode_def)
  next
    case (Cons x a)
    then obtain y b' where b: "b = y # b'" by (cases b) (simp_all add: hex_encode_def)
    have lt: "(of_char c :: nat) div 16 < 16" for c using nat_of_char_less_256 [of c] by linarith
    have "hex_digit (of_char x div 16) = hex_digit (of_char y div 16)" "hex_digit (of_char x mod 16) = hex_digit (of_char y mod 16)"
      and rest: "hex_encode a = hex_encode b'"
      using Cons.prems by (simp_all add: b hex_encode_def)
    then have "(of_char x :: nat) div 16 = of_char y div 16" "(of_char x :: nat) mod 16 = of_char y mod 16"
      using hex_digit_inj lt by simp_all
    then have "(of_char x :: nat) = of_char y" by (metis mult_div_mod_eq)
    with Cons.IH [OF rest] b show ?case by simp
  qed
qed simp

lemma request_hash_eq:
  assumes "sha (payment_request_text a c) = sha (payment_request_text a' c') \<Longrightarrow> payment_request_text a c = payment_request_text a' c'"
  shows "hashCreatePaymentRequest sha a c = hashCreatePaymentRequest sha a' c' \<longleftrightarrow> a = a' \<and> c = c'"
  using assms payment_request_text_inj by (auto simp: hashCreatePaymentRequest_def hex_encode_inj)

end
