(* ===== verification/ScenarioService.thy ===== *)
theory ScenarioService
  imports Scenario ServiceLaws
begin

text \<open>A payment requested through the service on an empty store, evaluated.\<close>

definition demo_input :: CreatePaymentInput where
  "demo_input = \<lparr>cpUserID = ''alice'', cpAmount = 1500, cpCurrency = '' rub'', cpIdempotencyKey = ''k1 ''\<rparr>"

definition demo_typed :: Payment where
  "demo_typed =
     \<lparr>pID = ''pay_80_1'', pAmount = 1500, pCurrency = ''RUB'', pStatus = PaymentPending, pIdempotencyKey = ''k1'',
      pCreatedAt = 80, pUpdatedAt = 80\<rparr>"

definition demo_session_db :: db where
  "demo_session_db =
     empty_db\<lparr>app_users := [\<lparr>auUser = ''alice'', auPayments = pt, auWebhooks = wt, auCreatedAt = 0\<rparr>],
       payments_tables := [pt \<mapsto> [demo_typed]], webhooks_tables := [wt \<mapsto> []],
       idempotency_keys := key_rows ''alice'' demo_typed (hashCreatePaymentRequest demo_sha 1500 ''RUB''),
       outbox_events := [payment_event (calm 0 1 ''a'') ''alice'' EventPaymentCreated ''pay_80_1'' (created_payload demo_typed) 80]\<rparr>"

lemma demo_normal:
  "normalizeCurrency (\<lambda>x. x) '' rub'' = ''RUB''" "TrimSpace ''k1 '' = ''k1''" "isValidCurrency ''RUB''"
  "nextID (calm 80 1 ''a'') ''pay'' = ''pay_80_1''"
proof -
  have "TrimSpace '' rub'' = ''rub''" "ToUpper (\<lambda>x. x) ''rub'' = ''RUB''" by code_simp+
  then show "normalizeCurrency (\<lambda>x. x) '' rub'' = ''RUB''" by (simp add: normalizeCurrency_def)
  show "TrimSpace ''k1 '' = ''k1''" by code_simp
  show "isValidCurrency ''RUB''" by (simp add: isValidCurrency_def)
  have "dec 80 = ''80''" by code_simp
  then show "nextID (calm 80 1 ''a'') ''pay'' = ''pay_80_1''" by (simp add: nextID_def)
qed

lemma demo_service_create:
  "CreatePayment demo_sha (calm 0 1 ''a'') (proc sys_init 0) ''alice'' demo_typed (hashCreatePaymentRequest demo_sha 1500 ''RUB'') =
     (Inr (demo_typed, True), \<lparr>pool = demo_session_db, ensuredUsers = {''alice''}\<rparr>)"
  by (simp add: CreatePayment_def ensureUserSchema_def run_tx_def ensureUserTablesTx_def insert_app_user_def
      sys_init_def proc_def empty_db_def query_row_def create_table_def create_index_def quoteIdentifier_def
      identifier_char_def less_eq_char_def Let_def create_payment_tx_def create_payment_insert_def find_idem_key_def
      insert_payment_row_def insertPaymentCreatedOutboxEvent_def insertOutboxEvent_def insert_outbox_row_def
      demo_typed_def demo_session_db_def payment_event_def created_payload_def key_rows_def
      int64_def min_int64_def max_int64_def)

lemma demo_service_step:
  "svc_CreatePayment demo_sha (\<lambda>x. x) (payment_store demo_sha) (calm 80 1 ''a'') (calm 0 1 ''a'') (proc sys_init 0) demo_input =
     (Inr (demo_typed, True), \<lparr>pool = demo_session_db, ensuredUsers = {''alice''}\<rparr>)"
proof -
  have "new_payment (calm 80 1 ''a'') demo_input ''RUB'' = demo_typed"
    by (simp add: new_payment_def demo_input_def demo_typed_def generatePaymentID_def demo_normal)
  then show ?thesis
    using demo_service_create
    by (simp add: svc_CreatePayment_def payment_store_def demo_normal demo_input_def [THEN arg_cong [of _ _ cpUserID]] Let_def)
      (simp add: demo_input_def demo_normal)
qed

lemma demo_session: "payment_session demo_sha (\<lambda>x. x) \<lparr>pool = demo_session_db, ensuredUsers = {''alice''}\<rparr>"
proof -
  have "proc sys_init 0 = \<lparr>pool = empty_db, ensuredUsers = {}\<rparr>" by (simp add: proc_def sys_init_def)
  then show ?thesis using payment_session.create [OF payment_session.start] demo_service_step by metis
qed

lemma demo_session_rows: "payments_tables demo_session_db pt = Some [demo_typed]"
  by (simp add: demo_session_db_def)

lemma demo_texts:
  "demo_sha (payment_request_text 7 ''RUB'') = demo_sha (payment_request_text 1500 ''RUB'') \<Longrightarrow>
     payment_request_text 7 ''RUB'' = payment_request_text 1500 ''RUB''"
  "normalizeCurrency (\<lambda>x. x) '' rub'' = ''RUB''" "TrimSpace ''k1 '' = ''k1''" "isValidCurrency ''RUB''"
proof -
  have "demo_sha (payment_request_text 7 ''RUB'') \<noteq> demo_sha (payment_request_text 1500 ''RUB'')" by code_simp
  then show "demo_sha (payment_request_text 7 ''RUB'') = demo_sha (payment_request_text 1500 ''RUB'') \<Longrightarrow>
     payment_request_text 7 ''RUB'' = payment_request_text 1500 ''RUB''" by blast
qed (fact demo_normal)+

end
