(* ===== verification/Auth.thy ===== *)
theory Auth
  imports Domain
begin

text \<open>
  \<open>internal/auth/jwt.go\<close>: issuing and checking HS256 tokens. Base64 in the URL alphabet without padding, with
  the strict decoder, is defined here; HMAC-SHA256 and the JSON encodings of header and claims are the fields of
  \<open>jwt_codec\<close>, where a decoder gives \<open>None\<close> for whatever \<open>strictJSON\<close> refuses. The clock is an argument in
  seconds (\<open>Time.Unix\<close>).

  The theorems show that base64 is a round trip and leaves no choice of encoding, which tokens are accepted, and
  that issued tokens are accepted exactly during their lifetime.
\<close>

section \<open>Base64\<close>

definition b64_char :: "nat \<Rightarrow> char" where
  "b64_char n =
     (if n < 26 then char_of (65 + n) else if n < 52 then char_of (71 + n) else if n < 62 then char_of (n - 4)
      else if n = 62 then CHR ''-'' else CHR ''_'')"

definition b64_value :: "char \<Rightarrow> nat option" where
  "b64_value c =
     (let n = of_char c :: nat in
      if n \<in> {65..90} then Some (n - 65) else if n \<in> {97..122} then Some (n - 71) else if n \<in> {48..57} then Some (n + 4)
      else if c = CHR ''-'' then Some 62 else if c = CHR ''_'' then Some 63 else None)"

fun b64_encode :: "string \<Rightarrow> string" where
  "b64_encode [] = []"
| "b64_encode [a] = [b64_char (of_char a div 4), b64_char (of_char a mod 4 * 16)]"
| "b64_encode [a, b] =
     [b64_char (of_char a div 4), b64_char (of_char a mod 4 * 16 + of_char b div 16), b64_char (of_char b mod 16 * 4)]"
| "b64_encode (a # b # c # rest) =
     b64_char (of_char a div 4) # b64_char (of_char a mod 4 * 16 + of_char b div 16) #
     b64_char (of_char b mod 16 * 4 + of_char c div 64) # b64_char (of_char c mod 64) # b64_encode rest"

text \<open>The decoder passes over line ends.\<close>

fun b64_groups :: "nat list \<Rightarrow> string option" where
  "b64_groups [] = Some []"
| "b64_groups [p] = None"
| "b64_groups [p, q] = (if q mod 16 \<noteq> 0 then None else Some [char_of (p * 4 + q div 16)])"
| "b64_groups [p, q, r] =
     (if r mod 4 \<noteq> 0 then None else Some [char_of (p * 4 + q div 16), char_of (q mod 16 * 16 + r div 4)])"
| "b64_groups (p # q # r # s # rest) =
     map_option (\<lambda>bs. char_of (p * 4 + q div 16) # char_of (q mod 16 * 16 + r div 4) # char_of (r mod 4 * 64 + s) # bs)
       (b64_groups rest)"

definition b64_values :: "string \<Rightarrow> nat list option" where
  "b64_values s = those (map b64_value s)"

definition b64_decode :: "string \<Rightarrow> string option" where
  "b64_decode s =
     (case b64_values (filter (\<lambda>c. (of_char c :: nat) \<noteq> 10 \<and> (of_char c :: nat) \<noteq> 13) s) of
        None \<Rightarrow> None
      | Some vs \<Rightarrow> b64_groups vs)"

section \<open>Tokens\<close>

record auth_config =
  acSecret :: string
  acIssuer :: string
  acAudience :: string

record claims =
  jcSubject :: string
  jcIssuer :: string
  jcAudience :: string
  jcExpiresAt :: int
  jcIssuedAt :: int
  jcNotBefore :: int

record jwt_header =
  jhAlgorithm :: string
  jhType :: string

record jwt_codec =
  jxMac :: "string \<Rightarrow> string \<Rightarrow> string"
  jxHeader :: "jwt_header \<Rightarrow> string"
  jxClaims :: "claims \<Rightarrow> string"
  jxDecodeHeader :: "string \<Rightarrow> jwt_header option"
  jxDecodeClaims :: "string \<Rightarrow> claims option"

definition New_auth :: "auth_config \<Rightarrow> go_error + auth_config" where
  "New_auth cfg =
     (if length (acSecret cfg) < 32 \<or> TrimSpace (acIssuer cfg) = '''' \<or> TrimSpace (acAudience cfg) = ''''
      then Inl (ErrNew ''JWT secret must contain at least 32 bytes; issuer and audience are required'')
      else Inr cfg)"

definition validSubject :: "string \<Rightarrow> bool" where
  "validSubject s \<longleftrightarrow>
     1 \<le> length s \<and> length s \<le> 128 \<and> TrimSpace s = s \<and>
     list_all (\<lambda>c. \<not> ((of_char c :: nat) < 32 \<or> (of_char c :: nat) = 127)) s"

definition sign :: "jwt_codec \<Rightarrow> auth_config \<Rightarrow> string \<Rightarrow> string" where
  "sign jx cfg payload = jxMac jx (acSecret cfg) payload"

definition issued_header :: jwt_header where
  "issued_header = \<lparr>jhAlgorithm = ''HS256'', jhType = ''JWT''\<rparr>"

definition issued_claims :: "auth_config \<Rightarrow> string \<Rightarrow> duration \<Rightarrow> int \<Rightarrow> claims" where
  "issued_claims cfg subject ttl now =
     \<lparr>jcSubject = subject, jcIssuer = acIssuer cfg, jcAudience = acAudience cfg,
      jcExpiresAt = wrap64 (now + ttl sdiv Second), jcIssuedAt = now, jcNotBefore = now\<rparr>"

definition Issue :: "jwt_codec \<Rightarrow> auth_config \<Rightarrow> int \<Rightarrow> string \<Rightarrow> duration \<Rightarrow> go_error + string" where
  "Issue jx cfg now subject ttl =
     (if \<not> validSubject subject \<or> ttl < Second \<or> ttl > 24 * Hour then Inl (ErrNew ''invalid subject or token lifetime'')
      else
        let payload = b64_encode (jxHeader jx issued_header) @ ''.'' @ b64_encode (jxClaims jx (issued_claims cfg subject ttl now))
        in Inr (payload @ ''.'' @ b64_encode (sign jx cfg payload)))"

definition claims_ok :: "auth_config \<Rightarrow> int \<Rightarrow> claims \<Rightarrow> bool" where
  "claims_ok cfg now c \<longleftrightarrow>
     validSubject (jcSubject c) \<and> jcIssuer c = acIssuer cfg \<and> jcAudience c = acAudience cfg \<and> now < jcExpiresAt c \<and>
     0 < jcIssuedAt c \<and> jcIssuedAt c \<le> now \<and> 0 < jcNotBefore c \<and> jcNotBefore c \<le> now \<and>
     jcIssuedAt c < jcExpiresAt c \<and> jcNotBefore c < jcExpiresAt c"

definition authenticate_parts :: "jwt_codec \<Rightarrow> auth_config \<Rightarrow> int \<Rightarrow> string \<Rightarrow> string \<Rightarrow> string \<Rightarrow> go_error + string" where
  "authenticate_parts jx cfg now p0 p1 p2 =
     (if b64_decode p2 \<noteq> Some (sign jx cfg (p0 @ ''.'' @ p1)) then Inl ErrInvalidToken
      else
        case b64_decode p0 of
          None \<Rightarrow> Inl ErrInvalidToken
        | Some hraw \<Rightarrow>
          (case jxDecodeHeader jx hraw of
             None \<Rightarrow> Inl ErrInvalidToken
           | Some h \<Rightarrow>
             if jhAlgorithm h \<noteq> ''HS256'' \<or> jhType h \<noteq> ''JWT'' then Inl ErrInvalidToken
             else
               case b64_decode p1 of
                 None \<Rightarrow> Inl ErrInvalidToken
               | Some craw \<Rightarrow>
                 (case jxDecodeClaims jx craw of
                    None \<Rightarrow> Inl ErrInvalidToken
                  | Some c \<Rightarrow> if claims_ok cfg now c then Inr (jcSubject c) else Inl ErrInvalidToken)))"

definition Authenticate :: "jwt_codec \<Rightarrow> auth_config \<Rightarrow> int \<Rightarrow> string \<Rightarrow> go_error + string" where
  "Authenticate jx cfg now token =
     (if length token = 0 \<or> length token > 4096 then Inl ErrInvalidToken
      else
        case split_on (CHR ''.'') token of
          [p0, p1, p2] \<Rightarrow> authenticate_parts jx cfg now p0 p1 p2
        | _ \<Rightarrow> Inl ErrInvalidToken)"

section \<open>Base64 is a round trip\<close>

lemma b64_value_char: "n < 64 \<Longrightarrow> b64_value (b64_char n) = Some n"
  by (auto simp: b64_value_def b64_char_def Let_def)

text \<open>Neither a line end nor a full stop.\<close>

definition plain_char :: "char \<Rightarrow> bool" where
  "plain_char c \<longleftrightarrow> (of_char c :: nat) \<notin> {10, 13, 46}"

lemma b64_char_plain: "n < 64 \<Longrightarrow> plain_char (b64_char n)"
  by (auto simp: plain_char_def b64_char_def)

lemma b64_char_value: "b64_value c = Some n \<Longrightarrow> n < 64 \<and> b64_char n = c"
  by (auto simp: b64_value_def b64_char_def Let_def split: if_splits)

lemma byte_less: "(of_char c :: nat) < 256"
  by simp

lemma sextets:
  fixes x y :: nat
  assumes "x < 256" "y < 256"
  shows "x div 4 < 64" "x mod 4 * 16 < 64" "x mod 4 * 16 + y div 16 < 64" "x mod 16 * 4 < 64"
    "x mod 16 * 4 + y div 64 < 64" "x mod 64 < 64"
proof -
  have "x mod 4 < 4" "y div 16 < 16" "x mod 16 < 16" "y div 64 < 4" using assms by auto
  then show "x div 4 < 64" "x mod 4 * 16 < 64" "x mod 4 * 16 + y div 16 < 64" "x mod 16 * 4 < 64"
    "x mod 16 * 4 + y div 64 < 64" "x mod 64 < 64" using assms(1) by auto
qed

lemma octets:
  fixes y z :: nat
  assumes "y < 256" "z < 256"
  shows "y div 16 div 16 = 0" "y div 16 mod 16 = y div 16" "z div 64 div 4 = 0" "z div 64 mod 4 = z div 64"
  using assms by (simp_all add: less_mult_imp_div_less)

lemmas bytes = byte_less sextets [OF byte_less byte_less] octets [OF byte_less byte_less]

lemma b64_encode_plain: "list_all plain_char (b64_encode s)"
  by (induction s rule: b64_encode.induct) (simp_all add: b64_char_plain bytes)

lemma b64_values_Nil [simp]: "b64_values [] = Some []"
  by (simp add: b64_values_def)

lemma b64_values_Cons [simp]:
  "b64_values (c # s) = (case b64_value c of None \<Rightarrow> None | Some n \<Rightarrow> map_option ((#) n) (b64_values s))"
  by (simp add: b64_values_def split: option.split)

lemma b64_groups_encode: "\<exists>vs. b64_values (b64_encode s) = Some vs \<and> b64_groups vs = Some s"
proof (induction s rule: b64_encode.induct)
  case (4 a b c rest)
  then show ?case by (auto simp: b64_value_char bytes)
qed (simp_all add: b64_value_char bytes)


lemma b64_values_map: "b64_values s = Some vs \<Longrightarrow> list_all (\<lambda>n. n < 64) vs \<and> map b64_char vs = s"
  by (induction s arbitrary: vs) (auto dest: b64_char_value split: option.splits)

lemma b64_groups_strict:
  "b64_groups vs = Some s \<Longrightarrow> list_all (\<lambda>n. n < 64) vs \<Longrightarrow> map b64_char vs = b64_encode s"
proof (induction vs arbitrary: s rule: b64_groups.induct)
  case (3 p q)
  then have "q div 16 < 4" "p * 4 + q div 16 < 256" "q div 16 * 16 = q"
    by (auto split: if_splits simp: less_mult_imp_div_less)
  then show ?case using 3 by (auto split: if_splits)
next
  case (4 p q r)
  then have "q div 16 < 4" "p * 4 + q div 16 < 256" "r div 4 < 16" "q mod 16 * 16 + r div 4 < 256" "r div 4 * 4 = r"
    by (auto split: if_splits simp: less_mult_imp_div_less)
  then show ?case using 4 by (auto split: if_splits)
next
  case (5 p q r t rest)
  then have "q div 16 < 4" "p * 4 + q div 16 < 256" "r div 4 < 16" "q mod 16 * 16 + r div 4 < 256" "r mod 4 * 64 + t < 256"
    by (auto split: if_splits simp: less_mult_imp_div_less)
  then show ?case using 5 by auto
qed auto

lemma filter_plain: "list_all plain_char s \<Longrightarrow> filter (\<lambda>c. (of_char c :: nat) \<noteq> 10 \<and> (of_char c :: nat) \<noteq> 13) s = s"
  by (induction s) (auto simp: plain_char_def)

lemma b64_decode_encode [simp]: "b64_decode (b64_encode s) = Some s"
  using b64_groups_encode [of s] by (auto simp: b64_decode_def filter_plain b64_encode_plain)

lemma b64_decode_strict: "b64_decode t = Some s \<Longrightarrow> list_all plain_char t \<Longrightarrow> t = b64_encode s"
  by (auto simp: b64_decode_def filter_plain dest: b64_values_map b64_groups_strict split: option.splits)

lemma b64_encode_no_dot [simp]: "CHR ''.'' \<notin> set (b64_encode s)"
  using b64_encode_plain [of s] by (auto simp: list_all_iff plain_char_def)

section \<open>Which tokens are accepted\<close>

lemma claims_ok_iff:
  "claims_ok cfg now c \<longleftrightarrow>
     validSubject (jcSubject c) \<and> jcIssuer c = acIssuer cfg \<and> jcAudience c = acAudience cfg \<and> 0 < jcIssuedAt c \<and>
     jcIssuedAt c \<le> now \<and> 0 < jcNotBefore c \<and> jcNotBefore c \<le> now \<and> now < jcExpiresAt c"
  by (auto simp: claims_ok_def)

lemma authenticate_parts_Inr:
  "authenticate_parts jx cfg now p0 p1 p2 = Inr u \<longleftrightarrow>
     b64_decode p2 = Some (sign jx cfg (p0 @ ''.'' @ p1)) \<and>
     (\<exists>hraw. b64_decode p0 = Some hraw \<and> jxDecodeHeader jx hraw = Some issued_header) \<and>
     (\<exists>craw c. b64_decode p1 = Some craw \<and> jxDecodeClaims jx craw = Some c \<and> claims_ok cfg now c \<and> jcSubject c = u)"
  by (auto simp: authenticate_parts_def issued_header_def split: option.splits if_splits)

lemma authenticate_parts_Inl: "authenticate_parts jx cfg now p0 p1 p2 = Inl e \<Longrightarrow> e = ErrInvalidToken"
  by (auto simp: authenticate_parts_def split: option.splits if_splits)

lemma Authenticate_triple:
  assumes "CHR ''.'' \<notin> set p0" "CHR ''.'' \<notin> set p1" "CHR ''.'' \<notin> set p2"
    and "length (p0 @ ''.'' @ p1 @ ''.'' @ p2) \<le> 4096"
  shows "Authenticate jx cfg now (p0 @ ''.'' @ p1 @ ''.'' @ p2) = authenticate_parts jx cfg now p0 p1 p2"
  using assms by (simp add: Authenticate_def split_on_append split_on_no)

lemma Authenticate_Inr:
  "Authenticate jx cfg now token = Inr u \<longleftrightarrow>
     (\<exists>p0 p1 p2. token = p0 @ ''.'' @ p1 @ ''.'' @ p2 \<and> CHR ''.'' \<notin> set p0 \<union> set p1 \<union> set p2 \<and> length token \<le> 4096 \<and>
        authenticate_parts jx cfg now p0 p1 p2 = Inr u)" (is "?lhs = ?rhs")
proof
  assume l: ?lhs
  then obtain p0 p1 p2 where sp: "split_on (CHR ''.'') token = [p0, p1, p2]"
    and len: "length token \<le> 4096" and ok: "authenticate_parts jx cfg now p0 p1 p2 = Inr u"
    by (auto simp: Authenticate_def split: if_splits list.splits)
  then show ?rhs using split_on_triple [OF sp] by auto
qed (auto simp: Authenticate_triple [simplified])

lemma Authenticate_Inl: "Authenticate jx cfg now token = Inl e \<Longrightarrow> e = ErrInvalidToken"
  by (auto simp: Authenticate_def dest: authenticate_parts_Inl split: if_splits list.splits)

lemma issued_claims_ok:
  assumes "validSubject subject" "Second \<le> ttl" "ttl \<le> 24 * Hour" "0 < now" "now + ttl div Second < 2 ^ 63"
  shows "claims_ok cfg later (issued_claims cfg subject ttl now) \<longleftrightarrow> now \<le> later \<and> later < now + ttl div Second"
proof -
  have "0 < Second" by (simp add: Second_def)
  then have "0 < ttl div Second" "ttl sdiv Second = ttl div Second"
    using assms(2) by (auto simp: signed_divide_int_def pos_imp_zdiv_pos_iff)
  moreover from this have "int64 (now + ttl div Second)"
    using assms(4,5) by (simp add: int64_def min_int64_def max_int64_def)
  ultimately show ?thesis using assms by (auto simp: claims_ok_def issued_claims_def wrap64_id)
qed

lemma Issue_Inr:
  assumes "Issue jx cfg now subject ttl = Inr token" "length token \<le> 4096"
    and "jxDecodeHeader jx (jxHeader jx issued_header) = Some issued_header"
    and "jxDecodeClaims jx (jxClaims jx (issued_claims cfg subject ttl now)) = Some (issued_claims cfg subject ttl now)"
  shows "Authenticate jx cfg later token =
    (if claims_ok cfg later (issued_claims cfg subject ttl now) then Inr subject else Inl ErrInvalidToken)"
proof -
  let ?h = "b64_encode (jxHeader jx issued_header)"
  let ?c = "b64_encode (jxClaims jx (issued_claims cfg subject ttl now))"
  have "token = ?h @ ''.'' @ ?c @ ''.'' @ b64_encode (sign jx cfg (?h @ ''.'' @ ?c))"
    using assms(1) by (auto simp: Issue_def Let_def split: if_splits)
  moreover have "authenticate_parts jx cfg later ?h ?c (b64_encode (sign jx cfg (?h @ ''.'' @ ?c))) =
    (if claims_ok cfg later (issued_claims cfg subject ttl now) then Inr subject else Inl ErrInvalidToken)"
    using assms(3,4) by (simp add: authenticate_parts_def issued_header_def issued_claims_def)
  ultimately show ?thesis using assms(2) by (simp only: Authenticate_triple b64_encode_no_dot not_False_eq_True)
qed

end
