(* ===== verification/HttpApi.thy ===== *)
theory HttpApi
  imports Services RateLimit Auth ServeMux
begin

text \<open>
  The HTTP API: \<open>internal/httpapi/router.go\<close>, \<open>refunds.go\<close>, \<open>response.go\<close> and the limiter adapter of
  \<open>cmd/payment/main.go\<close>. A request is answered by the chain of \<open>NewRouter\<close>: request identifier, CORS, routing,
  token, rate limit, handler. A handler takes the state \<open>'d\<close> behind the services and returns it with the response.
  The body of a response is the value that is encoded as JSON.

  \<open>api_lib\<close> holds the library functions the handlers use (JSON decoders, SHA-256, Unicode tables, the URL parser);
  \<open>api_env\<close> what one request reads from outside: clocks, counters, random bytes and the driver's answers.
\<close>

section \<open>Requests and responses\<close>

record api_request =
  arMethod :: string
  arPath :: string
  arQuery :: "(string \<times> string) list"
  arHeaders :: "(string \<times> string) list"
  arBody :: string

text \<open>\<open>Values.Get\<close> and \<open>Header.Get\<close>: the first value of a name, empty when there is none.\<close>

definition first_value :: "(string \<times> string) list \<Rightarrow> string \<Rightarrow> string" where
  "first_value kvs k = (case map_of kvs k of None \<Rightarrow> '''' | Some v \<Rightarrow> v)"

definition query_get :: "api_request \<Rightarrow> string \<Rightarrow> string" where "query_get r = first_value (arQuery r)"
definition header_get :: "api_request \<Rightarrow> string \<Rightarrow> string" where "header_get r = first_value (arHeaders r)"

datatype api_body =
    NoBody
  | ErrorBody string
  | StatusBody string "string option"
  | RetryBody string int
  | PaymentBody Payment
  | CreatedPaymentBody Payment bool
  | PaymentsBody "Payment list" int int int
  | SubscriptionBody WebhookSubscription
  | SubscriptionsBody "WebhookSubscription list"
  | RefundBody Refund
  | CreatedRefundBody Refund bool
  | RefundsBody "Refund list"
  | ReconciliationsBody "ReconciliationResult list"

record api_response =
  asStatus :: int
  asHeaders :: "(string \<times> string) list"
  asBody :: api_body

definition writeJSON :: "int \<Rightarrow> api_body \<Rightarrow> api_response" where
  "writeJSON status v = \<lparr>asStatus = status, asHeaders = [(''Content-Type'', ''application/json'')], asBody = v\<rparr>"

definition writeError :: "int \<Rightarrow> string \<Rightarrow> api_response" where
  "writeError status msg = writeJSON status (ErrorBody msg)"

definition add_headers :: "(string \<times> string) list \<Rightarrow> api_response \<times> 'd \<Rightarrow> api_response \<times> 'd" where
  "add_headers hs x = ((fst x)\<lparr>asHeaders := hs @ asHeaders (fst x)\<rparr>, snd x)"

definition writeServiceError :: "go_error \<Rightarrow> api_response" where
  "writeServiceError err =
     (if errors_is err ErrPaymentNotFound \<or> errors_is err ErrSubscriptionNotFound \<or> errors_is err ErrRefundNotFound
      then writeError 404 (error_text err)
      else if errors_is err ErrInvalidAmount \<or> errors_is err ErrIdempotencyKeyRequired \<or> errors_is err ErrInvalidCurrency \<or>
        errors_is err ErrInvalidPagination \<or> errors_is err ErrInvalidStatusFilter \<or> errors_is err ErrInvalidWebhookURL \<or>
        errors_is err ErrUserIDRequired
      then writeError 400 (error_text err)
      else if errors_is err ErrInvalidPaymentState \<or> errors_is err ErrIdempotencyConflict \<or>
        errors_is err ErrInvalidRefundState \<or> errors_is err ErrRefundAmountExceeded
      then writeError 409 (error_text err)
      else writeError 500 ''internal server error'')"

text \<open>The end of nearly every handler: an error goes to \<open>writeServiceError\<close>, a value into a response.\<close>

definition respond :: "('a \<Rightarrow> api_response) \<Rightarrow> (go_error + 'a) \<times> 'd \<Rightarrow> api_response \<times> 'd" where
  "respond ok x = ((case fst x of Inl err \<Rightarrow> writeServiceError err | Inr v \<Rightarrow> ok v), snd x)"

section \<open>Reading a request\<close>

text \<open>What \<open>Decoder.Decode\<close> makes of the bytes it reads: end of input, an error, or a value and the bytes left.\<close>

datatype 'a decoded = DecodeEOF | DecodeError go_error | Decoded 'a string

definition maxRequestBodyBytes :: nat where "maxRequestBodyBytes = 2 ^ 20"

definition decodeJSON :: "(string \<Rightarrow> 'a decoded) \<Rightarrow> (string \<Rightarrow> bool) \<Rightarrow> string \<Rightarrow> go_error + 'a" where
  "decodeJSON decode at_eof body =
     (case decode (take maxRequestBodyBytes body) of
        DecodeEOF \<Rightarrow> Inl (ErrNew ''request body is required'')
      | DecodeError err \<Rightarrow> Inl (wrapf ''decode request body'' err)
      | Decoded v rest \<Rightarrow>
          if at_eof rest then Inr v else Inl (ErrNew ''request body must contain only one JSON object''))"

definition parsePositiveIntQuery :: "api_request \<Rightarrow> string \<Rightarrow> int \<Rightarrow> go_error + int" where
  "parsePositiveIntQuery r key defaultValue =
     (let raw = TrimSpace (query_get r key) in
      if raw = '''' then Inr defaultValue
      else
        case ParseInt raw of
          None \<Rightarrow> Inl ErrInvalidPagination
        | Some parsed \<Rightarrow> if parsed < 1 then Inl ErrInvalidPagination else Inr parsed)"

definition refundPagination :: "api_request \<Rightarrow> go_error + int \<times> int" where
  "refundPagination r =
     (case parsePositiveIntQuery r ''page'' 1 of
        Inl err \<Rightarrow> Inl err
      | Inr page \<Rightarrow>
        (case parsePositiveIntQuery r ''size'' 20 of
           Inl err \<Rightarrow> Inl ErrInvalidPagination
         | Inr sz \<Rightarrow>
           if sz > 100 \<or> page > 1000000 then Inl ErrInvalidPagination else Inr (sz, wrap64 (wrap64 (page - 1) * sz))))"

definition ParseBool :: "string \<Rightarrow> bool option" where
  "ParseBool s =
     (if s \<in> {''1'', ''t'', ''T'', ''TRUE'', ''true'', ''True''} then Some True
      else if s \<in> {''0'', ''f'', ''F'', ''FALSE'', ''false'', ''False''} then Some False
      else None)"

text \<open>\<open>strings.Fields\<close>.\<close>

function fields_from :: "string \<Rightarrow> string \<Rightarrow> string list" where
  "fields_from cur s =
     (case strip_first utf8_spaces s of
        Some rest \<Rightarrow> (if cur = [] then [] else [rev cur]) @ fields_from [] rest
      | None \<Rightarrow> (case s of [] \<Rightarrow> (if cur = [] then [] else [rev cur]) | c # cs \<Rightarrow> fields_from (c # cur) cs))"
  by pat_completeness auto
termination
  by (relation "measure (\<lambda>(cur, s). length s)") (auto dest: strip_first_shorter)

declare fields_from.simps [simp del]

definition Fields :: "string \<Rightarrow> string list" where "Fields s = fields_from [] s"

text \<open>
  \<open>strings.EqualFold\<close> against a text whose letters fold to ASCII letters only, which holds for those of
  \<open>Bearer\<close>.
\<close>

definition EqualFold_ascii :: "string \<Rightarrow> string \<Rightarrow> bool" where
  "EqualFold_ascii s t \<longleftrightarrow> map ascii_upper s = map ascii_upper t"

section \<open>The API\<close>

record createPaymentRequest =
  crAmount :: int
  crCurrency :: string

record createSubscriptionRequest =
  csURL :: string
  csActive :: "bool option"

record createRefundRequest =
  cfPaymentID :: string
  cfAmount :: int

record api_lib =
  alSha :: "string \<Rightarrow> string"
  alUni :: "string \<Rightarrow> string"
  alParseURL :: "string \<Rightarrow> webhook_url option"
  alRefundJSON :: "string \<Rightarrow> int \<Rightarrow> string"
  alPayment :: "string \<Rightarrow> createPaymentRequest decoded"
  alSubscription :: "string \<Rightarrow> createSubscriptionRequest decoded"
  alActive :: "string \<Rightarrow> bool option decoded"
  alRefund :: "string \<Rightarrow> createRefundRequest decoded"
  alAtEOF :: "string \<Rightarrow> bool"

record api_env =
  aeStarted :: env
  aeUnix :: int
  aeLimitNow :: go_time
  aeLimit :: env
  aeService :: env
  aeCall :: env
  aeReread :: env

record 'd rateLimiter =
  rlAllow :: "env \<Rightarrow> 'd \<Rightarrow> string \<Rightarrow> go_time \<Rightarrow> (go_error + Decision) \<times> 'd"
  rlLimit :: int

record 'd API =
  apAuthenticator :: "(int \<Rightarrow> string \<Rightarrow> go_error + string) option"
  apRefundService :: "'d RefundRepository option"
  apPaymentService :: "'d PaymentRepository"
  apWebhookService :: "'d WebhookRepository"
  apLimiter :: "'d rateLimiter option"
  apHealthChecker :: "(env \<Rightarrow> 'd \<Rightarrow> go_error option) option"

type_synonym 'd handler = "api_lib \<Rightarrow> api_env \<Rightarrow> 'd \<Rightarrow> api_request \<Rightarrow> string \<Rightarrow> api_response \<times> 'd"

section \<open>Handlers\<close>

definition handleLive :: "api_response" where
  "handleLive = writeJSON 200 (StatusBody ''ok'' None)"

definition handleReady :: "'d API \<Rightarrow> api_env \<Rightarrow> 'd \<Rightarrow> api_response" where
  "handleReady api ev d =
     (case apHealthChecker api of
        None \<Rightarrow> writeJSON 200 (StatusBody ''ok'' None)
      | Some ping \<Rightarrow>
        (case ping (aeCall ev) d of
           Some err \<Rightarrow> writeJSON 503 (StatusBody ''unavailable'' (Some ''database ping failed''))
         | None \<Rightarrow> writeJSON 200 (StatusBody ''ok'' None)))"

definition handleCreatePayment :: "'d API \<Rightarrow> 'd handler" where
  "handleCreatePayment api lib ev d r user =
     (case decodeJSON (alPayment lib) (alAtEOF lib) (arBody r) of
        Inl err \<Rightarrow> (writeError 400 (error_text err), d)
      | Inr req \<Rightarrow>
          respond (\<lambda>(payment, created). writeJSON (if created then 201 else 200) (CreatedPaymentBody payment created))
            (svc_CreatePayment (alSha lib) (alUni lib) (apPaymentService api) (aeService ev) (aeCall ev) d
               \<lparr>cpUserID = user, cpAmount = crAmount req, cpCurrency = crCurrency req,
                cpIdempotencyKey = header_get r ''Idempotency-Key''\<rparr>))"

definition maxPageSize :: int where "maxPageSize = 100"

definition handleListPayments :: "'d API \<Rightarrow> 'd handler" where
  "handleListPayments api lib ev d r user =
     (case parsePositiveIntQuery r ''page'' 1 of
        Inl err \<Rightarrow> (writeServiceError err, d)
      | Inr page \<Rightarrow>
        (case parsePositiveIntQuery r ''size'' 20 of
           Inl err \<Rightarrow> (writeServiceError err, d)
         | Inr sz \<Rightarrow>
           if sz > maxPageSize then (writeServiceError ErrInvalidPagination, d)
           else
             respond (\<lambda>(payments, total). writeJSON 200 (PaymentsBody payments page sz total))
               (svc_ListPayments (alUni lib) (apPaymentService api) (aeCall ev) d user (query_get r ''status'') page sz)))"

definition handleGetPayment :: "'d API \<Rightarrow> string \<Rightarrow> 'd handler" where
  "handleGetPayment api i lib ev d r user =
     respond (\<lambda>payment. writeJSON 200 (PaymentBody payment)) (svc_GetPayment (apPaymentService api) (aeCall ev) d user i)"

definition handleCancelPayment :: "'d API \<Rightarrow> string \<Rightarrow> 'd handler" where
  "handleCancelPayment api i lib ev d r user =
     (case svc_CancelPayment (apPaymentService api) (aeService ev) (aeCall ev) d user i of
        (Inl err, d') \<Rightarrow> (writeServiceError err, d')
      | (Inr _, d') \<Rightarrow>
          respond (\<lambda>payment. writeJSON 200 (PaymentBody payment)) (svc_GetPayment (apPaymentService api) (aeReread ev) d' user i))"

definition handleListSubscriptions :: "'d API \<Rightarrow> 'd handler" where
  "handleListSubscriptions api lib ev d r user =
     respond (\<lambda>items. writeJSON 200 (SubscriptionsBody items)) (svc_ListSubscriptions (apWebhookService api) (aeCall ev) d user)"

definition handleCreateSubscription :: "'d API \<Rightarrow> 'd handler" where
  "handleCreateSubscription api lib ev d r user =
     (case decodeJSON (alSubscription lib) (alAtEOF lib) (arBody r) of
        Inl err \<Rightarrow> (writeError 400 (error_text err), d)
      | Inr req \<Rightarrow>
          let active = (case csActive req of None \<Rightarrow> True | Some b \<Rightarrow> b) in
          respond (\<lambda>subscription. writeJSON 201 (SubscriptionBody subscription))
            (svc_CreateSubscription (alParseURL lib) (apWebhookService api) (aeService ev) (aeCall ev) d
               \<lparr>cwUserID = user, cwURL = csURL req, cwActive = active\<rparr>))"

definition handleGetSubscription :: "'d API \<Rightarrow> string \<Rightarrow> 'd handler" where
  "handleGetSubscription api i lib ev d r user =
     respond (\<lambda>subscription. writeJSON 200 (SubscriptionBody subscription))
       (svc_GetSubscription (apWebhookService api) (aeCall ev) d user i)"

definition handlePatchSubscription :: "'d API \<Rightarrow> string \<Rightarrow> 'd handler" where
  "handlePatchSubscription api i lib ev d r user =
     (case decodeJSON (alActive lib) (alAtEOF lib) (arBody r) of
        Inl err \<Rightarrow> (writeError 400 (error_text err), d)
      | Inr None \<Rightarrow> (writeError 400 ''field active is required'', d)
      | Inr (Some active) \<Rightarrow>
        (case svc_SetSubscriptionActive (apWebhookService api) (aeService ev) (aeCall ev) d user i active of
           (Inl err, d') \<Rightarrow> (writeServiceError err, d')
         | (Inr _, d') \<Rightarrow>
             respond (\<lambda>subscription. writeJSON 200 (SubscriptionBody subscription))
               (svc_GetSubscription (apWebhookService api) (aeReread ev) d' user i)))"

definition handleCreateRefund :: "'d RefundRepository \<Rightarrow> 'd handler" where
  "handleCreateRefund repo lib ev d r user =
     (case decodeJSON (alRefund lib) (alAtEOF lib) (arBody r) of
        Inl err \<Rightarrow> (writeError 400 (error_text err), d)
      | Inr req \<Rightarrow>
          respond (\<lambda>(refund, created). writeJSON (if created then 202 else 200) (CreatedRefundBody refund created))
            (svc_Create (alSha lib) (alRefundJSON lib) repo (aeService ev) (aeCall ev) d user (cfPaymentID req) (cfAmount req)
               (header_get r ''Idempotency-Key'')))"

definition handleGetRefund :: "'d RefundRepository \<Rightarrow> string \<Rightarrow> 'd handler" where
  "handleGetRefund repo i lib ev d r user =
     respond (\<lambda>refund. writeJSON 200 (RefundBody refund)) (svc_Get repo (aeCall ev) d user i, d)"

definition handleListRefunds :: "'d RefundRepository \<Rightarrow> 'd handler" where
  "handleListRefunds repo lib ev d r user =
     (case refundPagination r of
        Inl err \<Rightarrow> (writeServiceError err, d)
      | Inr (limit, offset) \<Rightarrow>
        (case (if query_get r ''manual_review'' = '''' then Some False else ParseBool (query_get r ''manual_review'')) of
           None \<Rightarrow> (writeError 400 ''invalid manual_review filter'', d)
         | Some review \<Rightarrow>
             respond (\<lambda>items. writeJSON 200 (RefundsBody items))
               (svc_List repo (aeCall ev) d user
                  \<lparr>lfPaymentID = query_get r ''payment_id'', lfStatus = query_get r ''status'', lfManualReview = review,
                   lfLimit = limit, lfOffset = offset\<rparr>, d)))"

definition handleListReconciliations :: "'d RefundRepository \<Rightarrow> string \<Rightarrow> 'd handler" where
  "handleListReconciliations repo i lib ev d r user =
     (case refundPagination r of
        Inl err \<Rightarrow> (writeServiceError err, d)
      | Inr (limit, offset) \<Rightarrow>
          respond (\<lambda>items. writeJSON 200 (ReconciliationsBody items))
            (svc_Reconciliations repo (aeCall ev) d user i limit offset, d))"

definition handleRefundRecheck :: "'d RefundRepository \<Rightarrow> string \<Rightarrow> 'd handler" where
  "handleRefundRecheck repo i lib ev d r user =
     respond (\<lambda>refund. writeJSON 202 (RefundBody refund)) (svc_Recheck repo (aeService ev) (aeCall ev) d user i)"

section \<open>The chain in front of the handlers\<close>

definition requireUser :: "'d API \<Rightarrow> api_env \<Rightarrow> 'd \<Rightarrow> api_request \<Rightarrow> (string \<Rightarrow> api_response \<times> 'd) \<Rightarrow> api_response \<times> 'd" where
  "requireUser api ev d r next =
     (case (apAuthenticator api, Fields (header_get r ''Authorization'')) of
        (Some authenticate, [scheme, token]) \<Rightarrow>
          if \<not> EqualFold_ascii scheme ''Bearer''
          then add_headers [(''WWW-Authenticate'', ''Bearer'')] (writeError 401 ''bearer token required'', d)
          else
            (case authenticate (aeUnix ev) token of
               Inl err \<Rightarrow> add_headers [(''WWW-Authenticate'', ''Bearer'')] (writeError 401 ''invalid or expired token'', d)
             | Inr userID \<Rightarrow>
               if userID = ''''
               then add_headers [(''WWW-Authenticate'', ''Bearer'')] (writeError 401 ''invalid or expired token'', d)
               else next userID)
      | _ \<Rightarrow> add_headers [(''WWW-Authenticate'', ''Bearer'')] (writeError 401 ''bearer token required'', d))"

text \<open>
  \<open>int(d.Seconds())\<close> cuts the fraction off. (The conversion to floating point is exact enough for that for
  all durations below 48 days; the limiter's interval is a minute.)
\<close>

definition retry_seconds :: "duration \<Rightarrow> int" where
  "retry_seconds d = (let s = d sdiv Second in if s < 1 then 1 else s)"

definition withRateLimit ::
  "'d API \<Rightarrow> api_env \<Rightarrow> 'd \<Rightarrow> string \<Rightarrow> string \<Rightarrow> ('d \<Rightarrow> api_response \<times> 'd) \<Rightarrow> api_response \<times> 'd" where
  "withRateLimit api ev d scope userID next =
     (case apLimiter api of
        None \<Rightarrow> next d
      | Some limiter \<Rightarrow>
        (case rlAllow limiter (aeLimit ev) d (scope @ '':'' @ userID) (aeLimitNow ev) of
           (Inl err, d') \<Rightarrow> (writeError 500 ''internal server error'', d')
         | (Inr decision, d') \<Rightarrow>
             add_headers
               (if rlLimit limiter > 0
                then [(''X-RateLimit-Limit'', dec (rlLimit limiter)), (''X-RateLimit-Remaining'', dec (dcRemaining decision))]
                else [])
               (if \<not> dcAllowed decision
                then
                  let retrySeconds = retry_seconds (dcRetryAfter decision) in
                  add_headers [(''Retry-After'', dec retrySeconds)]
                    (writeJSON 429 (RetryBody ''rate limit exceeded'' retrySeconds), d')
                else next d')))"

datatype api_route =
    Livez
  | Readyz
  | ListPayments_route
  | CreatePayment_route
  | GetPayment_route string
  | CancelPayment_route string
  | ListSubscriptions_route
  | CreateSubscription_route
  | GetSubscription_route string
  | PatchSubscription_route string
  | CreateRefund_route
  | RefundList_route
  | ViewRefund_route string
  | ListReconciliations_route string
  | RefundRecheck_route string

definition registerRefunds :: "api_route mux_pattern list" where
  "registerRefunds =
     [pattern ''POST'' [Lit ''v1'', Lit ''refunds''] (\<lambda>_. CreateRefund_route),
      pattern ''GET'' [Lit ''v1'', Lit ''refunds''] (\<lambda>_. RefundList_route),
      pattern ''GET'' [Lit ''v1'', Lit ''refunds'', Wild] ViewRefund_route,
      pattern ''GET'' [Lit ''v1'', Lit ''refunds'', Wild, Lit ''reconciliations''] ListReconciliations_route,
      pattern ''POST'' [Lit ''v1'', Lit ''refunds'', Wild, Lit ''recheck''] RefundRecheck_route]"

definition api_patterns :: "'d API \<Rightarrow> api_route mux_pattern list" where
  "api_patterns api =
     [pattern ''GET'' [Lit ''livez''] (\<lambda>_. Livez), pattern ''GET'' [Lit ''readyz''] (\<lambda>_. Readyz),
      pattern ''GET'' [Lit ''healthz''] (\<lambda>_. Readyz),
      pattern ''GET'' [Lit ''v1'', Lit ''payments''] (\<lambda>_. ListPayments_route),
      pattern ''POST'' [Lit ''v1'', Lit ''payments''] (\<lambda>_. CreatePayment_route),
      pattern ''GET'' [Lit ''v1'', Lit ''payments'', Wild] GetPayment_route,
      pattern ''POST'' [Lit ''v1'', Lit ''payments'', Wild, Lit ''cancel''] CancelPayment_route,
      pattern ''GET'' [Lit ''v1'', Lit ''webhooks'', Lit ''subscriptions''] (\<lambda>_. ListSubscriptions_route),
      pattern ''POST'' [Lit ''v1'', Lit ''webhooks'', Lit ''subscriptions''] (\<lambda>_. CreateSubscription_route),
      pattern ''GET'' [Lit ''v1'', Lit ''webhooks'', Lit ''subscriptions'', Wild] GetSubscription_route,
      pattern ''PATCH'' [Lit ''v1'', Lit ''webhooks'', Lit ''subscriptions'', Wild] PatchSubscription_route] @
     (case apRefundService api of None \<Rightarrow> [] | Some _ \<Rightarrow> registerRefunds)"

text \<open>The handler a route is registered with; routes of the refund service exist only with one.\<close>

definition on_refunds :: "'d API \<Rightarrow> ('d RefundRepository \<Rightarrow> api_response \<times> 'd) \<Rightarrow> 'd \<Rightarrow> api_response \<times> 'd" where
  "on_refunds api h d = (case apRefundService api of None \<Rightarrow> (writeError 404 '''', d) | Some repo \<Rightarrow> h repo)"

fun serve_route :: "'d API \<Rightarrow> api_lib \<Rightarrow> api_env \<Rightarrow> 'd \<Rightarrow> api_request \<Rightarrow> api_route \<Rightarrow> api_response \<times> 'd" where
  "serve_route api lib ev d r Livez = (handleLive, d)"
| "serve_route api lib ev d r Readyz = (handleReady api ev d, d)"
| "serve_route api lib ev d r ListPayments_route = requireUser api ev d r (handleListPayments api lib ev d r)"
| "serve_route api lib ev d r CreatePayment_route =
     requireUser api ev d r (\<lambda>u. withRateLimit api ev d ''payments:create'' u (\<lambda>d'. handleCreatePayment api lib ev d' r u))"
| "serve_route api lib ev d r (GetPayment_route i) = requireUser api ev d r (handleGetPayment api i lib ev d r)"
| "serve_route api lib ev d r (CancelPayment_route i) =
     requireUser api ev d r (\<lambda>u. withRateLimit api ev d ''payments:cancel'' u (\<lambda>d'. handleCancelPayment api i lib ev d' r u))"
| "serve_route api lib ev d r ListSubscriptions_route = requireUser api ev d r (handleListSubscriptions api lib ev d r)"
| "serve_route api lib ev d r CreateSubscription_route =
     requireUser api ev d r (\<lambda>u. withRateLimit api ev d ''webhooks:create'' u (\<lambda>d'. handleCreateSubscription api lib ev d' r u))"
| "serve_route api lib ev d r (GetSubscription_route i) = requireUser api ev d r (handleGetSubscription api i lib ev d r)"
| "serve_route api lib ev d r (PatchSubscription_route i) =
     requireUser api ev d r (\<lambda>u. withRateLimit api ev d ''webhooks:update'' u (\<lambda>d'. handlePatchSubscription api i lib ev d' r u))"
| "serve_route api lib ev d r CreateRefund_route =
     requireUser api ev d r (\<lambda>u. withRateLimit api ev d ''refunds:create'' u
       (\<lambda>d'. on_refunds api (\<lambda>repo. handleCreateRefund repo lib ev d' r u) d'))"
| "serve_route api lib ev d r RefundList_route =
     requireUser api ev d r (\<lambda>u. on_refunds api (\<lambda>repo. handleListRefunds repo lib ev d r u) d)"
| "serve_route api lib ev d r (ViewRefund_route i) =
     requireUser api ev d r (\<lambda>u. on_refunds api (\<lambda>repo. handleGetRefund repo i lib ev d r u) d)"
| "serve_route api lib ev d r (ListReconciliations_route i) =
     requireUser api ev d r (\<lambda>u. on_refunds api (\<lambda>repo. handleListReconciliations repo i lib ev d r u) d)"
| "serve_route api lib ev d r (RefundRecheck_route i) =
     requireUser api ev d r (\<lambda>u. withRateLimit api ev d ''refunds:recheck'' u
       (\<lambda>d'. on_refunds api (\<lambda>repo. handleRefundRecheck repo i lib ev d' r u) d'))"

definition cors_headers :: "(string \<times> string) list" where
  "cors_headers =
     [(''Access-Control-Allow-Origin'', ''*''),
      (''Access-Control-Allow-Headers'', ''Content-Type, Idempotency-Key, Authorization, X-Request-ID''),
      (''Access-Control-Allow-Methods'', ''GET, POST, PATCH, OPTIONS'')]"

definition withCORS :: "'d \<Rightarrow> api_request \<Rightarrow> api_response \<times> 'd \<Rightarrow> api_response \<times> 'd" where
  "withCORS d r served =
     add_headers cors_headers
       (if arMethod r = ''OPTIONS'' then (\<lparr>asStatus = 204, asHeaders = [], asBody = NoBody\<rparr>, d) else served)"

definition request_id :: "api_env \<Rightarrow> api_request \<Rightarrow> string" where
  "request_id ev r =
     (if header_get r ''X-Request-ID'' \<noteq> '''' then header_get r ''X-Request-ID''
      else ''req_'' @ dec (env_nano (aeStarted ev)) @ ''_'' @ dec (uint (env_seq (aeStarted ev))))"

definition withRequestLogging :: "api_env \<Rightarrow> api_request \<Rightarrow> api_response \<times> 'd \<Rightarrow> api_response \<times> 'd" where
  "withRequestLogging ev r served = add_headers [(''X-Request-ID'', request_id ev r)] served"

definition mux_answer :: "'d API \<Rightarrow> api_lib \<Rightarrow> api_env \<Rightarrow> 'd \<Rightarrow> api_request \<Rightarrow> api_response \<times> 'd" where
  "mux_answer api lib ev d r =
     (case serve_mux (api_patterns api) (arMethod r) (arPath r) of
        Inl code \<Rightarrow> (\<lparr>asStatus = code, asHeaders = [], asBody = NoBody\<rparr>, d)
      | Inr route \<Rightarrow> serve_route api lib ev d r route)"

definition NewRouter :: "'d API \<Rightarrow> api_lib \<Rightarrow> api_env \<Rightarrow> 'd \<Rightarrow> api_request \<Rightarrow> api_response \<times> 'd" where
  "NewRouter api lib ev d r = withRequestLogging ev r (withCORS d r (mux_answer api lib ev d r))"

section \<open>The API over the store\<close>

definition Ping :: "env \<Rightarrow> Store \<Rightarrow> go_error option" where
  "Ping e st = map_option (wrapf ''ping postgres'') (flt e ''ping postgres'')"

definition limiterAdapter :: "Limiter \<Rightarrow> Store rateLimiter" where
  "limiterAdapter lm =
     \<lparr>rlAllow = (\<lambda>e st scope now. on_pool st (Allow e (pool st) (Some lm) scope now)), rlLimit = Limit (Some lm)\<rparr>"

text \<open>The wiring of \<open>cmd/payment/main.go\<close>.\<close>

definition payment_api :: "jwt_codec \<Rightarrow> auth_config \<Rightarrow> (string \<Rightarrow> string) \<Rightarrow> int \<Rightarrow> Store API" where
  "payment_api jx cfg sha perMinute =
     \<lparr>apAuthenticator = Some (Authenticate jx cfg), apRefundService = Some (refund_repository_of sha),
      apPaymentService = payment_store sha, apWebhookService = webhook_store sha,
      apLimiter = (if perMinute > 0 then Some (limiterAdapter \<lparr>lmPool = True, lmLimit = perMinute, lmInterval = Minute\<rparr>) else None),
      apHealthChecker = Some Ping\<rparr>"

end
