(* ===== verification/HttpLaws.thy ===== *)
theory HttpLaws
  imports HttpApi Isolation
begin

text \<open>
  What the HTTP API promises. The interface \<open>api_backend\<close> names a relation that every call of a service for a user
  respects; its lemma says that a request either changes nothing or acts within that relation for the user its
  token stands for. The store provides it twice: for the runs of the system, so that every request is a run, and
  for what belongs to other users, so that a request touches only what its user owns.
\<close>

section \<open>The user of a request\<close>

definition request_user :: "'d API \<Rightarrow> api_env \<Rightarrow> api_request \<Rightarrow> string option" where
  "request_user api ev r =
     (case (apAuthenticator api, Fields (header_get r ''Authorization'')) of
        (Some authenticate, [scheme, token]) \<Rightarrow>
          if EqualFold_ascii scheme ''Bearer''
          then (case authenticate (aeUnix ev) token of Inl _ \<Rightarrow> None | Inr u \<Rightarrow> if u = '''' then None else Some u)
          else None
      | _ \<Rightarrow> None)"

lemma requireUser_Some: "request_user api ev r = Some u \<Longrightarrow> requireUser api ev d r next = next u"
  by (auto simp: request_user_def requireUser_def split: option.splits list.splits if_splits sum.splits)

lemma requireUser_None:
  "request_user api ev r = None \<Longrightarrow>
     asStatus (fst (requireUser api ev d r next)) = 401 \<and> snd (requireUser api ev d r next) = d"
  by (auto simp: request_user_def requireUser_def add_headers_def writeError_def writeJSON_def
      split: option.splits list.splits if_splits sum.splits)

lemma requireUser_cases:
  assumes "requireUser api ev d r next = (resp, d')"
  obtains "request_user api ev r = None" "asStatus resp = 401" "d' = d"
  | u where "request_user api ev r = Some u" "next u = (resp, d')"
  using assms requireUser_None [of api ev r d "next"] requireUser_Some [of api ev r _ d "next"]
  by (cases "request_user api ev r") auto

lemma add_headers_simps [simp]:
  "snd (add_headers hs x) = snd x" "asStatus (fst (add_headers hs x)) = asStatus (fst x)"
  "asBody (fst (add_headers hs x)) = asBody (fst x)"
  by (simp_all add: add_headers_def)

lemma respond_state [simp]: "snd (respond ok x) = snd x"
  by (simp add: respond_def)

section \<open>The interface\<close>

locale api_backend =
  fixes api :: "'d API" and acts :: "string \<Rightarrow> 'd \<Rightarrow> 'd \<Rightarrow> bool"
  assumes refl: "acts u d d" and trans: "acts u d d' \<Longrightarrow> acts u d' d'' \<Longrightarrow> acts u d d''"
    and payment_calls: "acts u d (snd (pyCreatePayment (apPaymentService api) e d u p h))"
      "acts u d (snd (pyGetPayment (apPaymentService api) e d u i))"
      "acts u d (snd (pyListPayments (apPaymentService api) e d u f))"
      "acts u d (snd (pyCancelPayment (apPaymentService api) e d u i t))"
    and webhook_calls: "acts u d (snd (whrCreate (apWebhookService api) e d u s))"
      "acts u d (snd (whrList (apWebhookService api) e d u))"
      "acts u d (snd (whrGet (apWebhookService api) e d u i))"
      "acts u d (snd (whrSetActive (apWebhookService api) e d u i b t))"
    and refund_calls: "apRefundService api = Some repo \<Longrightarrow> rUserID r = u \<Longrightarrow> acts u d (snd (rrCreateRefund repo e d r))"
      "apRefundService api = Some repo \<Longrightarrow> acts u d (snd (rrRequestRefundRecheck repo e d u i t))"
    and limiter_call: "apLimiter api = Some l \<Longrightarrow> acts u d (snd (rlAllow l e d scope t))"
begin

lemma limited:
  assumes "\<And>d'. acts u d' (snd (next d'))"
  shows "acts u d (snd (withRateLimit api ev d scope u next))"
proof (cases "apLimiter api")
  case (Some l)
  obtain res d1 where call: "rlAllow l (aeLimit ev) d (scope @ CHR '':'' # u) (aeLimitNow ev) = (res, d1)" by (rule prod.exhaust)
  then have "acts u d d1" using limiter_call [OF Some, of u d "aeLimit ev" "scope @ CHR '':'' # u" "aeLimitNow ev"] by simp
  then show ?thesis
    using assms [of d1] trans by (auto simp: withRateLimit_def Some call Let_def split: sum.splits)
qed (simp add: withRateLimit_def assms)

lemma payment_handlers:
  "acts u d (snd (handleCreatePayment api lib ev d r u))" "acts u d (snd (handleListPayments api lib ev d r u))"
  "acts u d (snd (handleGetPayment api i lib ev d r u))" "acts u d (snd (handleCancelPayment api i lib ev d r u))"
proof -
  have get: "acts u d (snd (svc_GetPayment (apPaymentService api) e d u i))" for d e
    by (simp add: svc_GetPayment_def refl payment_calls)
  then show "acts u d (snd (handleGetPayment api i lib ev d r u))" by (simp add: handleGetPayment_def)
  show "acts u d (snd (handleCreatePayment api lib ev d r u))"
    by (simp add: handleCreatePayment_def svc_CreatePayment_def Let_def refl payment_calls split: sum.split)
  show "acts u d (snd (handleListPayments api lib ev d r u))"
    by (simp add: handleListPayments_def svc_ListPayments_def Let_def refl payment_calls split: sum.split)
  obtain res d1 where c: "svc_CancelPayment (apPaymentService api) (aeService ev) (aeCall ev) d u i = (res, d1)" by (rule prod.exhaust)
  then have "acts u d d1"
    using payment_calls(4) [of u d "aeCall ev" i "env_now (aeService ev)"] by (auto simp: svc_CancelPayment_def refl split: if_splits)
  then show "acts u d (snd (handleCancelPayment api i lib ev d r u))"
    using get [of d1 "aeReread ev"] trans by (auto simp: handleCancelPayment_def c split: sum.split)
qed

lemma webhook_handlers:
  "acts u d (snd (handleListSubscriptions api lib ev d r u))" "acts u d (snd (handleCreateSubscription api lib ev d r u))"
  "acts u d (snd (handleGetSubscription api i lib ev d r u))" "acts u d (snd (handlePatchSubscription api i lib ev d r u))"
proof -
  have get: "acts u d (snd (svc_GetSubscription (apWebhookService api) e d u i))" for d e
    by (simp add: svc_GetSubscription_def refl webhook_calls)
  then show "acts u d (snd (handleGetSubscription api i lib ev d r u))" by (simp add: handleGetSubscription_def)
  show "acts u d (snd (handleListSubscriptions api lib ev d r u))"
    by (simp add: handleListSubscriptions_def svc_ListSubscriptions_def refl webhook_calls)
  show "acts u d (snd (handleCreateSubscription api lib ev d r u))"
    by (simp add: handleCreateSubscription_def svc_CreateSubscription_def Let_def refl webhook_calls split: sum.split)
  have "acts u d d1" if "svc_SetSubscriptionActive (apWebhookService api) (aeService ev) (aeCall ev) d u i b = (res, d1)" for b res d1
    using that webhook_calls(4) [of u d "aeCall ev" i b "env_now (aeService ev)"]
    by (auto simp: svc_SetSubscriptionActive_def refl split: if_splits)
  then show "acts u d (snd (handlePatchSubscription api i lib ev d r u))"
    using get trans by (auto simp: handlePatchSubscription_def refl split: sum.split option.split prod.split) blast
qed

lemma refund_handlers:
  assumes "apRefundService api = Some repo"
  shows "acts u d (snd (handleCreateRefund repo lib ev d r u))" "snd (handleGetRefund repo i lib ev d r u) = d"
    "snd (handleListRefunds repo lib ev d r u) = d" "snd (handleListReconciliations repo i lib ev d r u) = d"
    "acts u d (snd (handleRefundRecheck repo i lib ev d r u))"
  using refund_calls [OF assms]
  by (auto simp: handleCreateRefund_def svc_Create_def handleGetRefund_def handleListRefunds_def handleListReconciliations_def
      handleRefundRecheck_def svc_Recheck_def Let_def new_refund_def refl split: sum.split option.split)

lemma refund_handlers_on:
  "acts u d (snd (on_refunds api (\<lambda>repo. handleCreateRefund repo lib ev d r u) d))"
  "acts u d (snd (on_refunds api (\<lambda>repo. handleGetRefund repo i lib ev d r u) d))"
  "acts u d (snd (on_refunds api (\<lambda>repo. handleListRefunds repo lib ev d r u) d))"
  "acts u d (snd (on_refunds api (\<lambda>repo. handleListReconciliations repo i lib ev d r u) d))"
  "acts u d (snd (on_refunds api (\<lambda>repo. handleRefundRecheck repo i lib ev d r u) d))"
  by (auto simp: on_refunds_def refund_handlers refl split: option.split)

lemma route_acts:
  "snd (serve_route api lib ev d r route) = d \<or>
   (\<exists>u. request_user api ev r = Some u \<and> acts u d (snd (serve_route api lib ev d r route)))"
proof (cases "request_user api ev r")
  case None
  then show ?thesis by (cases route) (simp_all add: requireUser_None)
next
  case (Some u)
  have "acts u d (snd (serve_route api lib ev d r route))"
    by (cases route)
      (simp_all add: requireUser_Some [OF Some] refl limited payment_handlers webhook_handlers refund_handlers_on)
  with Some show ?thesis by blast
qed

lemma request_acts:
  assumes "NewRouter api lib ev d r = (resp, d')"
  shows "d' = d \<or> (\<exists>u. request_user api ev r = Some u \<and> acts u d d')"
proof -
  have "d' = snd (withCORS d r (mux_answer api lib ev d r))" using assms by (auto simp: NewRouter_def withRequestLogging_def dest: arg_cong [of _ _ snd])
  then show ?thesis using route_acts [of lib ev d r] by (auto simp: withCORS_def mux_answer_def split: sum.splits if_splits)
qed

end

section \<open>Requests are runs of the system\<close>

definition process_runs :: "(string \<Rightarrow> string) \<Rightarrow> int \<Rightarrow> string \<Rightarrow> Store \<Rightarrow> Store \<Rightarrow> bool" where
  "process_runs sha M u st st' \<longleftrightarrow> (\<forall>s i. proc s i = st \<longrightarrow> run sha M s (put_proc s i st'))"



lemma proc_put [simp]: "proc (put_proc s i st) i = st" "put_proc (put_proc s i st) i st' = put_proc s i st'"
  "put_proc s i (proc s i) = s"
  by (simp_all add: put_proc_def proc_def)

lemma process_runs_step:
  "(\<And>s i. proc s i = st \<Longrightarrow> sys_step sha M s (put_proc s i (snd x))) \<Longrightarrow> process_runs sha M u st (snd x)"
  by (auto simp: process_runs_def)

lemma process_runs_pool:
  assumes "\<And>s. pool st = sdb s \<Longrightarrow> sys_step sha M s (s\<lparr>sdb := snd x\<rparr>)"
  shows "process_runs sha M u st (snd (on_pool st x))"
proof -
  have "put_proc s i (snd (on_pool st x)) = s\<lparr>sdb := snd x\<rparr> \<and> sdb s = pool st" if "proc s i = st" for s i
    using that by (auto simp: on_pool_def put_proc_def proc_def split: prod.splits)
  with assms show ?thesis by (auto simp: process_runs_def)
qed

lemmas api_store_simps = payment_api_def payment_store_def webhook_store_def refund_repository_of_def limiterAdapter_def

interpretation api_runs: api_backend "payment_api jx cfg sha perMinute" "process_runs sha M" for jx cfg sha perMinute M
proof (unfold_locales, goal_cases)
  case (1 u d)
  show ?case by (auto simp: process_runs_def)
next
  case (2 u d d' d'')
  then show ?case unfolding process_runs_def by (metis proc_put(1,2) rtranclp_trans)
next
  case (3 u d e p h)
  show ?case unfolding api_store_simps by (simp, rule process_runs_step) (auto intro: sys_step.create_payment [OF surjective_pairing])
next
  case (4 u d e i)
  show ?case unfolding api_store_simps by (simp, rule process_runs_step) (auto intro: sys_step.get_payment [OF surjective_pairing])
next
  case (5 u d e f)
  show ?case unfolding api_store_simps by (simp, rule process_runs_step) (auto intro: sys_step.list_payments [OF surjective_pairing])
next
  case (6 u d e i t)
  show ?case unfolding api_store_simps by (simp, rule process_runs_step) (auto intro: sys_step.cancel_payment [OF surjective_pairing])
next
  case (7 u d e s)
  show ?case unfolding api_store_simps by (simp, rule process_runs_step) (auto intro: sys_step.create_subscription [OF surjective_pairing])
next
  case (8 u d e)
  show ?case unfolding api_store_simps by (simp, rule process_runs_step) (auto intro: sys_step.list_subscriptions [OF surjective_pairing])
next
  case (9 u d e i)
  show ?case unfolding api_store_simps by (simp, rule process_runs_step) (auto intro: sys_step.get_subscription [OF surjective_pairing])
next
  case (10 u d e i b t)
  show ?case unfolding api_store_simps by (simp, rule process_runs_step) (auto intro: sys_step.set_subscription [OF surjective_pairing])
next
  case (11 repo r u d e)
  then show ?case by (simp add: api_store_simps) (auto intro!: process_runs_step intro: sys_step.create_refund [OF surjective_pairing])
next
  case (12 repo u d e i t)
  then show ?case by (auto simp: api_store_simps intro!: process_runs_pool sys_step.recheck [OF surjective_pairing])
next
  case (13 l u d e scope t)
  then show ?case by (auto simp: api_store_simps intro!: process_runs_pool sys_step.allow [OF surjective_pairing] split: if_splits)
qed

section \<open>Requests touch only what their user owns\<close>

definition refunds_of :: "string \<Rightarrow> db \<Rightarrow> Refund set" where
  "refunds_of v d = {r \<in> set (refunds d). rUserID r = v}"



lemma ensure_tx_refunds:
  assumes "(case ensureUserSchema sha e st user of
        (Inl err, s1) \<Rightarrow> (Inl err, s1)
      | (Inr t, s1) \<Rightarrow> (case run_tx wr e lb lc (pool s1) (body t) of (res, d) \<Rightarrow> (res, s1\<lparr>pool := d\<rparr>))) = (r, st')"
    and "store_inv sha st" and body: "\<And>t d x d1. body t d = Inr (x, Some d1) \<Longrightarrow> refunds_of v d1 = refunds_of v d"
  shows "refunds_of v (pool st') = refunds_of v (pool st)"
proof -
  obtain res1 s1 where ens: "ensureUserSchema sha e st user = (res1, s1)" by (rule prod.exhaust)
  have same: "refunds (pool s1) = refunds (pool st)"
    using ensureUserSchema_effect(2) [OF ens assms(2)] schema_ext_frame by blast
  have "refunds_of v d = refunds_of v (pool s1)" if "run_tx wr e lb lc (pool s1) (body t) = (res, d)" for t res d
    using run_tx_atomic [OF that] body by auto
  then have "refunds_of v (pool st') = refunds_of v (pool s1)"
    using assms(1) ens by (auto split: sum.splits prod.splits)
  with same show ?thesis by (simp add: refunds_of_def)
qed

lemma tx_refunds_of:
  "create_payment_tx e tbl user p hash d = Inr (x1, Some d') \<Longrightarrow> refunds_of v d' = refunds_of v d"
  "cancel_payment_tx e tbl user i c d = Inr (x2, Some d') \<Longrightarrow> refunds_of v d' = refunds_of v d"
  "create_subscription_tx e tbl sub d = Inr (x3, Some d') \<Longrightarrow> refunds_of v d' = refunds_of v d"
  "set_subscription_tx e tbl i active c d = Inr (x4, Some d') \<Longrightarrow> refunds_of v d' = refunds_of v d"
  "create_refund_tx e tbl r d = Inr (x5, Some d') \<Longrightarrow> v \<noteq> rUserID r \<Longrightarrow> refunds_of v d' = refunds_of v d"
proof -
  show "create_payment_tx e tbl user p hash d = Inr (x1, Some d') \<Longrightarrow> refunds_of v d' = refunds_of v d"
    by (elim create_payment_tx_effect) (simp add: refunds_of_def)
  show "cancel_payment_tx e tbl user i c d = Inr (x2, Some d') \<Longrightarrow> refunds_of v d' = refunds_of v d"
    by (elim cancel_payment_tx_effect) (simp add: refunds_of_def)
  have hook: "d' = d\<lparr>webhooks_tables := w\<rparr> \<Longrightarrow> refunds_of v d' = refunds_of v d" for w by (simp add: refunds_of_def)
  show "create_subscription_tx e tbl sub d = Inr (x3, Some d') \<Longrightarrow> refunds_of v d' = refunds_of v d"
    "set_subscription_tx e tbl i active c d = Inr (x4, Some d') \<Longrightarrow> refunds_of v d' = refunds_of v d"
    using webhook_tx_effects hook by blast+
  show "refunds_of v d' = refunds_of v d" if run: "create_refund_tx e tbl r d = Inr (x5, Some d')" and v: "v \<noteq> rUserID r"
  proof -
    from run obtain p :: Payment and new where "insert_refund (new_refund_row (r\<lparr>rCurrency := pCurrency p\<rparr>)) d = Inr (new, d')"
      by (elim create_refund_tx_effect) (rule that)
    from insert_refund_Inr(1,7) [OF this] v show ?thesis by (auto simp: refunds_of_def new_refund_row_def)
  qed
qed

lemma refunds_of_ops:
  assumes inv: "store_inv sha st"
  shows "CreatePayment sha e st user p h = (r1, st') \<Longrightarrow> refunds_of v (pool st') = refunds_of v (pool st)"
    and "CancelPayment sha e st user x c = (r2, st') \<Longrightarrow> refunds_of v (pool st') = refunds_of v (pool st)"
    and "CreateSubscription sha e st user sub = (r3, st') \<Longrightarrow> refunds_of v (pool st') = refunds_of v (pool st)"
    and "SetSubscriptionActive sha e st user x b c = (r4, st') \<Longrightarrow> refunds_of v (pool st') = refunds_of v (pool st)"
    and "CreateRefund sha e st r = (r5, st') \<Longrightarrow> v \<noteq> rUserID r \<Longrightarrow> refunds_of v (pool st') = refunds_of v (pool st)"
proof -
  note tx = ensure_tx_refunds [OF _ inv]
  show "CreatePayment sha e st user p h = (r1, st') \<Longrightarrow> refunds_of v (pool st') = refunds_of v (pool st)"
    unfolding CreatePayment_def by (erule tx) (rule tx_refunds_of(1))
  show "CancelPayment sha e st user x c = (r2, st') \<Longrightarrow> refunds_of v (pool st') = refunds_of v (pool st)"
    unfolding CancelPayment_def by (erule tx) (rule tx_refunds_of(2))
  show "CreateSubscription sha e st user sub = (r3, st') \<Longrightarrow> refunds_of v (pool st') = refunds_of v (pool st)"
    unfolding CreateSubscription_def by (erule tx) (rule tx_refunds_of(3))
  show "SetSubscriptionActive sha e st user x b c = (r4, st') \<Longrightarrow> refunds_of v (pool st') = refunds_of v (pool st)"
    unfolding SetSubscriptionActive_def by (erule tx) (rule tx_refunds_of(4))
  show "CreateRefund sha e st r = (r5, st') \<Longrightarrow> v \<noteq> rUserID r \<Longrightarrow> refunds_of v (pool st') = refunds_of v (pool st)"
    unfolding CreateRefund_def by (erule tx) (rule tx_refunds_of(5))
qed

lemma read_ops:
  "GetPayment sha e st u x = (r1, st') \<Longrightarrow> \<exists>res. ensureUserSchema sha e st u = (res, st')"
  "ListPayments sha e st u f = (r2, st') \<Longrightarrow> \<exists>res. ensureUserSchema sha e st u = (res, st')"
  "ListSubscriptions sha e st u = (r3, st') \<Longrightarrow> \<exists>res. ensureUserSchema sha e st u = (res, st')"
  "GetSubscription sha e st u x = (r4, st') \<Longrightarrow> \<exists>res. ensureUserSchema sha e st u = (res, st')"
  by (auto simp: GetPayment_def ListPayments_def ListSubscriptions_def GetSubscription_def split: prod.splits sum.splits)

lemma recheck_refunds_of:
  assumes "RequestRefundRecheck e d u i t = (res, d')" and "refunds_inv M d" and "v \<noteq> u"
  shows "refunds_of v d' = refunds_of v d \<and> payments_tables d' = payments_tables d \<and> webhooks_tables d' = webhooks_tables d"
proof -
  have "refunds_of v d1 = refunds_of v d \<and> payments_tables d1 = payments_tables d \<and> webhooks_tables d1 = webhooks_tables d"
    if tx: "recheck_tx e u i t d = Inr (new, Some d1)" for new d1
  proof -
    from tx obtain old where old: "find (\<lambda>r. rUserID r = u \<and> rID r = i) (refunds d) = Some old"
        "refund_row_step M old new" "d1 = put_refund old new d"
      by (rule recheck_tx_effect [where M = M])
    then have o: "old \<in> set (refunds d)" "rUserID old = u" "rUserID new = u"
      using refund_row_step_identity [OF old(2)] by (auto dest: find_Some_set simp: same_identity_def)
    show ?thesis using put_refund_rows [OF assms(2) o(1), of new] o assms(3) old(3)
      by (auto simp: refunds_of_def put_refund_def)
  qed
  then show ?thesis using run_tx_atomic [OF assms(1) [unfolded RequestRefundRecheck_def]] by auto
qed

text \<open>What a call for a user keeps: the invariants, and all that belongs to other registered users.\<close>

definition owns :: "(string \<Rightarrow> string) \<Rightarrow> string \<Rightarrow> Store \<Rightarrow> Store \<Rightarrow> bool" where
  "owns sha u st st' \<longleftrightarrow>
     (\<forall>v. registered (pool st) v \<longrightarrow> registered (pool st') v \<and>
       (v \<noteq> u \<longrightarrow> tables_of sha v (pool st') = tables_of sha v (pool st) \<and> refunds_of v (pool st') = refunds_of v (pool st)))"

definition keeps_others :: "(string \<Rightarrow> string) \<Rightarrow> int \<Rightarrow> string \<Rightarrow> Store \<Rightarrow> Store \<Rightarrow> bool" where
  "keeps_others sha M u st st' \<longleftrightarrow>
     (0 \<le> M \<and> TrimSpace u = u \<and> store_inv sha st \<and> db_inv sha M (pool st) \<longrightarrow>
        store_inv sha st' \<and> db_inv sha M (pool st') \<and> owns sha u st st')"

lemma keeps_othersI:
  assumes "\<And>t. 0 \<le> M \<Longrightarrow> TrimSpace u = u \<Longrightarrow> store_inv sha st \<Longrightarrow> db_inv sha M (pool st) \<Longrightarrow> op_good sha M st st' \<and>
      (\<forall>v. registered (pool st) v \<longrightarrow> v \<noteq> u \<longrightarrow> leaves_alone sha v st st' \<and> refunds_of v (pool st') = refunds_of v (pool st))"
  shows "keeps_others sha M u st st'"
  using assms by (auto simp: keeps_others_def op_good_def good_def owns_def leaves_alone_def)

lemma keeps_others_trans: "keeps_others sha M u a b \<Longrightarrow> keeps_others sha M u b c \<Longrightarrow> keeps_others sha M u a c"
  by (auto simp: keeps_others_def owns_def)

lemma reads_keep:
  assumes "ensureUserSchema sha e st u' = (res, st')"
  shows "keeps_others sha M u st st'"
proof (rule keeps_othersI, intro conjI allI impI)
  assume inv: "store_inv sha st" "db_inv sha M (pool st)"
  then show "op_good sha M st st'" by (rule ensure_op_good [OF assms])
  fix v
  assume "registered (pool st) v"
  then show "leaves_alone sha v st st'" by (rule isolated_ensure [OF assms inv(1)])
  show "refunds_of v (pool st') = refunds_of v (pool st)" using ensure_good(3) [OF assms inv] by (simp add: refunds_of_def)
qed

lemma writes_keep:
  assumes "0 \<le> M \<Longrightarrow> TrimSpace u = u \<Longrightarrow> store_inv sha st \<Longrightarrow> db_inv sha M (pool st) \<Longrightarrow> op_good sha M st st'"
    and "\<And>v. store_inv sha st \<Longrightarrow> registered (pool st) v \<Longrightarrow> v \<noteq> TrimSpace u \<Longrightarrow> leaves_alone sha v st st'"
    and "\<And>v. store_inv sha st \<Longrightarrow> v \<noteq> u \<Longrightarrow> refunds_of v (pool st') = refunds_of v (pool st)"
  shows "keeps_others sha M u st st'"
  using assms by (intro keeps_othersI) auto

lemma store_writes_keep:
  "CreatePayment sha e st u p h = (r1, st') \<Longrightarrow> keeps_others sha M u st st'"
  "CancelPayment sha e st u x c = (r2, st') \<Longrightarrow> keeps_others sha M u st st'"
  "CreateSubscription sha e st u sub = (r3, st') \<Longrightarrow> keeps_others sha M u st st'"
  "SetSubscriptionActive sha e st u x b c = (r4, st') \<Longrightarrow> keeps_others sha M u st st'"
  "CreateRefund sha e st r = (r5, st') \<Longrightarrow> rUserID r = u \<Longrightarrow> keeps_others sha M u st st'"
proof -
  show "CreatePayment sha e st u p h = (r1, st') \<Longrightarrow> keeps_others sha M u st st'"
    by (rule writes_keep) (rule store_ops_good(1) isolated_ops(1) refunds_of_ops(1); assumption)+
  show "CancelPayment sha e st u x c = (r2, st') \<Longrightarrow> keeps_others sha M u st st'"
    by (rule writes_keep) (rule store_ops_good(4) isolated_ops(2) refunds_of_ops(2); assumption)+
  show "CreateSubscription sha e st u sub = (r3, st') \<Longrightarrow> keeps_others sha M u st st'"
    by (rule writes_keep) (rule store_ops_good(5) isolated_ops(3) refunds_of_ops(3); assumption)+
  show "SetSubscriptionActive sha e st u x b c = (r4, st') \<Longrightarrow> keeps_others sha M u st st'"
    by (rule writes_keep) (rule store_ops_good(8) isolated_ops(4) refunds_of_ops(4); assumption)+
  show "CreateRefund sha e st r = (r5, st') \<Longrightarrow> rUserID r = u \<Longrightarrow> keeps_others sha M u st st'"
    by (rule writes_keep) (auto intro: store_ops_good(9) isolated_ops(5) simp: refunds_of_ops(5))
qed

lemma pool_writes_keep:
  "RequestRefundRecheck e (pool st) u i t = (r1, d) \<Longrightarrow> keeps_others sha M u st (st\<lparr>pool := d\<rparr>)"
  "Allow e (pool st) l scope t = (r2, d) \<Longrightarrow> keeps_others sha M u st (st\<lparr>pool := d\<rparr>)"
proof -
  have keep: "keeps_others sha M u st (st\<lparr>pool := d\<rparr>)"
    if "db_inv sha M (pool st) \<Longrightarrow> good sha M (pool st) d"
      and "\<And>v. refunds_inv M (pool st) \<Longrightarrow> v \<noteq> u \<Longrightarrow> refunds_of v d = refunds_of v (pool st) \<and>
        payments_tables d = payments_tables (pool st) \<and> webhooks_tables d = webhooks_tables (pool st)"
    using that by (intro keeps_othersI) (auto simp: op_good_def store_inv_pool leaves_alone_def tables_of_def db_inv_def)
  show "RequestRefundRecheck e (pool st) u i t = (r1, d) \<Longrightarrow> keeps_others sha M u st (st\<lparr>pool := d\<rparr>)"
    by (rule keep) (rule refund_ops_good(1) recheck_refunds_of; assumption)+
  show "keeps_others sha M u st (st\<lparr>pool := d\<rparr>)" if a: "Allow e (pool st) l scope t = (r2, d)"
  proof (rule keep)
    from allow_effect [OF a] obtain w where d: "d = pool st\<lparr>rate_limit_windows := w\<rparr>" by blast
    show "refunds_of v d = refunds_of v (pool st) \<and> payments_tables d = payments_tables (pool st) \<and>
        webhooks_tables d = webhooks_tables (pool st)" for v
      by (simp add: d refunds_of_def)
  qed (rule allow_good [OF _ a])
qed

interpretation api_owner: api_backend "payment_api jx cfg sha perMinute" "keeps_others sha M" for jx cfg sha perMinute M
proof (unfold_locales, goal_cases)
  case (1 u d)
  show ?case by (simp add: keeps_others_def owns_def)
next
  case (2 u d d' d'')
  then show ?case by (rule keeps_others_trans)
next
  case (3 u d e p h)
  show ?case by (simp add: api_store_simps store_writes_keep(1) [OF surjective_pairing])
next
  case (4 u d e i)
  show ?case using read_ops(1) [OF surjective_pairing] by (simp add: api_store_simps) (blast intro: reads_keep)
next
  case (5 u d e f)
  show ?case using read_ops(2) [OF surjective_pairing] by (simp add: api_store_simps) (blast intro: reads_keep)
next
  case (6 u d e i t)
  show ?case by (simp add: api_store_simps store_writes_keep(2) [OF surjective_pairing])
next
  case (7 u d e s)
  show ?case by (simp add: api_store_simps store_writes_keep(3) [OF surjective_pairing])
next
  case (8 u d e)
  show ?case using read_ops(3) [OF surjective_pairing] by (simp add: api_store_simps) (blast intro: reads_keep)
next
  case (9 u d e i)
  show ?case using read_ops(4) [OF surjective_pairing] by (simp add: api_store_simps) (blast intro: reads_keep)
next
  case (10 u d e i b t)
  show ?case by (simp add: api_store_simps store_writes_keep(4) [OF surjective_pairing])
next
  case (11 repo r u d e)
  then show ?case by (auto simp: api_store_simps intro: store_writes_keep(5) [OF surjective_pairing])
next
  case (12 repo u d e i t)
  then show ?case
    by (auto simp: api_store_simps on_pool_def pool_writes_keep(1) [OF surjective_pairing])
next
  case (13 l u d e scope t)
  then show ?case
    by (auto simp: api_store_simps on_pool_def pool_writes_keep(2) [OF surjective_pairing] split: if_splits)
qed

section \<open>Internal errors stay inside\<close>

definition discreet :: "api_response \<Rightarrow> bool" where
  "discreet resp \<longleftrightarrow>
     asStatus resp < 500 \<or> asBody resp = ErrorBody ''internal server error'' \<or>
     asBody resp = StatusBody ''unavailable'' (Some ''database ping failed'')"

lemma discreet_simps [simp]:
  "discreet (writeServiceError err)" "status < 500 \<Longrightarrow> discreet (writeError status msg)" "status < 500 \<Longrightarrow> discreet (writeJSON status v)"
  "discreet (writeError status ''internal server error'')" "discreet (fst (add_headers hs x)) \<longleftrightarrow> discreet (fst x)"
  by (simp_all add: discreet_def writeServiceError_def writeError_def writeJSON_def)

lemma discreet_answer [simp]: "(\<And>v. discreet (ok v)) \<Longrightarrow> discreet (fst (respond ok x))"
  by (simp add: respond_def split: sum.split)

lemma discreet_handlers [simp]:
  "discreet (fst (handleCreatePayment api lib ev d r u))" "discreet (fst (handleListPayments api lib ev d r u))"
  "discreet (fst (handleGetPayment api i lib ev d r u))" "discreet (fst (handleCancelPayment api i lib ev d r u))"
  "discreet (fst (handleListSubscriptions api lib ev d r u))" "discreet (fst (handleCreateSubscription api lib ev d r u))"
  "discreet (fst (handleGetSubscription api i lib ev d r u))" "discreet (fst (handlePatchSubscription api i lib ev d r u))"
  by (simp_all add: handleCreatePayment_def handleListPayments_def handleGetPayment_def handleCancelPayment_def
      handleListSubscriptions_def handleCreateSubscription_def handleGetSubscription_def handlePatchSubscription_def Let_def
      split: sum.split prod.split option.split)

lemma discreet_refund_handlers [simp]:
  "discreet (fst (handleCreateRefund repo lib ev d r u))" "discreet (fst (handleGetRefund repo i lib ev d r u))"
  "discreet (fst (handleListRefunds repo lib ev d r u))" "discreet (fst (handleListReconciliations repo i lib ev d r u))"
  "discreet (fst (handleRefundRecheck repo i lib ev d r u))"
  by (simp_all add: handleCreateRefund_def handleGetRefund_def handleListRefunds_def handleListReconciliations_def
      handleRefundRecheck_def split: sum.split prod.split option.split)

lemma discreet_chain [simp]:
  "(\<And>u. discreet (fst (next u))) \<Longrightarrow> discreet (fst (requireUser api ev d r next))"
  "(\<And>d. discreet (fst (inner d))) \<Longrightarrow> discreet (fst (withRateLimit api ev d scope u inner))"
  "(\<And>repo. discreet (fst (h repo))) \<Longrightarrow> discreet (fst (on_refunds api h d))"
  by (simp_all add: requireUser_def withRateLimit_def on_refunds_def Let_def
      split: option.split list.split sum.split prod.split)

lemma discreet_ready [simp]: "discreet (handleReady api ev d)"
  by (simp add: handleReady_def split: option.split) (simp add: discreet_def writeJSON_def)

lemma discreet_route [simp]: "discreet (fst (serve_route api lib ev d r route))"
  by (cases route) (simp_all add: handleLive_def)

lemma discreet_router: "discreet (fst (NewRouter api lib ev d r))"
proof -
  have "serve_mux (api_patterns api) (arMethod r) (arPath r) = Inl code \<Longrightarrow> code < 500" for code
    using serve_mux_Inl by fastforce
  then have "discreet (fst (mux_answer api lib ev d r))"
    by (simp add: mux_answer_def split: sum.split) (simp add: discreet_def)
  then show ?thesis by (simp add: NewRouter_def withRequestLogging_def withCORS_def) (simp add: discreet_def)
qed

section \<open>Bounds\<close>

text \<open>The offset of a refund listing cannot overflow, and the service never refuses what the handler accepted.\<close>

lemma refundPagination_bounds:
  assumes "refundPagination r = Inr (limit, offset)"
  shows "1 \<le> limit \<and> limit \<le> 100 \<and> 0 \<le> offset \<and> offset \<le> 99999900"
proof -
  from assms obtain page where p: "parsePositiveIntQuery r ''page'' 1 = Inr page" "parsePositiveIntQuery r ''size'' 20 = Inr limit"
    "limit \<le> 100" "page \<le> 1000000" "offset = wrap64 (wrap64 (page - 1) * limit)"
    by (auto simp: refundPagination_def split: sum.splits if_splits)
  have "1 \<le> page" "1 \<le> limit" using p(1,2) by (auto simp: parsePositiveIntQuery_def Let_def split: if_splits option.splits)
  moreover from this p(3,4) have "0 \<le> (page - 1) * limit" "(page - 1) * limit \<le> 999999 * 100"
    using mult_mono [of "page - 1" 999999 limit 100] by auto
  moreover from this have "wrap64 ((page - 1) * limit) = (page - 1) * limit" "wrap64 (page - 1) = page - 1"
    using \<open>1 \<le> page\<close> p(4) by (auto simp: int64_def min_int64_def max_int64_def intro!: wrap64_id)
  ultimately show ?thesis using p(3,5) by auto
qed

text \<open>The header of a refusal tells whole seconds, at least one and never more than the wait when that is a second or longer.\<close>

lemma retry_seconds_bounds:
  assumes "0 \<le> d"
  shows "1 \<le> retry_seconds d" and "Second \<le> d \<Longrightarrow> retry_seconds d * Second \<le> d \<and> d < (retry_seconds d + 1) * Second"
proof -
  have "d sdiv Second = d div Second" using assms by (cases "d = 0") (simp_all add: signed_divide_int_def Second_def)
  moreover have "d div Second * Second \<le> d" "d < (d div Second + 1) * Second" using assms by (auto simp: Second_def)
  moreover have "Second \<le> d \<Longrightarrow> 1 \<le> d div Second" by (simp add: Second_def)
  ultimately show "1 \<le> retry_seconds d" "Second \<le> d \<Longrightarrow> retry_seconds d * Second \<le> d \<and> d < (retry_seconds d + 1) * Second"
    by (auto simp: retry_seconds_def Let_def)
qed

section \<open>The user of an issued token\<close>

text \<open>Printable ASCII characters other than the space.\<close>

definition graphic :: "char \<Rightarrow> bool" where
  "graphic c \<longleftrightarrow> 32 < (of_char c :: nat) \<and> (of_char c :: nat) < 127"

lemma graphic_no_space: "graphic c \<Longrightarrow> strip_first utf8_spaces (c # s) = None"
proof -
  assume "graphic c"
  then have "char_of (n :: nat) = c \<Longrightarrow> n mod 256 \<in> {33..<127}" for n by (auto simp: graphic_def)
  from this [of 9] this [of 10] this [of 11] this [of 12] this [of 13] this [of 32] this [of 194] this [of 225] this [of 226] this [of 227]
  show ?thesis by (auto simp: utf8_spaces_def)
qed

lemma fields_from_graphic: "list_all graphic s \<Longrightarrow> fields_from cur (s @ t) = fields_from (rev s @ cur) t"
proof (induction s arbitrary: cur)
  case (Cons c s)
  then show ?case using graphic_no_space [of c "s @ t"] by (simp add: fields_from.simps [of cur "c # s @ t"])
qed simp

lemma Fields_pair:
  assumes "list_all graphic a" and "list_all graphic b" and "a \<noteq> ''''" and "b \<noteq> ''''"
  shows "Fields (a @ '' '' @ b) = [a, b]"
proof -
  have space: "strip_first utf8_spaces (CHR '' '' # s) = Some s" for s
  proof -
    have "char_of (32 :: nat) = CHR '' ''" "char_of (9 :: nat) \<noteq> CHR '' ''" "char_of (10 :: nat) \<noteq> CHR '' ''"
      "char_of (11 :: nat) \<noteq> CHR '' ''" "char_of (12 :: nat) \<noteq> CHR '' ''" "char_of (13 :: nat) \<noteq> CHR '' ''" by code_simp+
    then show ?thesis by (simp add: utf8_spaces_def)
  qed
  have "strip_first utf8_spaces '''' = None" by (simp add: utf8_spaces_def)
  then have "fields_from (rev b) '''' = [b]" using assms(4) by (simp add: fields_from.simps)
  moreover have "fields_from [] (b @ '''') = fields_from (rev b) ''''" using fields_from_graphic [OF assms(2), of "[]" "''''"] by simp
  moreover have "fields_from (rev a) (CHR '' '' # b) = a # fields_from [] b"
    using assms(3) by (simp add: fields_from.simps [of "rev a"] space)
  ultimately show ?thesis using fields_from_graphic [OF assms(1), of "[]" "CHR '' '' # b"] by (simp add: Fields_def)
qed

lemma graphic_b64: "n < 64 \<Longrightarrow> graphic (b64_char n)"
  by (auto simp: graphic_def b64_char_def)

lemma graphic_encode: "list_all graphic (b64_encode s)"
  by (induction s rule: b64_encode.induct) (simp_all add: graphic_b64 bytes)

text \<open>A request that carries an issued token acts for its subject exactly during the token's lifetime.\<close>

lemma bearer_user:
  assumes "Issue jx cfg now subject ttl = Inr token" and "length token \<le> 4096" and "0 < now" and "now + ttl div Second < 2 ^ 63"
    and "jxDecodeHeader jx (jxHeader jx issued_header) = Some issued_header"
    and "jxDecodeClaims jx (jxClaims jx (issued_claims cfg subject ttl now)) = Some (issued_claims cfg subject ttl now)"
    and "header_get r ''Authorization'' = ''Bearer '' @ token"
  shows "request_user (payment_api jx cfg sha perMinute) ev r =
    (if now \<le> aeUnix ev \<and> aeUnix ev < now + ttl div Second then Some subject else None)"
proof -
  have ok: "validSubject subject" "Second \<le> ttl" "ttl \<le> 24 * Hour" using assms(1) by (auto simp: Issue_def split: if_splits)
  have "list_all graphic token \<and> token \<noteq> ''''"
    using assms(1) by (auto simp: Issue_def Let_def graphic_encode graphic_def split: if_splits)
  moreover have "list_all graphic ''Bearer''" by (simp add: graphic_def)
  ultimately have "Fields (''Bearer '' @ token) = [''Bearer'', token]" using Fields_pair [of "''Bearer''" token] by simp
  moreover have "Authenticate jx cfg (aeUnix ev) token =
      (if now \<le> aeUnix ev \<and> aeUnix ev < now + ttl div Second then Inr subject else Inl ErrInvalidToken)"
    using Issue_Inr [OF assms(1,2,5,6)] issued_claims_ok [OF ok assms(3,4)] by simp
  moreover have "subject \<noteq> ''''" using ok(1) by (auto simp: validSubject_def)
  ultimately show ?thesis using assms(7) by (simp add: request_user_def payment_api_def EqualFold_ascii_def)
qed

end
