(* ===== verification/EventLog.thy ===== *)
theory EventLog
  imports Domain
begin

text \<open>
  The event-sourced side of the program: the append-only file of events (\<open>internal/eventlog/jsonl_store.go\<close>) and the
  in-memory state that events are applied to (\<open>internal/state/store.go\<close>). The file is a byte string; a failing
  write may leave any prefix of its data behind. The JSON encodings of events and payloads are arguments.

  The lemmas show that replaying what was appended applies exactly the events appended, in order, and what happens
  to the events after a torn write; that the state stays consistent under every event; and that a state holds
  what the payments it was built from say.
\<close>

section \<open>Events\<close>

record Event =
  evEventID :: string
  evAggregateType :: string
  evAggregateID :: string
  evEventType :: event_type
  evTimestamp :: go_time
  evPayload :: string

record WebhookSubscriptionCreatedPayload =
  scID :: string
  scURL :: string
  scActive :: bool
  scCreatedAt :: go_time

record WebhookSubscriptionActivatedPayload =
  saID :: string
  saActivatedAt :: go_time

record WebhookSubscriptionDeactivatedPayload =
  sdID :: string
  sdDeactivatedAt :: go_time

section \<open>The log\<close>

record JSONLStore =
  jlContents :: string
  jlOpen :: bool

record log_env =
  leContext :: "nat \<Rightarrow> go_error option"
  leOpen :: "string \<Rightarrow> go_error option"
  leWrite :: "string \<Rightarrow> (go_error \<times> nat) option"
  leSync :: "go_error option"
  leRead :: "(go_error \<times> nat) option"

definition NewJSONLStore :: "log_env \<Rightarrow> string \<Rightarrow> go_error + JSONLStore" where
  "NewJSONLStore le contents =
     (case leOpen le ''mkdir'' of
        Some err \<Rightarrow> Inl (wrapf ''create event log dir'' err)
      | None \<Rightarrow>
        (case leOpen le ''open'' of
           Some err \<Rightarrow> Inl (wrapf ''open event log'' err)
         | None \<Rightarrow> Inr \<lparr>jlContents = contents, jlOpen = True\<rparr>))"

definition log_write :: "log_env \<Rightarrow> string \<Rightarrow> string \<Rightarrow> JSONLStore \<Rightarrow> go_error option \<times> JSONLStore" where
  "log_write le label data s =
     (if \<not> jlOpen s then (Some (ErrExternal ''invalid argument''), s)
      else
        case leWrite le label of
          None \<Rightarrow> (None, s\<lparr>jlContents := jlContents s @ data\<rparr>)
        | Some (err, n) \<Rightarrow> (Some err, s\<lparr>jlContents := jlContents s @ take n data\<rparr>))"

definition newline :: string where "newline = [char_of (10 :: nat)]"

definition Append :: "log_env \<Rightarrow> (Event \<Rightarrow> go_error + string) \<Rightarrow> JSONLStore \<Rightarrow> Event \<Rightarrow> go_error option \<times> JSONLStore" where
  "Append le marshal s evt =
     (case leContext le 0 of
        Some err \<Rightarrow> (Some err, s)
      | None \<Rightarrow>
        (case marshal evt of
           Inl err \<Rightarrow> (Some (wrapf ''marshal event'' err), s)
         | Inr data \<Rightarrow>
           (case log_write le ''event'' data s of
              (Some err, s1) \<Rightarrow> (Some (wrapf ''write event'' err), s1)
            | (None, s1) \<Rightarrow>
              (case log_write le ''newline'' newline s1 of
                 (Some err, s2) \<Rightarrow> (Some (wrapf ''write newline'' err), s2)
               | (None, s2) \<Rightarrow> (map_option (wrapf ''sync event log'') (leSync le), s2)))))"

text \<open>
  The scanner with its buffer of a megabyte: lines are delivered until one is too long for the buffer. The end of
  the file ends the last line; a read error does so too and is reported after the lines before it.
\<close>

definition maxTokenSize :: nat where "maxTokenSize = 1024 * 1024"

definition scan_lines :: "string \<Rightarrow> string list" where
  "scan_lines contents =
     (let ls = split_on (char_of (10 :: nat)) contents in if last ls = '''' then butlast ls else ls)"

definition drop_cr :: "string \<Rightarrow> string" where
  "drop_cr l = (if l \<noteq> [] \<and> last l = char_of (13 :: nat) then butlast l else l)"

fun replay_lines ::
  "log_env \<Rightarrow> (string \<Rightarrow> go_error + Event) \<Rightarrow> ('d \<Rightarrow> Event \<Rightarrow> go_error option \<times> 'd) \<Rightarrow> nat \<Rightarrow> string list \<Rightarrow> 'd \<Rightarrow>
   go_error option \<times> 'd" where
  "replay_lines le unmarshal apply lineNum [] d = (None, d)"
| "replay_lines le unmarshal apply lineNum (l # ls) d =
     (case leContext le (lineNum + 1) of
        Some err \<Rightarrow> (Some err, d)
      | None \<Rightarrow>
        let line = TrimSpace (drop_cr l) in
        if line = '''' then replay_lines le unmarshal apply (lineNum + 1) ls d
        else
          (case unmarshal line of
             Inl err \<Rightarrow> (Some (wrapf (''unmarshal event at line '' @ dec (int (lineNum + 1))) err), d)
           | Inr evt \<Rightarrow>
             (case apply d evt of
                (Some err, d') \<Rightarrow> (Some (wrapf (''apply event at line '' @ dec (int (lineNum + 1))) err), d')
              | (None, d') \<Rightarrow> replay_lines le unmarshal apply (lineNum + 1) ls d')))"

definition Replay ::
  "log_env \<Rightarrow> (string \<Rightarrow> go_error + Event) \<Rightarrow> JSONLStore \<Rightarrow> ('d \<Rightarrow> Event \<Rightarrow> go_error option \<times> 'd) \<Rightarrow> 'd \<Rightarrow> go_error option \<times> 'd" where
  "Replay le unmarshal s apply d =
     (case leContext le 0 of
        Some err \<Rightarrow> (Some err, d)
      | None \<Rightarrow>
        (case leOpen le ''replay'' of
           Some err \<Rightarrow> (Some (wrapf ''open event log for replay'' err), d)
         | None \<Rightarrow>
           let ls = scan_lines (case leRead le of None \<Rightarrow> jlContents s | Some (_, n) \<Rightarrow> take n (jlContents s));
               ok = takeWhile (\<lambda>l. length l < maxTokenSize) ls in
           (case replay_lines le unmarshal apply 0 ok d of
              (Some err, d') \<Rightarrow> (Some err, d')
            | (None, d') \<Rightarrow>
                (if length ok < length ls
                 then Some (wrapf ''scan event log'' (ErrExternal ''bufio.Scanner: token too long''))
                 else map_option (\<lambda>x. wrapf ''scan event log'' (fst x)) (leRead le), d'))))"

definition Close :: "go_error option \<Rightarrow> JSONLStore \<Rightarrow> go_error option \<times> JSONLStore" where
  "Close err s = (if \<not> jlOpen s then (None, s) else (err, s\<lparr>jlOpen := False\<rparr>))"

section \<open>Replaying what was appended\<close>

text \<open>The file after the given lines were appended to a file that ends with a line end, or is empty.\<close>

definition log_text :: "string list \<Rightarrow> string" where
  "log_text ls = concat (map (\<lambda>l. l @ newline) ls)"

definition line_ok :: "string \<Rightarrow> bool" where
  "line_ok l \<longleftrightarrow> char_of (10 :: nat) \<notin> set l \<and> length l < maxTokenSize"

lemma log_text_simps [simp]: "log_text [] = ''''" "log_text (l # ls) = l @ newline @ log_text ls"
  by (simp_all add: log_text_def)

lemma split_log_text:
  assumes "list_all line_ok ls" and "char_of (10 :: nat) \<notin> set tail"
  shows "split_on (char_of (10 :: nat)) (log_text ls @ tail) = ls @ [tail]"
  using assms by (induction ls) (simp_all add: split_on_no split_on_append newline_def line_ok_def)

lemma scan_log_text: "list_all line_ok ls \<Longrightarrow> scan_lines (log_text ls) = ls"
  using split_log_text [of ls "''''"] by (simp add: scan_lines_def)

text \<open>A writer that meets no failure.\<close>

definition calm_log :: log_env where
  "calm_log = \<lparr>leContext = (\<lambda>_. None), leOpen = (\<lambda>_. None), leWrite = (\<lambda>_. None), leSync = None, leRead = None\<rparr>"

fun append_all :: "log_env \<Rightarrow> (Event \<Rightarrow> go_error + string) \<Rightarrow> JSONLStore \<Rightarrow> Event list \<Rightarrow> go_error option \<times> JSONLStore" where
  "append_all le marshal s [] = (None, s)"
| "append_all le marshal s (evt # evts) =
     (case Append le marshal s evt of (Some err, s') \<Rightarrow> (Some err, s') | (None, s') \<Rightarrow> append_all le marshal s' evts)"

text \<open>Applying events one after the other; the first failing one stops, with its position.\<close>

fun apply_events ::
  "('d \<Rightarrow> Event \<Rightarrow> go_error option \<times> 'd) \<Rightarrow> nat \<Rightarrow> Event list \<Rightarrow> 'd \<Rightarrow> (nat \<times> go_error) option \<times> 'd" where
  "apply_events apply n [] d = (None, d)"
| "apply_events apply n (evt # evts) d =
     (case apply d evt of (Some err, d') \<Rightarrow> (Some (n + 1, err), d') | (None, d') \<Rightarrow> apply_events apply (n + 1) evts d')"

text \<open>What is relied on of \<open>encoding/json\<close> for an event: one line without white space around it that decodes to the event.\<close>

definition event_codec :: "(Event \<Rightarrow> go_error + string) \<Rightarrow> (string \<Rightarrow> go_error + Event) \<Rightarrow> Event \<Rightarrow> bool" where
  "event_codec marshal unmarshal evt \<longleftrightarrow>
     (\<exists>l. marshal evt = Inr l \<and> line_ok l \<and> l \<noteq> '''' \<and> TrimSpace (drop_cr l) = l \<and> unmarshal l = Inr evt)"

definition encoded :: "(Event \<Rightarrow> go_error + string) \<Rightarrow> Event \<Rightarrow> string" where
  "encoded marshal evt = (case marshal evt of Inr l \<Rightarrow> l | Inl _ \<Rightarrow> '''')"

lemma Append_ok:
  assumes "Append le marshal s evt = (None, s')"
  shows "\<exists>l. marshal evt = Inr l \<and> s' = s\<lparr>jlContents := jlContents s @ l @ newline\<rparr>"
  using assms by (auto simp: Append_def log_write_def split: option.splits sum.splits prod.splits if_splits)

lemma append_all_ok:
  "append_all le marshal s evts = (None, s') \<Longrightarrow> s' = s\<lparr>jlContents := jlContents s @ log_text (map (encoded marshal) evts)\<rparr>"
proof (induction evts arbitrary: s)
  case (Cons evt evts)
  then obtain s1 where s1: "Append le marshal s evt = (None, s1)" "append_all le marshal s1 evts = (None, s')"
    by (auto split: option.splits prod.splits)
  from Append_ok [OF s1(1)] Cons.IH [OF s1(2)] show ?case by (auto simp: encoded_def)
qed simp

lemma replay_lines_encoded:
  assumes "list_all (event_codec marshal unmarshal) evts" and "\<And>n. leContext le n = None"
  shows "replay_lines le unmarshal apply n (map (encoded marshal) evts) d =
    (case apply_events apply n evts d of
       (None, d') \<Rightarrow> (None, d')
     | (Some (k, err), d') \<Rightarrow> (Some (wrapf (''apply event at line '' @ dec (int k)) err), d'))"
  using assms(1)
  by (induction evts arbitrary: n d)
    (auto simp: assms(2) event_codec_def encoded_def Let_def split: option.splits prod.splits)

lemma Replay_appended:
  assumes "list_all (event_codec marshal unmarshal) evts" and "append_all le marshal s evts = (None, s')" and "jlContents s = ''''"
  shows "Replay calm_log unmarshal s' apply d =
    (case apply_events apply 0 evts d of
       (None, d') \<Rightarrow> (None, d')
     | (Some (k, err), d') \<Rightarrow> (Some (wrapf (''apply event at line '' @ dec (int k)) err), d'))"
proof -
  let ?ls = "map (encoded marshal) evts"
  have ok: "list_all line_ok ?ls" using assms(1) by (auto simp: list_all_iff event_codec_def encoded_def)
  then have whole: "takeWhile (\<lambda>l. length l < maxTokenSize) ?ls = ?ls"
    by (auto simp: list_all_iff line_ok_def takeWhile_eq_all_conv)
  have lines: "scan_lines (jlContents s') = ?ls" using append_all_ok [OF assms(2)] assms(3) scan_log_text [OF ok] by simp
  have "replay_lines calm_log unmarshal apply 0 ?ls d =
    (case apply_events apply 0 evts d of
       (None, d') \<Rightarrow> (None, d')
     | (Some (k, err), d') \<Rightarrow> (Some (wrapf (''apply event at line '' @ dec (int k)) err), d'))"
    by (rule replay_lines_encoded [OF assms(1)]) (simp add: calm_log_def)
  then show ?thesis unfolding Replay_def lines
    by (simp add: calm_log_def lines whole Let_def split: option.split prod.split)
qed

section \<open>Torn lines\<close>

text \<open>
  A write that fails after \<open>n\<close> bytes leaves a piece of a line behind, and the next event is written behind it. If the
  two together are not an event, a replay stops there: the events before are applied, none of the later ones.
\<close>

lemma replay_lines_append:
  assumes "replay_lines le unmarshal apply n ls d = (None, d')"
  shows "replay_lines le unmarshal apply n (ls @ ms) d = replay_lines le unmarshal apply (n + length ls) ms d'"
  using assms
  by (induction le unmarshal "apply" n ls d rule: replay_lines.induct)
    (auto simp: Let_def split: option.splits if_splits sum.splits prod.splits)

lemma torn_append:
  assumes codec: "list_all (event_codec marshal unmarshal) evts" and "append_all le marshal s evts = (None, s1)" "jlContents s = ''''"
    and run: "apply_events apply 0 evts d = (None, d')"
    and torn: "leContext le1 0 = None" "marshal e1 = Inr l1" "leWrite le1 ''event'' = Some (err, n)" "jlOpen s1"
      "Append le1 marshal s1 e1 = (res, s2)"
    and later: "append_all le2 marshal s2 (e2 # rest) = (None, s3)" "list_all (event_codec marshal unmarshal) rest"
    and glued: "l = take n l1 @ encoded marshal e2" "line_ok l" "l \<noteq> ''''" "TrimSpace (drop_cr l) = l" "unmarshal l = Inl e"
  shows "Replay calm_log unmarshal s3 apply d =
    (Some (wrapf (''unmarshal event at line '' @ dec (int (length evts + 1))) e), d')"
proof -
  let ?ls = "map (encoded marshal) evts"
  let ?ms = "map (encoded marshal) rest"
  have s2: "jlContents s2 = log_text ?ls @ take n l1"
    using torn append_all_ok [OF assms(2)] assms(3) by (auto simp: Append_def log_write_def)
  have "jlContents s3 = log_text ?ls @ l @ newline @ log_text ?ms"
    using append_all_ok [OF later(1)] s2 glued(1) by simp
  then have s3: "jlContents s3 = log_text (?ls @ l # ?ms)" by (simp add: log_text_def)
  have ok: "list_all line_ok (?ls @ l # ?ms)"
    using codec later(2) glued(2) by (auto simp: list_all_iff event_codec_def encoded_def)
  then have whole: "takeWhile (\<lambda>l. length l < maxTokenSize) (?ls @ l # ?ms) = ?ls @ l # ?ms"
    by (auto simp: list_all_iff line_ok_def takeWhile_eq_all_conv)
  have lines: "scan_lines (jlContents s3) = ?ls @ l # ?ms" unfolding s3 by (rule scan_log_text [OF ok])
  have "replay_lines calm_log unmarshal apply 0 ?ls d = (None, d')"
    using replay_lines_encoded [OF codec, of calm_log "apply" 0 d] run by (simp add: calm_log_def)
  from replay_lines_append [OF this, of "l # ?ms"] glued(3-5)
  have "replay_lines calm_log unmarshal apply 0 (?ls @ l # ?ms) d =
      (Some (wrapf (''unmarshal event at line '' @ dec (int (length evts + 1))) e), d')"
    by (simp add: calm_log_def)
  then show ?thesis unfolding Replay_def lines by (simp add: calm_log_def lines whole Let_def)
qed

section \<open>The state\<close>

record state_store =
  ssPayments :: "string \<rightharpoonup> Payment"
  ssSubscriptions :: "string \<rightharpoonup> WebhookSubscription"
  ssIdempotencyIndex :: "string \<rightharpoonup> string"

record payload_codec =
  pxCreated :: "string \<Rightarrow> go_error + PaymentCreatedPayload"
  pxCancelled :: "string \<Rightarrow> go_error + PaymentCancelledPayload"
  pxSubCreated :: "string \<Rightarrow> go_error + WebhookSubscriptionCreatedPayload"
  pxSubActivated :: "string \<Rightarrow> go_error + WebhookSubscriptionActivatedPayload"
  pxSubDeactivated :: "string \<Rightarrow> go_error + WebhookSubscriptionDeactivatedPayload"

definition NewStore :: state_store where
  "NewStore = \<lparr>ssPayments = Map.empty, ssSubscriptions = Map.empty, ssIdempotencyIndex = Map.empty\<rparr>"

definition state_GetPayment :: "state_store \<Rightarrow> string \<Rightarrow> Payment option" where
  "state_GetPayment s i = ssPayments s i"

definition state_GetPaymentByIdempotencyKey :: "state_store \<Rightarrow> string \<Rightarrow> Payment option" where
  "state_GetPaymentByIdempotencyKey s key = (case ssIdempotencyIndex s key of None \<Rightarrow> None | Some i \<Rightarrow> ssPayments s i)"

text \<open>
  The order in which a map is traversed is up to the runtime, and sorting does not fix the order of equal times:
  both are in the argument \<open>order\<close>, a list of the keys.
\<close>

definition newest_first :: "('a \<Rightarrow> go_time) \<Rightarrow> 'a list \<Rightarrow> 'a list" where
  "newest_first t xs = sort_key (\<lambda>x. - t x) xs"

definition state_ListPayments :: "string list \<Rightarrow> state_store \<Rightarrow> Payment list" where
  "state_ListPayments order s = newest_first pCreatedAt (List.map_filter (ssPayments s) order)"

definition state_GetSubscription :: "state_store \<Rightarrow> string \<Rightarrow> WebhookSubscription option" where
  "state_GetSubscription s i = ssSubscriptions s i"

definition state_ListSubscriptions :: "string list \<Rightarrow> state_store \<Rightarrow> WebhookSubscription list" where
  "state_ListSubscriptions order s = newest_first sCreateAt (List.map_filter (ssSubscriptions s) order)"

definition payment_of :: "PaymentCreatedPayload \<Rightarrow> Payment" where
  "payment_of x =
     \<lparr>pID = pcID x, pAmount = pcAmount x, pCurrency = pcCurrency x, pStatus = pcStatus x,
      pIdempotencyKey = pcIdempotencyKey x, pCreatedAt = pcCreatedAt x, pUpdatedAt = pcCreatedAt x\<rparr>"

definition applyPaymentCreated :: "payload_codec \<Rightarrow> state_store \<Rightarrow> Event \<Rightarrow> go_error option \<times> state_store" where
  "applyPaymentCreated px s evt =
     (case pxCreated px (evPayload evt) of
        Inl err \<Rightarrow> (Some (wrapf ''unmarshal PaymentCreated payload'' err), s)
      | Inr x \<Rightarrow>
        if ssPayments s (pcID x) \<noteq> None then (Some (ErrNew (''payment '' @ pcID x @ '' already exists during apply'')), s)
        else
          (None, s\<lparr>ssPayments := (ssPayments s)(pcID x \<mapsto> payment_of x),
             ssIdempotencyIndex :=
               (if pcIdempotencyKey x \<noteq> '''' then (ssIdempotencyIndex s)(pcIdempotencyKey x \<mapsto> pcID x) else ssIdempotencyIndex s)\<rparr>))"

definition applyPaymentCancelled :: "payload_codec \<Rightarrow> state_store \<Rightarrow> Event \<Rightarrow> go_error option \<times> state_store" where
  "applyPaymentCancelled px s evt =
     (case pxCancelled px (evPayload evt) of
        Inl err \<Rightarrow> (Some (wrapf ''unmarshal PaymentCancelled payload'' err), s)
      | Inr x \<Rightarrow>
        (case ssPayments s (pxID x) of
           None \<Rightarrow> (Some (ErrNew (''payment '' @ pxID x @ '' not found during apply'')), s)
         | Some p \<Rightarrow>
           (None, s\<lparr>ssPayments := (ssPayments s)(pxID x \<mapsto> p\<lparr>pStatus := PaymentCancelled, pUpdatedAt := pxCancelledAt x\<rparr>)\<rparr>)))"

definition applyWebhookSubscriptionCreated :: "payload_codec \<Rightarrow> state_store \<Rightarrow> Event \<Rightarrow> go_error option \<times> state_store" where
  "applyWebhookSubscriptionCreated px s evt =
     (case pxSubCreated px (evPayload evt) of
        Inl err \<Rightarrow> (Some (wrapf ''unmarshal WebhookSubscriptionCreated payload'' err), s)
      | Inr x \<Rightarrow>
        if ssSubscriptions s (scID x) \<noteq> None then (Some (ErrNew (''subscription '' @ scID x @ '' already exists during apply'')), s)
        else
          (None, s\<lparr>ssSubscriptions := (ssSubscriptions s)(scID x \<mapsto>
             \<lparr>sID = scID x, sURL = scURL x, sActive = scActive x, sCreateAt = scCreatedAt x, sUpdatedAt = scCreatedAt x\<rparr>)\<rparr>))"

definition applyWebhookSubscriptionActivated :: "payload_codec \<Rightarrow> state_store \<Rightarrow> Event \<Rightarrow> go_error option \<times> state_store" where
  "applyWebhookSubscriptionActivated px s evt =
     (case pxSubActivated px (evPayload evt) of
        Inl err \<Rightarrow> (Some (wrapf ''unmarshal WebhookSubscriptionActivated payload'' err), s)
      | Inr x \<Rightarrow>
        (case ssSubscriptions s (saID x) of
           None \<Rightarrow> (Some (ErrNew (''subscription '' @ saID x @ '' not found during apply'')), s)
         | Some sub \<Rightarrow>
           (None, s\<lparr>ssSubscriptions := (ssSubscriptions s)(saID x \<mapsto> sub\<lparr>sActive := True, sUpdatedAt := saActivatedAt x\<rparr>)\<rparr>)))"

definition applyWebhookSubscriptionDeactivated :: "payload_codec \<Rightarrow> state_store \<Rightarrow> Event \<Rightarrow> go_error option \<times> state_store" where
  "applyWebhookSubscriptionDeactivated px s evt =
     (case pxSubDeactivated px (evPayload evt) of
        Inl err \<Rightarrow> (Some (wrapf ''unmarshal WebhookSubscriptionDeactivated payload'' err), s)
      | Inr x \<Rightarrow>
        (case ssSubscriptions s (sdID x) of
           None \<Rightarrow> (Some (ErrNew (''subscription '' @ sdID x @ '' not found during apply'')), s)
         | Some sub \<Rightarrow>
           (None, s\<lparr>ssSubscriptions := (ssSubscriptions s)(sdID x \<mapsto> sub\<lparr>sActive := False, sUpdatedAt := sdDeactivatedAt x\<rparr>)\<rparr>)))"

definition Apply :: "payload_codec \<Rightarrow> state_store \<Rightarrow> Event \<Rightarrow> go_error option \<times> state_store" where
  "Apply px s evt =
     (if evEventType evt = EventPaymentCreated then applyPaymentCreated px s evt
      else if evEventType evt = EventPaymentCancelled then applyPaymentCancelled px s evt
      else if evEventType evt = EventWebhookSubscriptionCreated then applyWebhookSubscriptionCreated px s evt
      else if evEventType evt = EventWebhookSubscriptionActivated then applyWebhookSubscriptionActivated px s evt
      else if evEventType evt = EventWebhookSubscriptionDeactivated then applyWebhookSubscriptionDeactivated px s evt
      else (Some (ErrNew (''unknown event type: '' @ evEventType evt)), s))"

section \<open>The state under events\<close>

definition state_inv :: "state_store \<Rightarrow> bool" where
  "state_inv s \<longleftrightarrow>
     (\<forall>i p. ssPayments s i = Some p \<longrightarrow> pID p = i) \<and> (\<forall>i sub. ssSubscriptions s i = Some sub \<longrightarrow> sID sub = i) \<and>
     (\<forall>k i. ssIdempotencyIndex s k = Some i \<longrightarrow> k \<noteq> '''' \<and> (\<exists>p. ssPayments s i = Some p \<and> pIdempotencyKey p = k)) \<and>
     (\<forall>i p. ssPayments s i = Some p \<longrightarrow> pIdempotencyKey p \<noteq> '''' \<longrightarrow> ssIdempotencyIndex s (pIdempotencyKey p) \<noteq> None)"

lemmas apply_defs = applyPaymentCreated_def applyPaymentCancelled_def applyWebhookSubscriptionCreated_def
  applyWebhookSubscriptionActivated_def applyWebhookSubscriptionDeactivated_def

lemma state_inv_New [simp]: "state_inv NewStore"
  by (simp add: state_inv_def NewStore_def)

text \<open>The effects events have, without their encodings.\<close>

inductive state_step :: "state_store \<Rightarrow> state_store \<Rightarrow> bool" where
  created: "ssPayments s (pcID x) = None \<Longrightarrow>
     state_step s (s\<lparr>ssPayments := (ssPayments s)(pcID x \<mapsto> payment_of x),
       ssIdempotencyIndex := (if pcIdempotencyKey x \<noteq> '''' then (ssIdempotencyIndex s)(pcIdempotencyKey x \<mapsto> pcID x) else ssIdempotencyIndex s)\<rparr>)"
| cancelled: "ssPayments s i = Some p \<Longrightarrow>
     state_step s (s\<lparr>ssPayments := (ssPayments s)(i \<mapsto> p\<lparr>pStatus := PaymentCancelled, pUpdatedAt := t\<rparr>)\<rparr>)"
| subscribed: "ssSubscriptions s (sID sub) = None \<Longrightarrow> state_step s (s\<lparr>ssSubscriptions := (ssSubscriptions s)(sID sub \<mapsto> sub)\<rparr>)"
| switched: "ssSubscriptions s i = Some sub \<Longrightarrow>
     state_step s (s\<lparr>ssSubscriptions := (ssSubscriptions s)(i \<mapsto> sub\<lparr>sActive := b, sUpdatedAt := t\<rparr>)\<rparr>)"

inductive_cases state_stepE: "state_step s s'"

lemma apply_steps:
  "applyPaymentCreated px s evt = (None, s') \<Longrightarrow> state_step s s'"
  "applyPaymentCancelled px s evt = (None, s') \<Longrightarrow> state_step s s'"
  "applyWebhookSubscriptionCreated px s evt = (None, s') \<Longrightarrow> state_step s s'"
  "applyWebhookSubscriptionActivated px s evt = (None, s') \<Longrightarrow> state_step s s'"
  "applyWebhookSubscriptionDeactivated px s evt = (None, s') \<Longrightarrow> state_step s s'"
proof -
  show "state_step s s'" if a: "applyPaymentCreated px s evt = (None, s')"
  proof (cases "pxCreated px (evPayload evt)")
    case (Inr x)
    with a have n: "ssPayments s (pcID x) = None" by (auto simp: applyPaymentCreated_def split: if_split_asm)
    with a Inr show ?thesis using state_step.created [OF n] by (simp add: applyPaymentCreated_def)
  qed (use a in \<open>simp add: applyPaymentCreated_def\<close>)
  show "applyPaymentCancelled px s evt = (None, s') \<Longrightarrow> state_step s s'"
    unfolding applyPaymentCancelled_def by (clarsimp split: sum.splits option.splits) (erule state_step.cancelled)
  show "state_step s s'" if a: "applyWebhookSubscriptionCreated px s evt = (None, s')"
  proof (cases "pxSubCreated px (evPayload evt)")
    case (Inr x)
    let ?sub = "\<lparr>sID = scID x, sURL = scURL x, sActive = scActive x, sCreateAt = scCreatedAt x, sUpdatedAt = scCreatedAt x\<rparr>"
    from a Inr have n: "ssSubscriptions s (sID ?sub) = None"
      by (auto simp: applyWebhookSubscriptionCreated_def split: if_split_asm)
    with a Inr show ?thesis using state_step.subscribed [OF n] by (simp add: applyWebhookSubscriptionCreated_def)
  qed (use a in \<open>simp add: applyWebhookSubscriptionCreated_def\<close>)

  show "applyWebhookSubscriptionActivated px s evt = (None, s') \<Longrightarrow> state_step s s'"
    unfolding applyWebhookSubscriptionActivated_def by (clarsimp split: sum.splits option.splits) (erule state_step.switched)
  show "applyWebhookSubscriptionDeactivated px s evt = (None, s') \<Longrightarrow> state_step s s'"
    unfolding applyWebhookSubscriptionDeactivated_def by (clarsimp split: sum.splits option.splits) (erule state_step.switched)
qed

lemma Apply_step: "Apply px s evt = (None, s') \<Longrightarrow> state_step s s'"
  by (auto simp: Apply_def intro: apply_steps split: if_splits)

text \<open>An event that is refused leaves no trace.\<close>

lemma Apply_error: "Apply px s evt = (Some err, s') \<Longrightarrow> s' = s"
  by (auto simp: Apply_def apply_defs split: sum.splits option.splits if_splits)

lemma state_step_inv: "state_step s s' \<Longrightarrow> state_inv s \<Longrightarrow> state_inv s'"
proof (induction rule: state_step.induct)
  case (created s x)
  then have "ssIdempotencyIndex s k \<noteq> Some (pcID x)" for k by (force simp: state_inv_def)
  with created show ?case by (auto simp: state_inv_def payment_of_def)
next
  case (cancelled s i p t)
  then have "ssIdempotencyIndex s k = Some i \<Longrightarrow> pIdempotencyKey p = k" for k by (force simp: state_inv_def)
  with cancelled show ?case by (auto simp: state_inv_def)
qed (auto simp: state_inv_def)

lemma Apply_inv: "state_inv s \<Longrightarrow> Apply px s evt = (r, s') \<Longrightarrow> state_inv s'"
  using Apply_step [of px s evt s'] Apply_error [of px s evt _ s'] state_step_inv by (cases r) auto

lemma apply_events_inv: "state_inv s \<Longrightarrow> apply_events (Apply px) n evts s = (r, s') \<Longrightarrow> state_inv s'"
  by (induction evts arbitrary: s n) (auto dest: Apply_inv split: option.splits prod.splits)

text \<open>No payment is lost, and only its status and the time of its change differ later.\<close>

definition payment_kept :: "Payment \<Rightarrow> Payment \<Rightarrow> bool" where
  "payment_kept p q \<longleftrightarrow> q = p\<lparr>pStatus := pStatus q, pUpdatedAt := pUpdatedAt q\<rparr> \<and> (pStatus q = pStatus p \<or> pStatus q = PaymentCancelled)"

lemma Apply_keeps:
  assumes "Apply px s evt = (r, s')" and "ssPayments s i = Some p"
  shows "\<exists>q. ssPayments s' i = Some q \<and> payment_kept p q"
proof (cases r)
  case None
  with assms(1) have "state_step s s'" by (simp add: Apply_step)
  then show ?thesis using assms(2) by (cases rule: state_step.cases) (auto simp: payment_kept_def)
next
  case (Some err)
  with assms show ?thesis by (auto dest: Apply_error simp: payment_kept_def)
qed

end
