(* ===== verification/ScenarioHttp.thy ===== *)
theory ScenarioHttp
  imports HttpLaws Scenario EventLog
begin

text \<open>
  Concrete tokens, requests and event logs: a token for the user \<open>bob\<close>, a request of his to the system of the other
  scenarios, and a log of two events.
\<close>

section \<open>A token and a request\<close>

definition demo_auth :: auth_config where
  "demo_auth = \<lparr>acSecret = ''0123456789abcdef0123456789abcdef'', acIssuer = ''ptrans'', acAudience = ''ptrans-api''\<rparr>"

definition demo_claims :: claims where
  "demo_claims = issued_claims demo_auth ''bob'' (60 * Second) 1000"

definition demo_jwt :: jwt_codec where
  "demo_jwt =
     \<lparr>jxMac = (\<lambda>key text. ''M''), jxHeader = (\<lambda>_. ''H''), jxClaims = (\<lambda>_. ''C''),
      jxDecodeHeader = (\<lambda>s. if s = ''H'' then Some issued_header else None),
      jxDecodeClaims = (\<lambda>s. if s = ''C'' then Some demo_claims else None)\<rparr>"

lemma demo_subject: "validSubject ''bob''"
  by code_simp

lemma demo_b64: "b64_encode ''H'' = ''SA''" "b64_encode ''C'' = ''Qw''" "b64_encode ''M'' = ''TQ''"
  by code_simp+

lemma demo_issue: "Issue demo_jwt demo_auth 1000 ''bob'' (60 * Second) = Inr ''SA.Qw.TQ''"
  by (simp only: Issue_def demo_subject demo_jwt_def sign_def Let_def jwt_codec.simps demo_b64) (simp add: Second_def Hour_def Minute_def)

lemma demo_decoders:
  "jxDecodeHeader demo_jwt (jxHeader demo_jwt issued_header) = Some issued_header"
  "jxDecodeClaims demo_jwt (jxClaims demo_jwt (issued_claims demo_auth ''bob'' (60 * Second) 1000)) =
     Some (issued_claims demo_auth ''bob'' (60 * Second) 1000)"
  by (simp_all add: demo_jwt_def demo_claims_def)

definition demo_http :: api_request where
  "demo_http =
     \<lparr>arMethod = ''POST'', arPath = ''/v1/payments/p2/cancel'', arQuery = [],
      arHeaders = [(''Authorization'', ''Bearer SA.Qw.TQ'')], arBody = ''''\<rparr>"

definition demo_api_env :: "int \<Rightarrow> api_env" where
  "demo_api_env unix =
     \<lparr>aeStarted = calm 60 1 ''a'', aeUnix = unix, aeLimitNow = 60, aeLimit = calm 60 1 ''a'', aeService = calm 60 2 ''a'',
      aeCall = calm 60 9 ''b'', aeReread = calm 60 10 ''b''\<rparr>"

definition demo_lib :: api_lib where
  "demo_lib =
     \<lparr>alSha = demo_sha, alUni = (\<lambda>x. x), alParseURL = (\<lambda>_. None), alRefundJSON = (\<lambda>p a. p), alPayment = (\<lambda>_. DecodeEOF),
      alSubscription = (\<lambda>_. DecodeEOF), alActive = (\<lambda>_. DecodeEOF), alRefund = (\<lambda>_. DecodeEOF), alAtEOF = (\<lambda>s. s = '''')\<rparr>"

lemma demo_header: "header_get demo_http ''Authorization'' = ''Bearer '' @ ''SA.Qw.TQ''"
  by (simp add: header_get_def first_value_def demo_http_def)

lemma demo_user:
  "request_user (payment_api demo_jwt demo_auth sha n) (demo_api_env unix) demo_http =
     (if 1000 \<le> unix \<and> unix < 1060 then Some ''bob'' else None)"
  using bearer_user [OF demo_issue _ _ _ demo_decoders demo_header, of sha n "demo_api_env unix"]
  by (simp add: demo_api_env_def Second_def)

text \<open>A readiness check while the database does not answer.\<close>

definition demo_ready :: api_request where
  "demo_ready = \<lparr>arMethod = ''GET'', arPath = ''/readyz'', arQuery = [], arHeaders = [], arBody = ''''\<rparr>"

definition demo_fault_env :: api_env where
  "demo_fault_env = (demo_api_env 1010)\<lparr>aeCall := (calm 60 9 ''b'')\<lparr>flt := (\<lambda>_. Some (ErrExternal ''no route''))\<rparr>\<rparr>"

lemma demo_ready_status:
  "asStatus (fst (NewRouter (payment_api jx cfg sha n) lib demo_fault_env st demo_ready)) = 503"
  by (simp add: NewRouter_def withRequestLogging_def withCORS_def mux_answer_def demo_ready_def serve_mux_def clean_segments_def
      path_segments_def unescape_segment_def api_patterns_def method_matches_def handleReady_def payment_api_def Ping_def
      demo_fault_env_def writeJSON_def)

section \<open>A log\<close>

definition demo_created :: Event where
  "demo_created =
     \<lparr>evEventID = ''e1'', evAggregateType = ''payment'', evAggregateID = ''p1'', evEventType = EventPaymentCreated,
      evTimestamp = 1, evPayload = ''c''\<rparr>"

definition demo_cancelled :: Event where
  "demo_cancelled =
     \<lparr>evEventID = ''e2'', evAggregateType = ''payment'', evAggregateID = ''p1'', evEventType = EventPaymentCancelled,
      evTimestamp = 2, evPayload = ''x''\<rparr>"

definition demo_marshal :: "Event \<Rightarrow> go_error + string" where
  "demo_marshal evt = Inr (evEventID evt)"

definition demo_unmarshal :: "string \<Rightarrow> go_error + Event" where
  "demo_unmarshal l =
     (if l = ''e1'' then Inr demo_created else if l = ''e2'' then Inr demo_cancelled else Inl (ErrExternal ''invalid''))"

definition demo_payloads :: payload_codec where
  "demo_payloads =
     \<lparr>pxCreated = (\<lambda>_. Inr \<lparr>pcID = ''p1'', pcAmount = 5, pcCurrency = ''EUR'', pcIdempotencyKey = ''k'', pcStatus = PaymentPending, pcCreatedAt = 1\<rparr>),
      pxCancelled = (\<lambda>_. Inr \<lparr>pxID = ''p1'', pxCancelledAt = 2\<rparr>), pxSubCreated = (\<lambda>_. Inl (ErrExternal '''')),
      pxSubActivated = (\<lambda>_. Inl (ErrExternal '''')), pxSubDeactivated = (\<lambda>_. Inl (ErrExternal ''''))\<rparr>"

lemma demo_line: "TrimSpace (drop_cr ''e1'') = ''e1''" "TrimSpace (drop_cr ''e2'') = ''e2''"
  by code_simp+

lemma demo_line_ok: "line_ok ''e1''" "line_ok ''e2''"
proof -
  have "char_of (10 :: nat) \<notin> set ''e12''" by code_simp
  then show "line_ok ''e1''" "line_ok ''e2''" by (simp_all add: line_ok_def maxTokenSize_def)
qed

lemma demo_event_codec: "list_all (event_codec demo_marshal demo_unmarshal) [demo_created, demo_cancelled]"
  using demo_line demo_line_ok by (simp add: event_codec_def demo_marshal_def demo_unmarshal_def demo_created_def demo_cancelled_def)

lemma demo_append:
  "append_all calm_log demo_marshal \<lparr>jlContents = '''', jlOpen = True\<rparr> [demo_created, demo_cancelled] =
     (None, \<lparr>jlContents = ''e1'' @ newline @ ''e2'' @ newline, jlOpen = True\<rparr>)"
  by (simp add: Append_def log_write_def calm_log_def demo_marshal_def demo_created_def demo_cancelled_def)

definition demo_state :: state_store where
  "demo_state =
     \<lparr>ssPayments = [''p1'' \<mapsto> \<lparr>pID = ''p1'', pAmount = 5, pCurrency = ''EUR'', pStatus = PaymentCancelled, pIdempotencyKey = ''k'',
        pCreatedAt = 1, pUpdatedAt = 2\<rparr>], ssSubscriptions = Map.empty, ssIdempotencyIndex = [''k'' \<mapsto> ''p1'']\<rparr>"

lemma demo_apply: "apply_events (Apply demo_payloads) 0 [demo_created, demo_cancelled] NewStore = (None, demo_state)"
  by (simp add: Apply_def applyPaymentCreated_def applyPaymentCancelled_def demo_created_def demo_cancelled_def demo_payloads_def
      NewStore_def demo_state_def payment_of_def EventPaymentCreated_def EventPaymentCancelled_def)

end
