(* ===== verification/Config.thy ===== *)
theory Config
  imports RefundWorker OutboxWorker Auth ServeMux "HOL-Library.Multiset"
begin

text \<open>
  Configuration from the environment and what the small programs do with it: \<open>internal/config/env.go\<close>, the helpers
  of \<open>cmd/worker\<close>, \<open>cmd/payment\<close> and \<open>cmd/mockwebhook\<close>, and the body of \<open>cmd/token\<close>. The
  environment is a function from names to values, empty when unset; \<open>time.ParseDuration\<close> is the argument \<open>parse\<close>.

  \<open>RefundOptions\<close> walks over two Go maps, whose order is not fixed; the lemmas show that the order does not matter
  for the options, and that options that are returned are valid.
\<close>

section \<open>Reading the environment\<close>

type_synonym getenv = "string \<Rightarrow> string"

definition Env :: "getenv \<Rightarrow> string \<Rightarrow> string \<Rightarrow> string" where
  "Env getenv key fallback = (if getenv key \<noteq> '''' then getenv key else fallback)"

definition envOrDefaultInt :: "getenv \<Rightarrow> string \<Rightarrow> int \<Rightarrow> int" where
  "envOrDefaultInt getenv key fallback =
     (if getenv key = '''' then fallback else case ParseInt (getenv key) of None \<Rightarrow> fallback | Some v \<Rightarrow> v)"

definition envOrDefaultDuration :: "(string \<Rightarrow> go_error + duration) \<Rightarrow> getenv \<Rightarrow> string \<Rightarrow> duration \<Rightarrow> duration" where
  "envOrDefaultDuration parse getenv key fallback =
     (if getenv key = '''' then fallback else case parse (getenv key) of Inl _ \<Rightarrow> fallback | Inr v \<Rightarrow> v)"

definition JWT :: "getenv \<Rightarrow> auth_config" where
  "JWT getenv =
     \<lparr>acSecret = getenv ''JWT_SECRET'', acIssuer = Env getenv ''JWT_ISSUER'' ''ptrans'',
      acAudience = Env getenv ''JWT_AUDIENCE'' ''ptrans-api''\<rparr>"

section \<open>The options of the refund worker\<close>

definition duration_targets :: "(string \<times> (duration \<Rightarrow> Options \<Rightarrow> Options)) list" where
  "duration_targets =
     [(''REFUND_POLL_INTERVAL'', \<lambda>v. woPollInterval_update (\<lambda>_. v)), (''REFUND_LEASE_DURATION'', \<lambda>v. woLeaseDuration_update (\<lambda>_. v)),
      (''PROVIDER_HTTP_TIMEOUT'', \<lambda>v. woRequestTimeout_update (\<lambda>_. v)), (''REFUND_CHECK_INTERVAL'', \<lambda>v. woCheckInterval_update (\<lambda>_. v)),
      (''REFUND_INITIAL_BACKOFF'', \<lambda>v. woInitialBackoff_update (\<lambda>_. v)), (''REFUND_MAX_BACKOFF'', \<lambda>v. woMaxBackoff_update (\<lambda>_. v)),
      (''REFUND_STUCK_AFTER'', \<lambda>v. woStuckAfter_update (\<lambda>_. v))]"

definition int_targets :: "(string \<times> (int \<Rightarrow> Options \<Rightarrow> Options)) list" where
  "int_targets =
     [(''REFUND_MAX_ATTEMPTS'', \<lambda>v. woMaxAttempts_update (\<lambda>_. v)), (''REFUND_MAX_CHECK_FAILURES'', \<lambda>v. woMaxCheckFailures_update (\<lambda>_. v)),
      (''REFUND_BATCH_SIZE'', \<lambda>v. woBatchSize_update (\<lambda>_. v))]"

fun set_targets ::
  "getenv \<Rightarrow> (string \<Rightarrow> go_error + 'v) \<Rightarrow> (string \<times> ('v \<Rightarrow> Options \<Rightarrow> Options)) list \<Rightarrow> Options \<Rightarrow> go_error + Options" where
  "set_targets getenv parse [] opts = Inr opts"
| "set_targets getenv parse ((name, target) # rest) opts =
     (if getenv name = '''' then set_targets getenv parse rest opts
      else
        case parse (getenv name) of
          Inl err \<Rightarrow> Inl (wrapf name err)
        | Inr v \<Rightarrow> set_targets getenv parse rest (target v opts))"

definition Atoi :: "string \<Rightarrow> go_error + int" where
  "Atoi s = (case ParseInt s of None \<Rightarrow> Inl (ErrExternal (''strconv.Atoi: parsing '' @ s)) | Some v \<Rightarrow> Inr v)"

definition RefundOptions ::
  "getenv \<Rightarrow> (string \<Rightarrow> go_error + duration) \<Rightarrow> (string \<times> (duration \<Rightarrow> Options \<Rightarrow> Options)) list \<Rightarrow>
   (string \<times> (int \<Rightarrow> Options \<Rightarrow> Options)) list \<Rightarrow> go_error + Options" where
  "RefundOptions getenv parse durations ints =
     (case set_targets getenv parse durations DefaultOptions of
        Inl err \<Rightarrow> Inl err
      | Inr opts \<Rightarrow>
        (case set_targets getenv Atoi ints opts of
           Inl err \<Rightarrow> Inl err
         | Inr opts' \<Rightarrow> (case Validate opts' of Some err \<Rightarrow> Inl err | None \<Rightarrow> Inr opts')))"

section \<open>The check at start\<close>

text \<open>The answer of the schema query is five truth values; the last stands for three tables.\<close>

definition Init :: "go_error + bool list \<Rightarrow> go_error option" where
  "Init answer =
     (case answer of
        Inl err \<Rightarrow> Some (wrapf ''check postgres schema'' err)
      | Inr has \<Rightarrow>
        if \<not> list_all (\<lambda>b. b) has then Some (ErrNew ''database schema is missing; apply all migrations before starting the app'')
        else None)"

section \<open>The outbox worker's options\<close>

definition outbox_options :: "(string \<Rightarrow> go_error + duration) \<Rightarrow> getenv \<Rightarrow> OutboxOptions" where
  "outbox_options parse getenv =
     (let dur = envOrDefaultDuration parse getenv in
      \<lparr>ooBatchSize = envOrDefaultInt getenv ''WORKER_BATCH_SIZE'' 10, ooPollInterval = dur ''WORKER_POLL_INTERVAL'' (2 * Second),
       ooLockFor = dur ''WORKER_LOCK_FOR'' (30 * Second), ooHTTPTimeout = dur ''WEBHOOK_HTTP_TIMEOUT'' (5 * Second),
       ooMaxAttempts = envOrDefaultInt getenv ''WEBHOOK_MAX_ATTEMPTS'' 5,
       ooInitialBackoff = dur ''WEBHOOK_INITIAL_BACKOFF'' (2 * Second), ooMaxBackoff = dur ''WEBHOOK_MAX_BACKOFF'' Minute\<rparr>)"

section \<open>Demo programs\<close>

definition token_run :: "jwt_codec \<Rightarrow> getenv \<Rightarrow> int \<Rightarrow> string \<Rightarrow> duration \<Rightarrow> go_error + string" where
  "token_run jx getenv now user ttl =
     (case New_auth (JWT getenv) of Inl err \<Rightarrow> Inl err | Inr cfg \<Rightarrow> Issue jx cfg now user ttl)"

text \<open>\<open>cmd/mockwebhook\<close>: the status of the answer to a delivery, and the delay before it.\<close>

definition mock_webhook_delay :: "(string \<Rightarrow> go_error + duration) \<Rightarrow> getenv \<Rightarrow> string \<Rightarrow> duration \<Rightarrow> duration" where
  "mock_webhook_delay parse getenv key fallback =
     (if getenv key = '''' then fallback
      else
        case ParseInt (getenv key) of
          Some seconds \<Rightarrow> wrap64 (seconds * Second)
        | None \<Rightarrow> (case parse (getenv key) of Inl _ \<Rightarrow> fallback | Inr v \<Rightarrow> v))"

definition mock_webhook :: "(string \<Rightarrow> go_error + duration) \<Rightarrow> getenv \<Rightarrow> int \<Rightarrow> string \<Rightarrow> int \<times> duration" where
  "mock_webhook parse getenv nano query =
     (let mode = (if query = '''' then Env getenv ''MOCK_WEBHOOK_MODE'' ''ok'' else query) in
      if mode = ''slow'' then (200, mock_webhook_delay parse getenv ''MOCK_WEBHOOK_SLOW_DELAY'' (6 * Second))
      else if mode = ''fail'' then (500, 0)
      else if mode = ''random'' \<and> nano smod 2 = 0 then (502, 0)
      else (200, 0))"

section \<open>The order of the maps does not matter\<close>

lemma set_targets_Inr:
  "set_targets getenv parse ts opts = Inr opts' \<longleftrightarrow>
     (\<forall>(name, _) \<in> set ts. getenv name \<noteq> '''' \<longrightarrow> (\<exists>v. parse (getenv name) = Inr v)) \<and>
     opts' = fold (\<lambda>(name, target) o1. case parse (getenv name) of Inr v \<Rightarrow> if getenv name = '''' then o1 else target v o1 | Inl _ \<Rightarrow> o1) ts opts"
  by (induction getenv parse ts opts rule: set_targets.induct) (auto split: sum.splits)

definition commuting :: "(string \<times> ('v \<Rightarrow> Options \<Rightarrow> Options)) list \<Rightarrow> bool" where
  "commuting ts \<longleftrightarrow> sorted_wrt (\<lambda>s t. \<forall>v w opts. snd s v (snd t w opts) = snd t w (snd s v opts)) ts"

lemma targets_commute: "commuting duration_targets" "commuting int_targets"
  by (simp_all add: commuting_def duration_targets_def int_targets_def)

lemma commutingD:
  assumes "commuting ts" and "x \<in> set ts" and "y \<in> set ts"
  shows "x = y \<or> (\<forall>v w opts. snd x v (snd y w opts) = snd y w (snd x v opts))"
proof -
  from assms(2,3) obtain i j where ij: "i < length ts" "x = ts ! i" "j < length ts" "y = ts ! j" by (auto simp: in_set_conv_nth)
  show ?thesis
    using sorted_wrt_nth_less [OF assms(1) [unfolded commuting_def], of i j] sorted_wrt_nth_less [OF assms(1) [unfolded commuting_def], of j i] ij
    by (cases i j rule: linorder_cases) auto
qed

lemma set_targets_order:
  assumes "commuting ts" and "mset ts' = mset ts"
  shows "set_targets getenv parse ts' opts = Inr opts' \<longleftrightarrow> set_targets getenv parse ts opts = Inr opts'"
proof -
  let ?f = "\<lambda>(name, target) o1. case parse (getenv name) of Inr v \<Rightarrow> if getenv name = '''' then o1 else target v o1 | Inl _ \<Rightarrow> o1"
  have "?f x \<circ> ?f y = ?f y \<circ> ?f x" if "x \<in> set ts'" "y \<in> set ts'" for x y
    using commutingD [OF assms(1), of x y] that mset_eq_setD [OF assms(2)]
    by (cases x; cases y) (auto simp: fun_eq_iff split: sum.splits)
  then have "fold ?f ts' = fold ?f ts" by (intro fold_multiset_equiv) (auto simp: assms(2))
  then show ?thesis using mset_eq_setD [OF assms(2)] by (simp add: set_targets_Inr)
qed

lemma RefundOptions_order:
  assumes "mset ds = mset duration_targets" and "mset ns = mset int_targets"
  shows "RefundOptions getenv parse ds ns = Inr opts \<longleftrightarrow> RefundOptions getenv parse duration_targets int_targets = Inr opts"
proof -
  have "RefundOptions getenv parse a b = Inr opts \<longleftrightarrow>
      (\<exists>o1. set_targets getenv parse a DefaultOptions = Inr o1 \<and> set_targets getenv Atoi b o1 = Inr opts \<and> Validate opts = None)" for a b
    by (auto simp: RefundOptions_def split: sum.splits option.splits)
  then show ?thesis using set_targets_order [OF targets_commute(1) assms(1)] set_targets_order [OF targets_commute(2) assms(2)] by simp
qed

lemma RefundOptions_valid: "RefundOptions getenv parse ds ns = Inr opts \<Longrightarrow> Validate opts = None"
  by (auto simp: RefundOptions_def split: sum.splits option.splits)

text \<open>Whatever the environment says, the outbox worker runs with positive options.\<close>

lemma outbox_options_positive:
  assumes "opts = normalizeOptions (outbox_options parse getenv)"
  shows "0 < ooBatchSize opts \<and> 0 < ooPollInterval opts \<and> 0 < ooLockFor opts \<and> 0 < ooHTTPTimeout opts \<and>
    0 < ooMaxAttempts opts \<and> 0 < ooInitialBackoff opts \<and> 0 < ooMaxBackoff opts"
  using assms by (simp add: normalizeOptions_def Second_def Minute_def)

end
