(* ===== verification/ScenarioProcess.thy ===== *)
theory ScenarioProcess
  imports Processes ScenarioProvider ScenarioOutbox
begin

text \<open>
  A concrete deployment: an environment that sets only the provider's key, a database server that is up and migrated,
  and the parser of addresses. Every option of the refund worker is then its default.
\<close>

definition demo_getenv :: getenv where
  "demo_getenv n = (if n = ''PROVIDER_API_KEY'' then ''secret'' else '''')"

definition demo_url :: "string \<Rightarrow> parsed_url option" where
  "demo_url s = Some \<lparr>uScheme = ''http'', uHost = ''localhost:8091'', uHasUser = False, uRawQuery = '''', uFragment = ''''\<rparr>"

definition demo_dbms :: db_server where
  "demo_dbms = \<lparr>dsOpen = (\<lambda>_. None), dsPing = (\<lambda>_. None), dsSchema = (\<lambda>_. Inr [True, True, True, True, True])\<rparr>"

lemma demo_process_opts:
  "RefundOptions demo_getenv parse duration_targets int_targets = Inr DefaultOptions" "Validate DefaultOptions = None"
  by (simp_all add: RefundOptions_def duration_targets_def int_targets_def demo_getenv_def Validate_def DefaultOptions_def
      wrap64_id int64_def min_int64_def max_int64_def Second_def Minute_def)

lemma demo_process_parts:
  "New_store demo_dbms url = None"
  "NewClient demo_url base (demo_getenv ''PROVIDER_API_KEY'') (woRequestTimeout DefaultOptions) = Inr \<lparr>clBase = trim_right_slash base, clKey = ''secret''\<rparr>"
  by (simp_all add: New_store_def Init_def demo_dbms_def NewClient_def demo_url_def demo_getenv_def DefaultOptions_def Second_def)

end
