(* ===== verification/Spec2Isabelle.thy ===== *)
theory Spec2Isabelle
  imports Prelude Domain Database TenantStore RefundPorts RefundStore PaymentStore Ledger OutboxStore
    RateLimit System ProviderClient RefundWorker RefundEngine Progress Publication Idempotency Isolation PaymentLaws Scenario
    ServeMux MockProvider ProviderLink Agreement ScenarioProvider OutboxWorker OutboxEngine ScenarioOutbox
    Services ServiceLaws ScenarioService Auth HttpApi HttpLaws EventLog ScenarioHttp Config
    Processes ScenarioProcess
begin

text \<open>
  PTrans is a payment service: an HTTP API over PostgreSQL that creates, lists and cancels payments, takes refund
  requests and manages webhook subscriptions; a worker that carries refunds out at an external provider; a worker
  that delivers events to webhooks; a mock provider for the local lab; and an older event log with an in-memory
  state. This development models these parts and proves what makes them correct, each alone and together.

  \<^bold>\<open>Parts and theories.\<close> Paths are relative to \<open>src/\<close>.

  \<^item> \<open>Prelude\<close>: Go's 64-bit integers, durations and times, strings as byte lists with the functions of \<open>strings\<close> and
    \<open>strconv\<close> the program calls, facts on lists with unique keys.
  \<^item> \<open>Domain\<close> (\<open>internal/domain\<close>): error values with \<open>errors.Is\<close>, statuses, the records of the program and the refund
    transition table. \<open>RefundPorts\<close> (\<open>internal/refunds/repository.go\<close>): claims, outcomes, identifiers.
  \<^item> \<open>Database\<close> (\<open>migrations/*.sql\<close>): tables as lists of rows, constraints as failing statements, the triggers of
    the refund table, and the shape of a transaction: a failure anywhere leaves the database as it was, except that
    a failing commit may have taken effect.
  \<^item> \<open>TenantStore\<close>, \<open>PaymentStore\<close>, \<open>OutboxStore\<close> (\<open>internal/storage/store.go\<close>) and \<open>RefundStore\<close>
    (\<open>internal/storage/refunds.go\<close>): one definition per operation of the store, with its transaction body apart.
  \<^item> \<open>RateLimit\<close> (\<open>internal/ratelimit/limiter.go\<close>): the fixed-window limiter.
  \<^item> \<open>ProviderClient\<close> (\<open>internal/provider/client.go\<close>), \<open>RefundWorker\<close> (\<open>internal/refunds/worker.go\<close>): the client over an
    arbitrary network, and the worker with its decisions, backoff and loop.
  \<^item> \<open>MockProvider\<close> (\<open>internal/mockprovider/server.go\<close>), \<open>ServeMux\<close> (\<open>http.ServeMux\<close> as the routers use it),
    \<open>ProviderLink\<close>: server, routes and a transport that carries the client's requests to it.
  \<^item> \<open>OutboxWorker\<close> (\<open>internal/worker/worker.go\<close>): deliveries, retries, dead letters, batches.
  \<^item> \<open>Services\<close> (\<open>internal/service/*.go\<close>, \<open>internal/refunds/service.go\<close>): validation, normalisation, request hashes.
  \<^item> \<open>Auth\<close> (\<open>internal/auth/jwt.go\<close>): base64, issuing and checking tokens. \<open>HttpApi\<close> (\<open>internal/httpapi/*.go\<close> and
    the wiring of \<open>cmd/payment/main.go\<close>): the chain in front of the handlers and every handler.
  \<^item> \<open>EventLog\<close> (\<open>internal/eventlog/jsonl_store.go\<close>, \<open>internal/state/store.go\<close>): the file of events, its replay, and
    the state events are applied to. \<open>Config\<close> (\<open>internal/config/env.go\<close>): options from the environment.
  \<^item> \<open>Processes\<close> (\<open>cmd/*/main.go\<close>): the processes, from the environment to their loop or handler.

  \<^bold>\<open>How they interact.\<close> \<open>System\<close> is the running system: one database and any number of processes, a step being one
  call of a store operation with arbitrary arguments, clock and failures, or a restart. \<open>Ledger\<close>, \<open>Publication\<close>,
  \<open>Idempotency\<close>, \<open>Isolation\<close> and \<open>PaymentLaws\<close> are its laws: the reserved part of a payment, the outbox, repeated
  requests, tenants, listings. \<open>RefundEngine\<close>, \<open>OutboxEngine\<close>, \<open>ServiceLaws\<close> and \<open>HttpLaws\<close> put a client on top: each
  states the interface the client relies on as a locale, proves the client's lemmas inside it, and interprets it on
  the store (the refund worker's repository and provider, the outbox repository, the payment repository, the backend
  of the API). \<open>Progress\<close> bounds the rounds of a refund by a measure. \<open>Agreement\<close> joins database, workers, client and
  provider. The theories whose names begin with \<open>Scenario\<close> hold concrete runs for the witnesses.

  \<^bold>\<open>What the theorems below show.\<close> No payment is refunded beyond its amount; settled refunds are frozen; a refund
  follows its life cycle; leases are exclusive and outcomes stored once; attempts, delays and schedules are
  bounded; every attempt settles, and automatic processing of a refund ends; the worker processes run with checked
  options or not at all, and what they do are runs of the system. Repeated requests are answered with the
  same resource. Every change is published and kept in the outbox; payments change only by one cancellation;
  tenants do not touch each other's data; pages are complete. The limiter allows exactly its limit. What the
  database calls paid the provider has on record, whatever is lost on the network; a lost reply is found again. An
  event is marked delivered only when every subscription acknowledged it, and is sent to nobody twice after that.
  Payment rows written through the services are well formed. An HTTP request acts only for the subject of an
  accepted token, within what that user owns; an issued token is accepted exactly during its
  lifetime; internal errors stay inside. Replaying an event log gives back what was appended.

  \<^bold>\<open>Modelling decisions.\<close> Transactions are atomic steps: the row and advisory locks the store takes serialise the
  refund operations. The one unprotected read, of the cancellation, is also modelled in two halves. Times are
  nanoseconds since year 1 without a monotonic part. Rows with equal sort keys keep the order of the table. JSON
  values are the structures they encode; SHA-256, HMAC, the JSON encodings, the Unicode tables of \<open>ToUpper\<close>, the URL,
  date and duration parsers are parameters, with what is relied on as named hypotheses. Wrap-around is written out
  wherever Go's 64-bit arithmetic can leave the range. Loops over data recurse on it; the two backoff loops have a
  measure; a worker's loop takes the list of its ticks, so its length is an input and no fuel runs out. The doubling
  of the outbox backoff is exact for initial delays below \<open>2^62\<close> nanoseconds.

  \<^bold>\<open>Not modelled.\<close> Flags, signals, sockets, server time-outs and the shutdown of processes, the connection pool
  itself, structured logging, the shell scripts: input and output around the logic. Context cancellation appears as
  the failure of a call. Requests with the method \<open>CONNECT\<close> are left out.
\<close>

section \<open>The refund ledger\<close>

text \<open>
  C1: no over-refunding. In every reachable state of the system, whatever processes ran which store
  operations in which order and with which faults, the refunds of a payment that were paid out, and
  even all refunds that still reserve money, together stay within the amount of the payment.
\<close>

theorem no_over_refund:
  assumes "reachable sha M s" and "0 \<le> M"
    and "find_payment (sdb s) (table_of sha user) payment = Some p" and "0 \<le> pAmount p"
  shows "refunded_sum (sdb s) user payment \<le> reserved_sum (sdb s) user payment \<and>
    reserved_sum (sdb s) user payment \<le> pAmount p"
  using reachable_inv [OF assms(1,2)] refunded_le_reserved reserved_le_amount assms(3,4)
  by (auto simp: sys_inv_def db_inv_def)

theorem no_over_refund_witness:
  "refunded_sum (sdb (demo_sys demo_db4)) ''alice'' ''p1'' = 60 \<and>
   refunded_sum (sdb (demo_sys demo_db4)) ''alice'' ''p1'' \<le> reserved_sum (sdb (demo_sys demo_db4)) ''alice'' ''p1'' \<and>
   reserved_sum (sdb (demo_sys demo_db4)) ''alice'' ''p1'' \<le> pAmount demo_payment"
proof -
  have "find_payment (sdb (demo_sys demo_db4)) (table_of demo_sha ''alice'') ''p1'' = Some demo_payment"
    by (simp add: demo_put find_payment_def demo_db_defs demo_payment_def)
  from no_over_refund [OF demo_reachable(4) _ this] show ?thesis
    by (simp add: demo_put demo_rows demo_payment_def refunded_sum_def demo_row_defs)
qed

text \<open>
  C2: a settled refund never changes again: once a refund has succeeded, or has failed without a
  retry, its row is the same in every later state.
\<close>

theorem settled_refund_frozen:
  assumes "reachable sha M s" and "0 \<le> M" and "run sha M s t"
    and "r \<in> set (refunds (sdb s))" and "terminal r"
  shows "r \<in> set (refunds (sdb t))"
proof -
  note inv = reachable_inv [OF assms(1,2)]
  obtain r' where "r' \<in> set (refunds (sdb t))" and steps: "(refund_row_step M)\<^sup>*\<^sup>* r r'"
    using run_refund [OF assms(3) inv assms(2,4)] by blast
  moreover have "refund_row_inv M r"
    using inv assms(4) by (auto simp: sys_inv_def db_inv_def refunds_inv_def)
  then have "r' = r"
    using steps terminal_no_step [OF assms(5)] by (metis converse_rtranclpE)
  ultimately show ?thesis by simp
qed

theorem settled_refund_frozen_witness:
  "terminal demo_done \<and> demo_done \<in> set (refunds (sdb ((demo_sys demo_db4)\<lparr>caches := (caches (demo_sys demo_db4))(0 := {})\<rparr>)))"
proof -
  have fin: "terminal demo_done" by (simp add: terminal_def demo_row_defs)
  have "run demo_sha 5 (demo_sys demo_db4) ((demo_sys demo_db4)\<lparr>caches := (caches (demo_sys demo_db4))(0 := {})\<rparr>)"
    by (rule r_into_rtranclp) (rule sys_step.restart)
  from settled_refund_frozen [OF demo_reachable(4) _ this _ fin] fin
  show ?thesis by (simp add: demo_put demo_rows)
qed

text \<open>
  C3: every operation of the system moves every refund row at most one step along the life cycle
  \<^const>\<open>phase_step\<close>, keeps its identity columns, and counts the step in its version.
\<close>

theorem refund_phase_refinement:
  assumes "reachable sha M s" and "0 \<le> M" and "sys_step sha M s t" and "r \<in> set (refunds (sdb s))"
  shows "\<exists>r' \<in> set (refunds (sdb t)). same_identity r r' \<and>
    (r' = r \<or> phase_step (phase_of r) (phase_of r') \<and> rVersion r' = rVersion r + 1)"
proof -
  note inv = reachable_inv [OF assms(1,2)]
  have "refund_row_inv M r"
    using inv assms(4) by (auto simp: sys_inv_def db_inv_def refunds_inv_def)
  moreover obtain r' where "r' \<in> set (refunds (sdb t))" "r' = r \<or> refund_row_step M r r'"
    using sys_step_good(1) [OF assms(3) inv assms(2)] assms(4) unfolding good_def refunds_step_def by blast
  ultimately show ?thesis
    using refund_row_step_phase refund_row_step_identity by (fastforce simp: same_identity_def)
qed

theorem refund_phase_refinement_witness:
  "\<exists>r' \<in> set (refunds (sdb (demo_sys demo_db4))). same_identity demo_claimed r' \<and>
    (r' = demo_claimed \<or> phase_step (phase_of demo_claimed) (phase_of r') \<and> rVersion r' = rVersion demo_claimed + 1)"
proof -
  have "ApplyRefundOutcome (calm 12 4 ''a'') (sdb (demo_sys demo_db3)) demo_claimed demo_outcome 12 = (Inr (), demo_db4)"
    using demo_outcome_step by (simp add: demo_put)
  then have "sys_step demo_sha 5 (demo_sys demo_db3) ((demo_sys demo_db3)\<lparr>sdb := demo_db4\<rparr>)"
    by (rule sys_step.apply_outcome)
  from refund_phase_refinement [OF demo_reachable(3) _ this, of demo_claimed] show ?thesis
    by (simp add: demo_put demo_rows)
qed

text \<open>
  C4: the number of submission attempts of a refund never exceeds the largest maximum the workers
  run with, and a refund is pending exactly as long as nothing was submitted.
\<close>

theorem refund_attempts_bounded:
  assumes "reachable sha M s" and "0 \<le> M" and "r \<in> set (refunds (sdb s))"
  shows "0 \<le> rAttempts r \<and> rAttempts r \<le> M \<and> (rStatus r = RefundPending \<longleftrightarrow> rAttempts r = 0)"
  using reachable_inv [OF assms(1,2)] assms(3)
  by (auto simp: sys_inv_def db_inv_def refunds_inv_def refund_row_inv_def refund_checks_def)

theorem refund_attempts_bounded_witness:
  "0 \<le> rAttempts demo_done \<and> rAttempts demo_done \<le> 5 \<and>
    (rStatus demo_done = RefundPending \<longleftrightarrow> rAttempts demo_done = 0)"
  using refund_attempts_bounded [OF demo_reachable(4), of demo_done] by (simp add: demo_put demo_rows)

text \<open>
  C5: at most one outcome per claim: after an outcome was stored for a claimed refund, every further
  outcome for the same claim is refused and leaves the database as it is, in every later state.
\<close>

theorem outcome_applied_once:
  assumes "reachable sha M s" and "0 \<le> M"
    and "ApplyRefundOutcome e (sdb s) c out now = (Inr (), d)"
    and "run sha M (s\<lparr>sdb := d\<rparr>) t"
  shows "\<exists>err. ApplyRefundOutcome e' (sdb t) c out' now' = (Inl err, sdb t)"
proof -
  note inv = reachable_inv [OF assms(1,2)]
  from assms(3) have "apply_outcome_tx e c out now (sdb s) = Inr ((), Some d) \<or> apply_outcome_tx e c out now (sdb s) = Inr ((), None)"
    by (auto simp: ApplyRefundOutcome_def run_tx_Inr)
  moreover have "apply_outcome_tx e c out now (sdb s) \<noteq> Inr ((), None)"
    by (auto simp: apply_outcome_tx_def bindE_Inr split: if_splits option.splits)
  ultimately obtain old new recs where old: "find (\<lambda>r. rID r = rID c) (refunds (sdb s)) = Some old"
    and step: "refund_row_step M old new" and lease: "lease_valid old c now"
    and d: "d = (put_refund old new (sdb s))\<lparr>reconciliation_results := reconciliation_results (sdb s) @ recs\<rparr>"
    by (metis apply_outcome_tx_effect)
  have step1: "sys_step sha M s (s\<lparr>sdb := d\<rparr>)" by (rule sys_step.apply_outcome [OF assms(3)])
  note inv1 = sys_step_good(2) [OF step1 inv assms(2)] and inv2 = run_inv [OF assms(4) _ assms(2)]
  have "old \<in> set (refunds (sdb s))" "rID old = rID c" "rVersion old = rVersion c"
    using find_Some_set [OF old] lease by (auto simp: lease_valid_def)
  then have new: "new \<in> set (refunds (sdb (s\<lparr>sdb := d\<rparr>)))" "rID new = rID c" "rVersion new = rVersion c + 1"
    using refund_row_step_identity [OF step] by (auto simp: d set_update_where same_identity_def)
  obtain r' where r': "r' \<in> set (refunds (sdb t))" "(refund_row_step M)\<^sup>*\<^sup>* new r'"
    using run_refund [OF assms(4) inv1 assms(2) new(1)] by blast
  have "distinct (map rID (refunds (sdb t)))"
    using inv2 [OF inv1] by (simp add: sys_inv_def db_inv_def refunds_inv_def)
  then have "\<forall>r \<in> set (refunds (sdb t)). rID r = rID c \<longrightarrow> rVersion r \<noteq> rVersion c"
  proof (intro ballI impI)
    fix r
    assume "distinct (map rID (refunds (sdb t)))" and r: "r \<in> set (refunds (sdb t))" "rID r = rID c"
    then have "r = r'"
      using distinct_key_eq r'(1) row_steps_identity [OF r'(2)] new(2) by (metis same_identity_def)
    then show "rVersion r \<noteq> rVersion c" using row_steps_identity [OF r'(2)] new(3) by auto
  qed
  from stale_claim_refused(1,2) [OF this] show ?thesis by (metis prod.collapse)
qed

theorem outcome_applied_once_witness:
  "\<exists>err. ApplyRefundOutcome (calm 13 5 ''a'') (sdb (demo_sys demo_db4)) demo_claimed demo_outcome 13 = (Inl err, sdb (demo_sys demo_db4))"
proof -
  have "ApplyRefundOutcome (calm 12 4 ''a'') (sdb (demo_sys demo_db3)) demo_claimed demo_outcome 12 = (Inr (), demo_db4)"
    using demo_outcome_step by (simp add: demo_put)
  from outcome_applied_once [OF demo_reachable(3) _ this, of "demo_sys demo_db4"] show ?thesis
    by (simp add: demo_put)
qed

text \<open>
  C6: leases exclude each other: while the row a claim returned is unchanged, no process can claim
  that refund again before the lease of the first claim has run out.
\<close>

theorem lease_exclusive:
  assumes "reachable sha M s" and "0 \<le> M" and "m \<le> M"
    and first: "ClaimRefund e (sdb s) kind now lease m = (Inr (Some c), d)"
    and "run sha M (s\<lparr>sdb := d\<rparr>) t" and held: "c \<in> set (refunds (sdb t))"
    and second: "ClaimRefund e' (sdb t) kind' now' lease' m' = (Inr (Some c'), d')" and same: "rID c' = rID c"
  shows "time_add now lease \<le> now'"
proof -
  have step: "sys_step sha M s (s\<lparr>sdb := d\<rparr>)" by (rule sys_step.claim [OF first assms(3)])
  have "sys_inv sha M t"
    using run_inv [OF assms(5)] sys_step_good(2) [OF step] reachable_inv assms(1,2) by blast
  then have dist: "distinct (map rID (refunds (sdb t)))" by (simp add: sys_inv_def db_inv_def refunds_inv_def)
  obtain old where "old \<in> set (refunds (sdb t))" "rID old = rID c'" "claim_due now' old"
    using claim_Some [OF second] by blast
  moreover from this have "old = c" using distinct_key_eq [OF dist] held same by simp
  ultimately show ?thesis
    using claim_Some [OF first] by (auto simp: claim_due_def)
qed

theorem lease_exclusive_witness:
  "ClaimRefund (calm 40 6 ''a'') (sdb (demo_sys demo_db3)) ClaimReconcile 40 30 5 = (Inr (Some demo_reclaimed), demo_db5) \<and>
   time_add 10 30 \<le> (40 :: go_time)"
proof -
  have first: "ClaimRefund (calm 10 3 ''a'') (sdb (demo_sys demo_db2)) ClaimSubmit 10 30 5 = (Inr (Some demo_claimed), demo_db3)"
    using demo_claim_step by (simp add: demo_put)
  have run: "run demo_sha 5 ((demo_sys demo_db2)\<lparr>sdb := demo_db3\<rparr>) (demo_sys demo_db3)"
    by (simp add: demo_put)
  have second: "ClaimRefund (calm 40 6 ''a'') (sdb (demo_sys demo_db3)) ClaimReconcile 40 30 5 = (Inr (Some demo_reclaimed), demo_db5)"
    using demo_reclaim_step by (simp add: demo_put)
  have "time_add 10 30 \<le> (40 :: go_time)"
    by (rule lease_exclusive [OF demo_reachable(2) _ _ first run _ second])
      (simp_all add: demo_put demo_rows demo_reclaimed_def claim_reconcile_set_def bump_def)
  with second show ?thesis by blast
qed

section \<open>The refund worker\<close>

text \<open>
  C7: the delay before attempt \<open>n\<close> is the initial delay doubled \<open>n - 1\<close> times and capped, less a jitter of
  at most half; the 64-bit doubling never overflows.
\<close>

theorem backoff_bounds:
  assumes "Validate opts = None" and "woMaxBackoff opts \<le> max_int64"
  shows "min (woMaxBackoff opts) (woInitialBackoff opts * 2 ^ nat (attempt - 1)) div 2 \<le> backoff opts k attempt \<and>
    backoff opts k attempt \<le> min (woMaxBackoff opts) (woInitialBackoff opts * 2 ^ nat (attempt - 1))"
  using jitter_bounds [OF base_backoff_pos(1) [OF assms], of attempt k]
  by (simp add: backoff_def base_backoff_closed [OF assms])

theorem backoff_bounds_witness:
  "30 * Second \<le> backoff DefaultOptions 7 10 \<and> backoff DefaultOptions 7 10 \<le> Minute"
  using backoff_bounds [of DefaultOptions 10 7]
  by (simp add: Validate_def DefaultOptions_def Minute_def Second_def max_int64_def wrap64_id int64_def min_int64_def)



text \<open>
  C9: with a provider that keeps the contract of the client, the next action is never scheduled in the
  past and never later than the longest of the check interval, the largest backoff and one day.
\<close>

theorem next_action_bounds:
  assumes "Validate opts = None" and "woMaxBackoff opts \<le> max_int64" and "answer_ok lookup i answer"
  shows "now \<le> oNextActionAt (decide opts k r answer now lookup) \<and>
    oNextActionAt (decide opts k r answer now lookup) \<le>
      now + max (woCheckInterval opts) (max (woMaxBackoff opts) (24 * Hour))"
  by (rule decide_next_action [OF assms refl])

theorem next_action_bounds_witness:
  "12 \<le> oNextActionAt (decide DefaultOptions 3 demo_claimed (Inl (provider_error ''down'')) 12 True) \<and>
   oNextActionAt (decide DefaultOptions 3 demo_claimed (Inl (provider_error ''down'')) 12 True) \<le> 12 + 24 * Hour"
  using next_action_bounds [of DefaultOptions True "''x''" "Inl (provider_error ''down'')" 12 3 demo_claimed]
  by (simp add: Validate_def DefaultOptions_def Hour_def Minute_def Second_def max_int64_def wrap64_id int64_def min_int64_def)

text \<open>
  C10: a submission attempt settles the refund it claimed. If the row is still the claimed one when the
  provider has answered, the lease has not run out and the database does not fail, the attempt ends
  without an error, whatever the provider answered, and leaves the refund finished, in manual review, or
  unleased and due for a later claim: never stuck.
\<close>

theorem submit_settles:
  assumes claim: "ClaimRefund (atClaim a) d ClaimSubmit (atClaimedAt a) (woLeaseDuration opts) (woMaxAttempts opts) = (Inr (Some c), d1)"
    and others: "refunds_inv M (atOthers a d1)" "c \<in> set (refunds (atOthers a d1))"
    and time: "atNow a < time_add (atClaimedAt a) (woLeaseDuration opts)"
    and room: "rCheckFailures c < max_int32" "rVersion c < max_int64"
    and fresh: "fresh_event c (atOthers a d1)" and env: "fault_free (atSave a)"
  shows "\<exists>d2 w2 new. ProcessOnce opts store_repository p a (d, w) = ((True, None), d2, w2) \<and> new \<in> set (refunds d2) \<and>
    same_identity c new \<and> (terminal new \<or> phase_of new = Review \<or> claimable (woMaxAttempts opts) new)"
proof -
  obtain ans w2 where "pvSubmit p w c = (ans, w2)" by fastforce
  then show ?thesis
    using save_settles [where k = "atRand a" and answer = ans and lookup = False,
        OF claim others time room fresh _ env disjI1 [OF refl]] claim
    by (auto simp: ProcessOnce_def)
qed

theorem submit_settles_witness:
  "\<exists>d2 w2 new. ProcessOnce demo_opts store_repository demo_provider (demo_attempt (calm 10 3 ''a'') 10) (demo_db2, ()) =
      ((True, None), d2, w2) \<and> new \<in> set (refunds d2) \<and>
    same_identity demo_claimed new \<and> (terminal new \<or> phase_of new = Review \<or> claimable (woMaxAttempts demo_opts) new)"
  by (rule submit_settles [where M = 5 and ?d1.0 = demo_db3])
    (simp_all add: demo_claim_step demo_inv demo_rows demo_fresh demo_counts time_add_def max_int32_def max_int64_def)

text \<open>
  C11: a reconciliation settles the refund it claimed in the same sense, and leaves exactly one audit
  record of what was found.
\<close>

theorem reconcile_settles:
  assumes claim: "ClaimRefund (atClaim a) d ClaimReconcile (atClaimedAt a) (woLeaseDuration opts) (woMaxAttempts opts) = (Inr (Some c), d1)"
    and others: "refunds_inv M (atOthers a d1)" "c \<in> set (refunds (atOthers a d1))"
    and time: "atNow a < time_add (atClaimedAt a) (woLeaseDuration opts)"
    and room: "rCheckFailures c < max_int32" "rVersion c < max_int64"
    and fresh: "fresh_event c (atOthers a d1)" "fresh_reconciliation (atSave a) (atOthers a d1)" and env: "fault_free (atSave a)"
  shows "\<exists>d2 w2 new rec. ReconcileOnce opts store_repository p a (d, w) = ((True, None), d2, w2) \<and> new \<in> set (refunds d2) \<and>
    same_identity c new \<and> (terminal new \<or> phase_of new = Review \<or> claimable (woMaxAttempts opts) new) \<and>
    reconciliation_results d2 = reconciliation_results (atOthers a d1) @ [rec]"
proof -
  obtain ans w2 where "pvLookup p w (rID c) = (ans, w2)" by fastforce
  then show ?thesis
    using save_settles [where k = "atRand a" and answer = ans and lookup = True,
        OF claim others time room fresh env disjI2 [OF refl]] claim
    by (auto simp: ReconcileOnce_def reconciled_def length_Suc_conv)
qed

theorem reconcile_settles_witness:
  "\<exists>d2 w2 new rec. ReconcileOnce demo_opts store_repository demo_provider (demo_attempt (calm 40 6 ''a'') 40) (demo_db3, ()) =
      ((True, None), d2, w2) \<and> new \<in> set (refunds d2) \<and>
    same_identity demo_reclaimed new \<and> (terminal new \<or> phase_of new = Review \<or> claimable (woMaxAttempts demo_opts) new) \<and>
    reconciliation_results d2 = reconciliation_results (atOthers (demo_attempt (calm 40 6 ''a'') 40) demo_db5) @ [rec]"
  by (rule reconcile_settles [where M = 5])
    (simp_all add: demo_reclaim_step demo_inv demo_fresh demo_counts time_add_def max_int32_def max_int64_def)



text \<open>
  C13: the refund worker process, from its environment to its loop. In whatever order the maps of
  the configuration are walked, the process either stops at start with an error and has done nothing to the database
  or at the provider, or runs its loop with valid options. Whatever the provider answers and whatever fails, the
  database afterwards is that of a reachable state of the system, so that everything shown of reachable states holds
  with refund workers running.
\<close>

theorem refund_process_refines:
  assumes "reachable sha M s" and "mset ds = mset duration_targets" and "mset ns = mset int_targets"
    and "\<forall>opts. RefundOptions getenv parse duration_targets int_targets = Inr opts \<longrightarrow> woMaxAttempts opts \<le> M"
    and "\<forall>rd \<in> set ticks. \<forall>i. others_allowed (simulated sha M) (rdReconcile (rd i)) \<and>
      others_allowed (simulated sha M) (rdProcess (rd i))"
    and "refundworker_run getenv parse parse_url ds ns srv ce ticks (sdb s, w) = (res, d, w')"
  shows "(\<exists>t. reachable sha M t \<and> sdb t = d) \<and>
    (case res of
       Some err \<Rightarrow> d = sdb s \<and> w' = w
     | None \<Rightarrow> \<exists>opts cl. RefundOptions getenv parse duration_targets int_targets = Inr opts \<and> Validate opts = None \<and>
         (d, w') = Run opts store_repository (client_provider ce cl) ticks (sdb s, w))"
proof (cases rule: refundworker_run_cases [of getenv parse parse_url ds ns srv ce ticks "(sdb s, w)"])
  case (stopped err)
  then show ?thesis using assms(1,6) by auto
next
  case (running opts cl)
  then have opts: "RefundOptions getenv parse duration_targets int_targets = Inr opts"
    using RefundOptions_order [OF assms(2,3)] by blast
  have eq: "res = None" "(d, w') = Run opts store_repository (client_provider ce cl) ticks (sdb s, w)"
    using assms(6) running(5) by simp_all
  moreover have "\<exists>t. reachable sha M t \<and> sdb t = d"
    using Run_reachable [OF assms(1) assms(4) [rule_format, OF opts] assms(5), of "client_provider ce cl" w] eq(2) [symmetric] by simp
  ultimately show ?thesis using opts running(2) by auto
qed

theorem refund_process_refines_witness:
  "\<exists>d w' t. refundworker_run demo_getenv (\<lambda>_. Inl ErrNoRows) demo_url duration_targets int_targets demo_dbms
      (\<lambda>_. mock_client_env demo_codec demo_network demo_client 42 (\<lambda>_. None))
      [\<lambda>i. \<lparr>rdReconcile = demo_attempt (calm 40 6 ''a'') 40, rdProcess = demo_attempt (calm 43 7 ''c'') 43, rdDone = False\<rparr>]
      (sdb (demo_sys demo_db3), demo_server) = (None, d, w') \<and> reachable demo_sha 5 t \<and> sdb t = d"
proof -
  let ?run = "refundworker_run demo_getenv (\<lambda>_. Inl ErrNoRows) demo_url duration_targets int_targets demo_dbms
      (\<lambda>_. mock_client_env demo_codec demo_network demo_client 42 (\<lambda>_. None))
      [\<lambda>i. \<lparr>rdReconcile = demo_attempt (calm 40 6 ''a'') 40, rdProcess = demo_attempt (calm 43 7 ''c'') 43, rdDone = False\<rparr>]
      (sdb (demo_sys demo_db3), demo_server)"
  have started: "fst ?run = None"
    by (simp add: refundworker_run_def demo_process_opts NewWorker_def demo_process_parts)
  obtain res d w' where run: "?run = (res, d, w')" by (metis surj_pair)
  from refund_process_refines [OF demo_reachable(3) refl refl _ _ run]
  have "\<exists>t. reachable demo_sha 5 t \<and> sdb t = d" by (simp add: demo_process_opts others_allowed_def DefaultOptions_def)
  with run started show ?thesis by auto
qed

section \<open>Idempotency, the outbox and isolation\<close>

text \<open>
  C14: creating a refund is idempotent across the whole life of the system. After a request
  was answered with a refund, a repetition with the same user and key, by any process in any later
  state, returns that same refund and creates nothing, and one with another request hash is refused.
\<close>

theorem refund_create_idempotent:
  assumes "reachable sha M s" and "0 \<le> M"
    and first: "CreateRefund sha e (proc s i) r = (Inr (c, b), st)"
    and later: "run sha M (put_proc s i st) t"
    and again: "rUserID r' = rUserID r" "rIdempotencyKey r' = rIdempotencyKey r" and env: "fault_free e'"
  shows "\<exists>c' \<in> set (refunds (sdb t)). same_identity c c' \<and>
    fst (CreateRefund sha e' (proc t j) r') =
      (if rRequestHash r' = rRequestHash r then Inr (c', False) else Inl ErrIdempotencyConflict) \<and>
    refunds (pool (snd (CreateRefund sha e' (proc t j) r'))) = refunds (sdb t)"
  by (rule refund_replay [OF assms])

theorem refund_create_idempotent_witness:
  "\<exists>c' \<in> set (refunds (sdb (demo_sys demo_db4))). same_identity demo_pending c' \<and>
    fst (CreateRefund demo_sha (calm 50 9 ''z'') (proc (demo_sys demo_db4) 3) demo_request) = Inr (c', False) \<and>
    refunds (pool (snd (CreateRefund demo_sha (calm 50 9 ''z'') (proc (demo_sys demo_db4) 3) demo_request))) =
      refunds (sdb (demo_sys demo_db4))"
proof -
  have first: "CreateRefund demo_sha (calm 5 2 ''a'') (proc (demo_sys demo_db1) 0) demo_request =
     (Inr (demo_pending, True), \<lparr>pool = demo_db2, ensuredUsers = {''alice''}\<rparr>)"
    using demo_refund_step by (simp add: demo_put)
  have "run demo_sha 5 (put_proc (demo_sys demo_db1) 0 \<lparr>pool = demo_db2, ensuredUsers = {''alice''}\<rparr>) (demo_sys demo_db4)"
    using demo_run by (simp add: demo_put)
  from refund_create_idempotent [OF demo_reachable(1) _ first this, of demo_request "calm 50 9 ''z''" 3]
  show ?thesis by simp
qed



text \<open>
  C16: the outbox is complete: in every reachable state each refund has an event announcing the
  status it is in, and each payment has the event of its creation with the amount it has, and the event of
  its cancellation if its status is no longer the one it was created with.
\<close>

theorem outbox_complete:
  assumes "reachable sha M s" and "0 \<le> M"
  shows "(\<forall>r \<in> set (refunds (sdb s)). \<exists>ev \<in> set (outbox_events (sdb s)). announces r ev) \<and>
    (\<forall>tbl rows. payments_tables (sdb s) tbl = Some rows \<longrightarrow> (\<forall>p \<in> set rows. payment_announced sha (sdb s) tbl p))"
  using reachable_published [OF assms] by (simp add: published_def)

theorem outbox_complete_witness:
  "\<exists>ev \<in> set (outbox_events (sdb (demo_sys demo_db4))). announces demo_done ev"
  using outbox_complete [OF demo_reachable(4)] by (simp add: demo_put demo_rows)

text \<open>
  C17: no event is ever lost or rewritten: along every run each outbox event keeps its identity, type,
  aggregate and payload, and idempotency keys are only added.
\<close>

theorem outbox_events_kept:
  assumes "reachable sha M s" and "0 \<le> M" and "run sha M s t"
  shows "(\<forall>x \<in> set (outbox_events (sdb s)). \<exists>y \<in> set (outbox_events (sdb t)). same_event x y) \<and>
    (\<exists>ks. idempotency_keys (sdb t) = idempotency_keys (sdb s) @ ks)"
  using run_logs [OF assms(3) reachable_inv [OF assms(1,2)] assms(2)] by (simp add: logs_def events_kept_def)

theorem outbox_events_kept_witness:
  "\<exists>y \<in> set (outbox_events (sdb (demo_sys demo_db4))). same_event (refund_event ''refund.created'' demo_pending) y"
proof -
  have "refund_event ''refund.created'' demo_pending \<in> set (outbox_events (sdb (demo_sys demo_db2)))"
    by (simp add: demo_put demo_db2_def refund_events_def refund_event_kind_def)
  then show ?thesis using outbox_events_kept [OF demo_reachable(2) _ demo_run] by simp
qed



text \<open>
  C19: what is done for one user never touches the payments or the webhook subscriptions of another
  registered user, in whatever state the system is and whatever fails.
\<close>

theorem tenant_isolation:
  assumes "reachable sha M s" and "0 \<le> M" and "registered (sdb s) v" and "v \<noteq> TrimSpace user"
    and "CreatePayment sha e (proc s i) user p h = (r1, st) \<or> CancelPayment sha e (proc s i) user x c = (r2, st) \<or>
      CreateSubscription sha e (proc s i) user sub = (r3, st) \<or> SetSubscriptionActive sha e (proc s i) user x b c = (r4, st) \<or>
      rUserID r = user \<and> CreateRefund sha e (proc s i) r = (r5, st)"
  shows "payments_tables (pool st) (utPayments (deriveUserTables sha v)) = payments_tables (sdb s) (utPayments (deriveUserTables sha v)) \<and>
    webhooks_tables (pool st) (utWebhooks (deriveUserTables sha v)) = webhooks_tables (sdb s) (utWebhooks (deriveUserTables sha v))"
proof -
  have inv: "store_inv sha (proc s i)" and v: "registered (pool (proc s i)) v"
    using sys_inv_proc [OF reachable_inv [OF assms(1,2)]] assms(3) by (auto simp: proc_def)
  from assms(5) have "leaves_alone sha v (proc s i) st"
    by (elim disjE conjE) (erule (1) isolated_ops [OF inv v assms(4)] | erule isolated_ops [OF inv v assms(4)])+
  then show ?thesis by (simp add: leaves_alone_def tables_of_def proc_def)
qed

theorem tenant_isolation_witness:
  "payments_tables (pool (snd (CancelPayment demo_sha (calm 60 9 ''b'') (proc (demo_sys demo_db6) 1) ''bob'' ''p2'' 60))) pt =
   payments_tables (sdb (demo_sys demo_db6)) pt"
proof -
  have "registered (sdb (demo_sys demo_db6)) ''alice''"
    by (simp add: demo_put registered_def demo_db6_def demo_db1_def)
  moreover have "''alice'' \<noteq> TrimSpace ''bob''" by code_simp
  moreover obtain r2 st where st: "CancelPayment demo_sha (calm 60 9 ''b'') (proc (demo_sys demo_db6) 1) ''bob'' ''p2'' 60 = (r2, st)"
    by fastforce
  ultimately show ?thesis
    using tenant_isolation [OF demo_keyed_reachable, of "''alice''" "''bob''" "calm 60 9 ''b''" 1 _ _ _ st "''p2''" 60 r2]
    by simp
qed

section \<open>Listing, cancelling and limiting\<close>




text \<open>
  C22: a payment is cancelled at most once as long as the cancellations do not overlap: after one has
  succeeded, every later one is refused as an invalid state and changes nothing.
\<close>

theorem cancel_once:
  assumes "reachable sha M s" and "0 \<le> M"
    and first: "CancelPayment sha e (proc s i) user x c = (Inr (), st)"
    and later: "run sha M (put_proc s i st) t" and env: "fault_free e'"
  shows "fst (CancelPayment sha e' (proc t j) user x c') = Inl ErrInvalidPaymentState \<and>
    outbox_events (pool (snd (CancelPayment sha e' (proc t j) user x c'))) = outbox_events (sdb t)"
proof -
  note inv = reachable_inv [OF assms(1,2)]
  have step: "sys_step sha M s (put_proc s i st)" by (rule sys_step.cancel_payment [OF first])
  note inv1 = sys_step_good(2) [OF step inv assms(2)]
  note inv2 = run_inv [OF later inv1 assms(2)]
  have st0: "store_inv sha (proc s i)" "payments_inv (pool (proc s i))"
    using sys_inv_proc [OF inv] by (auto simp: db_inv_def)
  obtain p where p: "find_payment (sdb (put_proc s i st)) (table_of sha user) x = Some (cancelled_at c p)"
    and "registered (sdb (put_proc s i st)) (TrimSpace user)"
    using cancel_stored [OF first st0] by (auto simp: put_proc_def)
  then have reg: "registered (sdb t) (TrimSpace user)" using run_registered [OF later inv1 assms(2)] by blast
  have "find_payment (sdb t) (table_of sha user) x = Some (cancelled_at c p)"
    using run_payment [OF later inv1 assms(2)] p unfolding payments_step_def by (fastforce simp: cancelled_at_def)
  then have "find_payment (pool (proc t j)) (table_of sha user) x = Some (cancelled_at c p)"
    "registered (pool (proc t j)) (TrimSpace user)" "store_inv sha (proc t j)" "pool (proc t j) = sdb t"
    using reg sys_inv_proc [OF inv2] by (auto simp: proc_def)
  then show ?thesis using cancel_refused [of sha "proc t j" user x "cancelled_at c p" e' c'] env
    by (simp add: cancelled_at_def)
qed

theorem cancel_once_witness:
  "fst (CancelPayment demo_sha (calm 61 10 ''a'') (proc (demo_sys demo_db7) 2) ''alice'' ''p2'' 61) = Inl ErrInvalidPaymentState"
proof -
  have first: "CancelPayment demo_sha (calm 60 9 ''a'') (proc (demo_sys demo_db6) 0) ''alice'' ''p2'' 60 =
      (Inr (), \<lparr>pool = demo_db7, ensuredUsers = {''alice''}\<rparr>)"
    using demo_cancel_step by (simp add: demo_put)
  have "run demo_sha 5 (put_proc (demo_sys demo_db6) 0 \<lparr>pool = demo_db7, ensuredUsers = {''alice''}\<rparr>) (demo_sys demo_db7)"
    by (simp add: demo_put)
  from cancel_once [OF demo_keyed_reachable _ first this, of "calm 61 10 ''a''" 2 61] show ?thesis by simp
qed

text \<open>
  C23: two overlapping cancellations of one pending payment can both succeed. The status is read without a
  lock and the update does not check it again, so that when the second read happens before the first
  commit, both transactions write and both publish a cancellation event.
\<close>

theorem cancel_race:
  assumes "fault_free e1" "fault_free e2" and rows: "payments_tables d (table_of sha user) = Some rows"
    and p: "find (\<lambda>x. pID x = i) rows = Some p" "pStatus p = PaymentPending"
    and ids: "\<forall>x \<in> set (outbox_events d). eID x \<noteq> nextStorageID e1 ''evt'' \<and> eID x \<noteq> nextStorageID e2 ''evt''"
      "nextStorageID e1 ''evt'' \<noteq> nextStorageID e2 ''evt''"
  shows "cancel_payment_check e1 (table_of sha user) i d = Inr p \<and> cancel_payment_check e2 (table_of sha user) i d = Inr p \<and>
    (\<exists>d1 d2. cancel_payment_write e1 (table_of sha user) user i p c1 d = Inr d1 \<and>
      cancel_payment_write e2 (table_of sha user) user i p c2 d1 = Inr d2 \<and>
      length (filter (\<lambda>x. eEventType x = EventPaymentCancelled \<and> eAggregateID x = i) (outbox_events d2)) =
      length (filter (\<lambda>x. eEventType x = EventPaymentCancelled \<and> eAggregateID x = i) (outbox_events d)) + 2)"
proof -
  have i: "pID p = i" using find_Some_set [OF p(1)] by simp
  let ?d1 = "d\<lparr>payments_tables := (payments_tables d)(table_of sha user \<mapsto> update_where (\<lambda>x. pID x = i) (cancelled_at c1) rows),
       outbox_events := outbox_events d @
         [payment_event e1 user EventPaymentCancelled i (PaymentCancelledJSON \<lparr>pxID = i, pxCancelledAt = c1\<rparr>) c1]\<rparr>"
  have "cancel_payment_write e1 (table_of sha user) user i p c1 d = Inr ?d1"
    using cancel_write_ok [OF assms(1) rows i] ids(1) by blast
  moreover have "\<exists>d2. cancel_payment_write e2 (table_of sha user) user i p c2 ?d1 = Inr d2 \<and>
      outbox_events d2 = outbox_events ?d1 @
        [payment_event e2 user EventPaymentCancelled i (PaymentCancelledJSON \<lparr>pxID = i, pxCancelledAt = c2\<rparr>) c2]"
    using cancel_write_ok [OF assms(2) _ i, of ?d1 sha user "update_where (\<lambda>x. pID x = i) (cancelled_at c1) rows" c2] ids
    by (simp add: payment_event_def)
  ultimately show ?thesis
    using cancel_check_ok [OF _ rows p] assms(1,2) by (fastforce simp: payment_event_def)
qed
theorem cancel_race_witness:
  "cancel_payment_check (calm 60 9 ''a'') (table_of demo_sha ''alice'') ''p2'' demo_db6 = Inr demo_keyed \<and>
   cancel_payment_check (calm 61 10 ''a'') (table_of demo_sha ''alice'') ''p2'' demo_db6 = Inr demo_keyed \<and>
   (\<exists>d1 d2. cancel_payment_write (calm 60 9 ''a'') (table_of demo_sha ''alice'') ''alice'' ''p2'' demo_keyed 60 demo_db6 = Inr d1 \<and>
     cancel_payment_write (calm 61 10 ''a'') (table_of demo_sha ''alice'') ''alice'' ''p2'' demo_keyed 61 d1 = Inr d2 \<and>
     length (filter (\<lambda>x. eEventType x = EventPaymentCancelled \<and> eAggregateID x = ''p2'') (outbox_events d2)) =
     length (filter (\<lambda>x. eEventType x = EventPaymentCancelled \<and> eAggregateID x = ''p2'') (outbox_events demo_db6)) + 2)"
  by (rule cancel_race [where rows = "[demo_payment, demo_keyed]"])
    (simp_all add: demo_db6_def demo_db1_def demo_payment_def demo_keyed_def payment_event_def)

text \<open>
  C24: of any sequence of calls for one scope within one window exactly as many are allowed as the limit
  leaves, counting the hits the window had before.
\<close>

theorem rate_limit_exact:
  assumes "fault_free e" and "limiting lm scopeKey" and "\<forall>t \<in> set ts. time_truncate t (lmInterval lm) = start"
    and "window_hits (TrimSpace scopeKey) start d + int (length ts) \<le> max_int32"
  shows "int (length (filter granted (allow_calls e d (Some lm) scopeKey ts))) =
    min (int (length ts)) (max 0 (lmLimit lm - window_hits (TrimSpace scopeKey) start d))"
  by (rule allow_calls_granted [OF assms])

theorem rate_limit_exact_witness:
  "length (filter granted (allow_calls (calm 0 0 ''a'') empty_db (Some \<lparr>lmPool = True, lmLimit = 2, lmInterval = 10\<rparr>) ''alice''
     [20, 21, 25, 29])) = 2"
proof -
  have "window_hits ''alice'' 20 empty_db = 0" by (simp add: window_hits_def empty_db_def)
  then show ?thesis
    using rate_limit_exact [OF fault_free_calm, of "\<lparr>lmPool = True, lmLimit = 2, lmInterval = 10\<rparr>" "''alice''"
        "[20, 21, 25, 29]" 20 empty_db 0 0 "''a''"]
    by (simp add: limiting_def time_truncate_def max_int32_def)
qed

text \<open>
  C25: a refused caller is told to wait for a positive time of at most one interval, after which
  the window has ended.
\<close>

theorem retry_after_bounds:
  assumes "limiting lm scopeKey" and "lmInterval lm \<le> max_int64" and "Allow e d (Some lm) scopeKey now = (Inr dc, d')"
    and "\<not> dcAllowed dc"
  shows "0 < dcRetryAfter dc \<and> dcRetryAfter dc \<le> lmInterval lm \<and>
    time_truncate now (lmInterval lm) < time_truncate (time_add now (dcRetryAfter dc)) (lmInterval lm)"
  using retry_after_next_window [OF assms] .

theorem retry_after_bounds_witness:
  "\<exists>dc d'. Allow (calm 0 0 ''a'') (empty_db\<lparr>rate_limit_windows := [\<lparr>rwScope = ''alice'', rwStart = 20, rwHits = 2, rwCreatedAt = 20, rwUpdatedAt = 21\<rparr>]\<rparr>)
      (Some \<lparr>lmPool = True, lmLimit = 2, lmInterval = 10\<rparr>) ''alice'' 23 = (Inr dc, d') \<and> \<not> dcAllowed dc \<and>
    0 < dcRetryAfter dc \<and> dcRetryAfter dc \<le> 10"
proof -
  let ?d = "empty_db\<lparr>rate_limit_windows := [\<lparr>rwScope = ''alice'', rwStart = 20, rwHits = 2, rwCreatedAt = 20, rwUpdatedAt = 21\<rparr>]\<rparr>"
  let ?lm = "\<lparr>lmPool = True, lmLimit = 2, lmInterval = 10\<rparr>"
  have lim: "limiting ?lm ''alice''" by (simp add: limiting_def)
  have hits: "window_hits ''alice'' 20 ?d = 2" by (simp add: window_hits_def window_row_def)
  obtain d' where a: "Allow (calm 0 0 ''a'') ?d (Some ?lm) ''alice'' 23 = (Inr (decide_hits ?lm 20 23 3), d')"
    using allow_hit [OF fault_free_calm lim, of 23 20 ?d 0 0 "''a''"] hits by (auto simp: time_truncate_def max_int32_def)
  have no: "\<not> dcAllowed (decide_hits ?lm 20 23 3)" by (simp add: decide_hits_def Let_def)
  from retry_after_bounds [OF lim _ a no] a no show ?thesis by (auto simp: max_int64_def)
qed

section \<open>The provider\<close>

text \<open>
  C26: database and provider agree. With any number of workers talking to the mock provider
  through the client, over a network that may lose requests and replies, with operators resolving operations,
  failing disks and restarts of the provider at any point: every refund the database calls succeeded is an
  operation the provider has on record as succeeded, for this payment, amount and currency.
\<close>

theorem paid_agreement:
  assumes "New_mock key file mode delay (Inr None) = Inr s0"
    and "(linked_step sha M cd)\<^sup>*\<^sup>* (linked_init s0) l" and "0 \<le> M" and "codec_sound cd"
    and "r \<in> set (refunds (sdb (lkSys l)))" and "rStatus r = RefundSucceeded"
  shows "\<exists>rec. svRecords (lkServer l) (rID r) = Some rec \<and> prStatus (rcResult rec) = Succeeded \<and>
    rcRequest rec = request_of r"
proof -
  have inv: "linked_inv sha M l" by (rule linked_run_inv [OF assms(2) linked_init_inv [OF assms(1)] assms(3,4)])
  then obtain rec where rec: "svRecords (lkServer l) (rID r) = Some rec" "prStatus (rcResult rec) = Succeeded"
    using assms(5,6) unfolding linked_inv_def settled_def paid_def by blast
  then have "has_refund (sdb (lkSys l)) (rID r) (rcRequest rec)"
    using inv by (auto simp: linked_inv_def known_def filed_def)
  then obtain r' where r': "r' \<in> set (refunds (sdb (lkSys l)))" "rID r' = rID r" "request_of r' = rcRequest rec"
    by (auto simp: has_refund_def)
  have "distinct (map rID (refunds (sdb (lkSys l))))"
    using inv by (simp add: linked_inv_def sys_inv_def db_inv_def refunds_inv_def)
  then have "r' = r" by (rule distinct_key_eq [OF _ r'(1) assms(5) r'(2)])
  with rec r'(3) show ?thesis by auto
qed

theorem paid_agreement_witness:
  "\<exists>rec. svRecords demo_server1 ''refund_1'' = Some rec \<and> prStatus (rcResult rec) = Succeeded \<and>
    rcRequest rec = request_of demo_done"
  using paid_agreement [OF demo_server_new demo_linked_run _ demo_codec_sound, of demo_done]
  by (simp add: demo_linked_def demo_put demo_rows demo_done_fields)

text \<open>
  C27: at the mock provider an operation that succeeded, or failed for good, never changes again,
  whatever requests come in, whatever file operations fail, and across restarts from the file.
\<close>

theorem provider_final:
  assumes "New_mock key file mode delay (Inr None) = Inr s0" and "mock_step\<^sup>*\<^sup>* s0 s" and "mock_step\<^sup>*\<^sup>* s t"
    and "svRecords s i = Some rec" and "final_result (rcResult rec)"
  shows "svRecords t i = Some rec"
proof -
  have "mock_inv s" using mock_run_keeps [OF assms(2) New_mock_inv [OF assms(1)]] by blast
  from mock_run_keeps [OF assms(3) this] show ?thesis using assms(4,5) by (simp add: mock_keeps_def)
qed

theorem provider_final_witness: "svRecords demo_server1 ''refund_1'' = Some demo_record"
  using provider_final [OF demo_server_new r_into_rtranclp [of mock_step, OF demo_server_step] rtranclp.rtrancl_refl,
      of "''refund_1''" demo_record]
  by (simp add: demo_server1_def demo_record_def demo_result_def final_result_def)

text \<open>
  C28: submitting an operation again after the provider has answered it with a final result
  returns that result and records nothing new, in every later state; the same operation identifier with any
  other payment, amount or currency is refused as a conflict.
\<close>

theorem provider_idempotent:
  assumes "New_mock key file mode delay (Inr None) = Inr s0" and "mock_step\<^sup>*\<^sup>* s0 s"
    and "submitLocked fs s req = ((result, 200, delayed), s1)" and "final_result result" and "mock_step\<^sup>*\<^sup>* s1 t"
    and "rqOperationID req' = rqOperationID req"
  shows "submitLocked fs' t req' =
    (if req' = req then (result, 200, False) else (zero_result, 409, False), t\<lparr>svPosts := svPosts t + 1\<rparr>)"
proof -
  have "mock_inv s" using mock_run_keeps [OF assms(2) New_mock_inv [OF assms(1)]] by blast
  then have "mock_inv s1" using submitLocked_keeps [OF assms(3)] by blast
  from mock_run_keeps [OF assms(5) this] submit_accepted [OF assms(3)]
  have "svRecords t (rqOperationID req) = Some \<lparr>rcRequest = req, rcResult = result\<rparr>"
    using assms(4) by (simp add: mock_keeps_def)
  then show ?thesis using submit_repeat [of t req' "\<lparr>rcRequest = req, rcResult = result\<rparr>" fs'] assms(4,6) by auto
qed

theorem provider_idempotent_witness:
  "submitLocked (\<lambda>_. None) demo_server1 ((request_of demo_claimed)\<lparr>rqAmount := 61\<rparr>) =
     ((zero_result, 409, False), demo_server1\<lparr>svPosts := 2\<rparr>)"
  using provider_idempotent [OF demo_server_new rtranclp.rtrancl_refl demo_submitLocked _ rtranclp.rtrancl_refl,
      of "(request_of demo_claimed)\<lparr>rqAmount := 61\<rparr>" "\<lambda>_. None"]
  by (simp add: final_result_def demo_result_def demo_request_fields) (simp add: demo_server1_def)



text \<open>
  C30: a reply that got lost does no harm. If a submission reached the provider and was
  recorded as succeeded but the client saw an error, then however the provider runs on, a later lookup over
  an intact network returns the recorded result and the worker concludes that the refund succeeded.
\<close>

theorem lost_reply_recovered:
  assumes "New_mock key file mode delay (Inr None) = Inr s0" and "mock_step\<^sup>*\<^sup>* s0 s"
    and "Submit (mock_client_env cd nw c now dates) c s r = (Inl err, s1)"
    and "svRecords s1 (rID r) = Some rec" and "prStatus (rcResult rec) = Succeeded" and "mock_step\<^sup>*\<^sup>* s1 t"
    and "rID r \<notin> {'''', ''.'', ''..'', ''/''}" and "nwLostRequest nw' = None" and "nwLostReply nw' = None" and "clKey c = svKey t"
    and "cdResult cd (cdReply cd (BResult (rcResult rec))) = Some (rcResult rec)"
    and "length (cdReply cd (BResult (rcResult rec))) \<le> 65536"
  shows "\<exists>t'. Lookup (mock_client_env cd nw' c now' dates) c t (rID r) = (Inr (rcResult rec), t') \<and>
    oStatus (decide opts k r (Inr (rcResult rec)) now'' True) = RefundSucceeded"
proof -
  have "mock_inv s" using mock_run_keeps [OF assms(2) New_mock_inv [OF assms(1)]] by blast
  then have "mock_inv s1" using call_keeps [OF assms(3) [unfolded Submit_def]] by blast
  from mock_run_keeps [OF assms(6) this] have t: "svRecords t (rID r) = Some rec" "record_ok (rID r) rec"
    using assms(4,5) by (auto simp: mock_keeps_def mock_inv_def records_ok_def final_result_def)
  show ?thesis
    using lookup_finds [OF t assms(7-12), of now' dates] t(2) assms(5) by (auto simp: decide_succeeded record_ok_def)
qed

theorem lost_reply_recovered_witness:
  "\<exists>t'. Lookup (mock_client_env demo_codec demo_network demo_client 50 (\<lambda>_. None)) demo_client demo_server1 (rID demo_claimed) =
      (Inr (rcResult demo_record), t') \<and>
    oStatus (decide demo_opts 0 demo_claimed (Inr (rcResult demo_record)) 51 True) = RefundSucceeded"
proof (rule lost_reply_recovered [OF demo_server_new rtranclp.rtrancl_refl])
  show "Submit (mock_client_env demo_codec (demo_network\<lparr>nwLostReply := Some ''timeout''\<rparr>) demo_client 11 (\<lambda>_. None)) demo_client
      demo_server demo_claimed = (Inl (provider_error (''provider transport error: '' @ ''timeout'')), demo_server1)"
    using demo_post [of "demo_network\<lparr>nwLostReply := Some ''timeout''\<rparr>"] by (simp add: demo_network_def)
  show "svRecords demo_server1 (rID demo_claimed) = Some demo_record" by (simp add: demo_server1_def demo_row_defs)
qed (simp_all add: demo_record_def demo_result_def demo_row_defs demo_network_def demo_client_def demo_server1_def demo_server_def demo_codec_def)

section \<open>The outbox worker\<close>



text \<open>
  C32: at least once. Whatever fails and whatever other processes do meanwhile, when processing an event
  ends without an error and leaves it marked delivered, then every active subscription the worker read has a
  successful delivery of this event on record.
\<close>

theorem webhook_acked:
  assumes "processEvent opts (outbox_repository_of sha) do oe event (st, w) = (None, st', w')"
    and "event_others_allowed (simulated_store sha M) oe"
    and "ListSubscriptions sha (oeSubscriptions oe) st (eUserID event) = (Inr subs, st1)"
    and "row \<in> set (outbox_events (pool st'))" and "eID row = eID event" and "eStatus row = OutboxDelivered"
    and "sub \<in> set subs" and "sActive sub"
  shows "\<exists>x \<in> set (webhook_deliveries (pool st')).
    dEventID x = eID event \<and> dSubscriptionID x = sID sub \<and> dStatus x = WebhookDeliverySucceeded"
proof -
  have "orListSubscriptions (outbox_repository_of sha) (oeSubscriptions oe) (fst (st, w)) (eUserID event) = (Inr subs, st1)"
    using assms(3) by (simp add: outbox_repository_of_def)
  moreover have "eID event \<in> finished_in (fst (st', w'))" using assms(4-6) by (auto simp: finished_in_def intro!: exI [of _ row])
  ultimately have "(eID event, sID sub) \<in> acked_in (fst (st', w'))"
    using outbox_store.processEvent_delivered [OF assms(1,2)] assms(7,8) by blast
  then show ?thesis by (auto simp: acked_in_def)
qed

theorem webhook_acked_witness:
  "\<exists>st'. (\<exists>w'. processEvent demo_outbox_opts (outbox_repository_of demo_sha) demo_hooks demo_event_env demo_event (demo_hook_store, []) =
      (None, st', w')) \<and>
    (\<exists>x \<in> set (webhook_deliveries (pool st')).
      dEventID x = ''evt_0_1'' \<and> dSubscriptionID x = ''s1'' \<and> dStatus x = WebhookDeliverySucceeded)"
proof -
  obtain st' w' row where run: "processEvent demo_outbox_opts (outbox_repository_of demo_sha) demo_hooks demo_event_env demo_event
      (demo_hook_store, []) = (None, st', w')" and row: "row \<in> set (outbox_events (pool st'))" "eID row = eID demo_event"
      "eStatus row = OutboxDelivered"
    using demo_delivered by blast
  from webhook_acked [OF run demo_others [of demo_sha 5] demo_list_subscriptions row, of demo_sub] run
  show ?thesis by (auto simp: demo_event_fields demo_sub_def)
qed

text \<open>
  C33: no repetition. In an attempt the worker sends the event only to active subscriptions without a
  successful delivery on record, each at most once and in their order, whatever fails; the requests are
  observed by a transport that keeps a log of them.
\<close>

theorem webhook_no_repeat:
  assumes "\<forall>w r. snd (do w r) = w @ [r]"
    and "processEvent opts (outbox_repository_of sha) do oe event (st, log) = (err, st', log')"
    and "ListSubscriptions sha (oeSubscriptions oe) st (eUserID event) = (Inr subs, st1)"
  shows "\<exists>ts. log' = log @ map (webhook_request_of event) ts \<and>
    subseq ts (filter (\<lambda>sub. sActive sub \<and> \<not> (\<exists>x \<in> set (webhook_deliveries (pool st1)).
      dEventID x = eID event \<and> dSubscriptionID x = sID sub \<and> dStatus x = WebhookDeliverySucceeded)) subs)"
proof -
  have eq: "pending_targets {i. (eID event, i) \<in> acked_in st1} subs =
      filter (\<lambda>sub. sActive sub \<and> \<not> (\<exists>x \<in> set (webhook_deliveries (pool st1)).
        dEventID x = eID event \<and> dSubscriptionID x = sID sub \<and> dStatus x = WebhookDeliverySucceeded)) subs"
    unfolding pending_targets_def acked_in_def by (intro filter_cong refl) fastforce
  show ?thesis
    using processEvent_sent [of do opts sha oe event "(st, log)" err "(st', log')" subs st1] assms
    unfolding eq by simp
qed

theorem webhook_no_repeat_witness:
  "\<exists>ts. snd (snd (processEvent demo_outbox_opts (outbox_repository_of demo_sha) demo_hooks demo_event_env demo_event (demo_hook_store, []))) =
      map (webhook_request_of demo_event) ts \<and> subseq ts [demo_sub]"
proof -
  have none: "webhook_deliveries (pool demo_hook_store) = []" by (simp add: demo_hook_store_def demo_db1_def empty_db_def)
  obtain err st' log' where run: "processEvent demo_outbox_opts (outbox_repository_of demo_sha) demo_hooks demo_event_env demo_event
      (demo_hook_store, []) = (err, st', log')" by (metis surj_pair)
  from webhook_no_repeat [OF _ run demo_list_subscriptions] run none
  show ?thesis by (simp add: demo_hooks_def demo_sub_def)
qed

text \<open>
  C34: the outbox worker process. It stops at start with an error and without effect, or runs its
  loop with positive options, whatever the environment says. Whatever the webhooks answer and whatever fails, the
  database and the cache of the process afterwards are those of a reachable state of the system.
\<close>

theorem outbox_process_refines:
  assumes "reachable sha M s"
    and "\<forall>it \<in> set its. \<forall>n. event_others_allowed (simulated_store sha M) (itEvents it n)"
    and "worker_main getenv parse srv sha do its (proc s i, w) = (res, st, w')"
  shows "(\<exists>t. reachable sha M t \<and> proc t i = st) \<and>
    (case res of
       Some err \<Rightarrow> st = proc s i \<and> w' = w
     | None \<Rightarrow> \<exists>opts. 0 < ooBatchSize opts \<and> 0 < ooPollInterval opts \<and> 0 < ooLockFor opts \<and> 0 < ooHTTPTimeout opts \<and>
         0 < ooMaxAttempts opts \<and> 0 < ooInitialBackoff opts \<and> 0 < ooMaxBackoff opts \<and>
         (st, w') = Run_outbox opts (outbox_repository_of sha) do its (proc s i, w))"
proof (cases res)
  case (Some err)
  then show ?thesis using assms(1,3) by (auto simp: worker_main_def split: option.splits)
next
  case None
  let ?opts = "normalizeOptions (outbox_options parse getenv)"
  have eq: "(st, w') = Run_outbox ?opts (outbox_repository_of sha) do its (proc s i, w)"
    using assms(3) None by (auto simp: worker_main_def split: option.splits)
  moreover have "\<exists>t. reachable sha M t \<and> proc t i = st"
    using Run_outbox_reachable [OF assms(1,2), of i ?opts do w] eq [symmetric] by simp
  ultimately show ?thesis using None outbox_options_positive [OF refl, of parse getenv] by auto
qed

theorem outbox_process_refines_witness:
  "\<exists>st w' t. worker_main demo_getenv (\<lambda>_. Inl ErrNoRows) demo_dbms demo_sha demo_hooks
      [\<lparr>itNow = 70, itFetch = calm 70 10 ''a'', itEvents = (\<lambda>n. demo_event_env), itDone = True\<rparr>]
      (proc (demo_sys demo_db1) 0, []) = (None, st, w') \<and> reachable demo_sha 5 t \<and> proc t 0 = st"
proof -
  let ?run = "worker_main demo_getenv (\<lambda>_. Inl ErrNoRows) demo_dbms demo_sha demo_hooks
      [\<lparr>itNow = 70, itFetch = calm 70 10 ''a'', itEvents = (\<lambda>n. demo_event_env), itDone = True\<rparr>] (proc (demo_sys demo_db1) 0, [])"
  have started: "fst ?run = None" by (simp add: worker_main_def demo_process_parts)
  obtain res st w' where run: "?run = (res, st, w')" by (metis surj_pair)
  from outbox_process_refines [OF demo_reachable(1) _ run]
  have "\<exists>t. reachable demo_sha 5 t \<and> proc t 0 = st" by (simp add: demo_others)
  with run started show ?thesis by auto
qed

section \<open>The services\<close>





section \<open>The HTTP API\<close>

text \<open>
  C37: what a request to the API can do. From every reachable state, a request to any process is a run
  of the system, so all theorems about reachable states and runs hold for what requests do. It changes nothing
  unless its \<open>Authorization\<close> header holds a token that is accepted now; then payments, subscriptions and refunds
  of every registered user other than the token's subject are left as they are, whatever fails on the way.
\<close>

theorem http_request_owner:
  assumes "reachable sha M s" and "0 \<le> M"
    and "NewRouter (payment_api jx cfg sha perMinute) lib ev (proc s i) r = (resp, st)"
  shows "run sha M s (put_proc s i st) \<and>
    (st = proc s i \<or>
     (\<exists>scheme token u. Fields (header_get r ''Authorization'') = [scheme, token] \<and> Authenticate jx cfg (aeUnix ev) token = Inr u \<and>
        (\<forall>v. registered (sdb s) v \<and> v \<noteq> u \<longrightarrow>
          payments_tables (pool st) (utPayments (deriveUserTables sha v)) = payments_tables (sdb s) (utPayments (deriveUserTables sha v)) \<and>
          webhooks_tables (pool st) (utWebhooks (deriveUserTables sha v)) = webhooks_tables (sdb s) (utWebhooks (deriveUserTables sha v)) \<and>
          {x \<in> set (refunds (pool st)). rUserID x = v} = {x \<in> set (refunds (sdb s)). rUserID x = v})))"
proof -
  let ?api = "payment_api jx cfg sha perMinute"
  have "run sha M s (put_proc s i st)"
    using api_runs.request_acts [OF assms(3), of M] by (auto simp: process_runs_def)
  moreover from api_owner.request_acts [OF assms(3), of M] consider "st = proc s i"
    | u where "request_user ?api ev r = Some u" "keeps_others sha M u (proc s i) st" by blast
  then have "st = proc s i \<or>
     (\<exists>scheme token u. Fields (header_get r ''Authorization'') = [scheme, token] \<and> Authenticate jx cfg (aeUnix ev) token = Inr u \<and>
        owns sha u (proc s i) st)"
  proof cases
    case 2
    then obtain scheme token where tok: "Fields (header_get r ''Authorization'') = [scheme, token]"
      "Authenticate jx cfg (aeUnix ev) token = Inr u"
      by (auto simp: request_user_def payment_api_def split: list.splits if_splits sum.splits)
    then have "TrimSpace u = u" by (auto simp: Authenticate_Inr authenticate_parts_Inr claims_ok_def validSubject_def)
    then have "owns sha u (proc s i) st"
      using 2(2) assms(2) sys_inv_proc [OF reachable_inv [OF assms(1,2)]] by (simp add: keeps_others_def)
    with tok show ?thesis by blast
  qed blast
  ultimately show ?thesis by (auto simp: owns_def tables_of_def refunds_of_def proc_def)
qed

theorem http_request_owner_witness:
  "payments_tables (pool (snd (NewRouter (payment_api demo_jwt demo_auth demo_sha 20) demo_lib (demo_api_env 1010)
     (proc (demo_sys demo_db6) 1) demo_http))) pt = payments_tables (sdb (demo_sys demo_db6)) pt"
proof -
  obtain resp st where st: "NewRouter (payment_api demo_jwt demo_auth demo_sha 20) demo_lib (demo_api_env 1010)
      (proc (demo_sys demo_db6) 1) demo_http = (resp, st)" by (rule prod.exhaust)
  have alice: "registered (sdb (demo_sys demo_db6)) ''alice''"
    by (simp add: demo_put registered_def demo_db6_def demo_db1_def)
  have bob: "u = ''bob''" if "Fields (header_get demo_http ''Authorization'') = [scheme, token]"
      "Authenticate demo_jwt demo_auth (aeUnix (demo_api_env 1010)) token = Inr u" for scheme token u
    using that demo_user [of demo_sha 20 1010]
    by (auto simp: request_user_def payment_api_def split: if_splits)
  have "payments_tables (pool st) (utPayments (deriveUserTables demo_sha ''alice'')) =
      payments_tables (sdb (demo_sys demo_db6)) (utPayments (deriveUserTables demo_sha ''alice''))"
    using http_request_owner [OF demo_keyed_reachable zero_le_numeral st]
  proof (elim conjE disjE exE)
    assume "st = proc (demo_sys demo_db6) 1"
    then show ?thesis by (simp add: proc_def)
  next
    fix scheme token u
    assume "Fields (header_get demo_http ''Authorization'') = [scheme, token]"
      "Authenticate demo_jwt demo_auth (aeUnix (demo_api_env 1010)) token = Inr u"
    from bob [OF this] have "''alice'' \<noteq> u" by simp
    moreover assume "\<forall>v. registered (sdb (demo_sys demo_db6)) v \<and> v \<noteq> u \<longrightarrow>
      payments_tables (pool st) (utPayments (deriveUserTables demo_sha v)) =
        payments_tables (sdb (demo_sys demo_db6)) (utPayments (deriveUserTables demo_sha v)) \<and>
      webhooks_tables (pool st) (utWebhooks (deriveUserTables demo_sha v)) =
        webhooks_tables (sdb (demo_sys demo_db6)) (utWebhooks (deriveUserTables demo_sha v)) \<and>
      {x \<in> set (refunds (pool st)). rUserID x = v} = {x \<in> set (refunds (sdb (demo_sys demo_db6))). rUserID x = v}"
    ultimately show ?thesis using alice by blast
  qed
  then show ?thesis unfolding st by simp
qed

text \<open>
  C38: the life of a token. A request that carries a token which \<open>Issue\<close> returned is passed on with the
  token's subject exactly from the second of issue to the end of the lifetime, and answered with 401, with no
  effect, at every other time. Assumed of \<open>encoding/json\<close> is that the header and the claims that were encoded decode
  to themselves.
\<close>

theorem token_roundtrip:
  assumes "Issue jx cfg now subject ttl = Inr token" and "length token \<le> 4096" and "0 < now" and "now + ttl div Second < 2 ^ 63"
    and "jxDecodeHeader jx (jxHeader jx issued_header) = Some issued_header"
    and "jxDecodeClaims jx (jxClaims jx (issued_claims cfg subject ttl now)) = Some (issued_claims cfg subject ttl now)"
    and "header_get r ''Authorization'' = ''Bearer '' @ token"
  shows "if now \<le> aeUnix ev \<and> aeUnix ev < now + ttl div Second
    then requireUser (payment_api jx cfg sha perMinute) ev d r inner = inner subject
    else asStatus (fst (requireUser (payment_api jx cfg sha perMinute) ev d r inner)) = 401 \<and>
      snd (requireUser (payment_api jx cfg sha perMinute) ev d r inner) = d"
  using bearer_user [OF assms, of sha perMinute ev]
    requireUser_Some [of "payment_api jx cfg sha perMinute" ev r subject d inner]
    requireUser_None [of "payment_api jx cfg sha perMinute" ev r d inner] by simp

theorem token_roundtrip_witness:
  "asStatus (fst (requireUser (payment_api demo_jwt demo_auth demo_sha 20) (demo_api_env 1060) (proc (demo_sys demo_db6) 1)
     demo_http (\<lambda>_. (handleLive, proc (demo_sys demo_db6) 1)))) = 401"
  using token_roundtrip [OF demo_issue _ _ _ demo_decoders demo_header, where ev = "demo_api_env 1060"]
  by (simp add: demo_api_env_def Second_def)

text \<open>
  C39: internal errors stay inside. Whatever the services return, a response with a status of 500 or more
  has one of two fixed bodies; the text of the error that caused it is not in it.
\<close>

theorem http_no_leak:
  assumes "NewRouter api lib ev d r = (resp, d')" and "500 \<le> asStatus resp"
  shows "asBody resp \<in> {ErrorBody ''internal server error'', StatusBody ''unavailable'' (Some ''database ping failed'')}"
  using discreet_router [of api lib ev d r] assms by (auto simp: discreet_def)

theorem http_no_leak_witness:
  "asBody (fst (NewRouter (payment_api demo_jwt demo_auth demo_sha 20) demo_lib demo_fault_env (proc (demo_sys demo_db6) 1) demo_ready)) \<in>
     {ErrorBody ''internal server error'', StatusBody ''unavailable'' (Some ''database ping failed'')}"
proof -
  obtain resp st where st: "NewRouter (payment_api demo_jwt demo_auth demo_sha 20) demo_lib demo_fault_env
      (proc (demo_sys demo_db6) 1) demo_ready = (resp, st)" by (rule prod.exhaust)
  have "500 \<le> asStatus resp" using arg_cong [OF st, of "\<lambda>x. asStatus (fst x)"] demo_ready_status by simp
  from http_no_leak [OF st this] show ?thesis unfolding st by simp
qed

section \<open>The event log\<close>

text \<open>
  C40: replaying a log gives back what was appended. If events were appended to an empty log, with
  whatever environment but without an error, then replaying the file applies exactly these events in order: it
  ends in the state applying them one after the other ends in, and reports the line of the first event that is refused.
  Assumed of \<open>encoding/json\<close> is that each event is encoded on one line shorter than the scanner's buffer that
  decodes to it.
\<close>

theorem replay_roundtrip:
  assumes "list_all (event_codec marshal unmarshal) evts" and "append_all le marshal s evts = (None, s')" and "jlContents s = ''''"
  shows "Replay calm_log unmarshal s' (Apply px) NewStore =
      (case apply_events (Apply px) 0 evts NewStore of
         (None, d) \<Rightarrow> (None, d)
       | (Some (k, err), d) \<Rightarrow> (Some (wrapf (''apply event at line '' @ dec (int k)) err), d)) \<and>
    state_inv (snd (Replay calm_log unmarshal s' (Apply px) NewStore))"
proof -
  obtain x d where "apply_events (Apply px) 0 evts NewStore = (x, d)" by (rule prod.exhaust)
  with apply_events_inv [of NewStore px 0 evts x d] show ?thesis
    unfolding Replay_appended [OF assms] by (auto split: option.split prod.split)
qed

theorem replay_roundtrip_witness:
  "Replay calm_log demo_unmarshal \<lparr>jlContents = ''e1'' @ newline @ ''e2'' @ newline, jlOpen = True\<rparr> (Apply demo_payloads) NewStore =
     (None, demo_state)"
  using replay_roundtrip [OF demo_event_codec demo_append, of demo_payloads, unfolded demo_apply] by simp

end
